(* ===== verification/Prelude.thy ===== *)
theory Prelude
  imports Main "HOL-Library.AList" "HOL-Library.Sublist"
begin

text \<open>
  Shared vocabulary of the development: the exceptions of the Python code as values, the two
  result shapes (a value or an exception; a mutated object together with the exception that
  interrupted the mutation), the string methods of Python that the code calls, dictionaries as
  insertion-ordered association lists, and the interface of the \<open>(str, Enum)\<close> classes.

  A Python \<open>str\<close> is a list of code points. HOL's \<open>string\<close> is a list of 8-bit characters, so it is
  exactly a Python string over the code points 0 to 255; the character tables below are the ones
  Python uses on that range. Strings with larger code points are outside the model.
\<close>

section \<open>Hint collections\<close>

named_theorems effect_simps \<open>unfolding rules of the result and effect combinators\<close>
named_theorems py_string_simps \<open>facts on the Python string methods\<close>

section \<open>Exceptions\<close>

text \<open>
  One constructor per exception class that the code raises, catches or lets through.
  \<open>EnumValueError\<close> and \<open>IsoFormatError\<close> are the \<open>ValueError\<close>s raised by calling an \<open>Enum\<close> class on
  a value it does not have and by \<open>datetime.fromisoformat\<close>; \<open>DBError\<close> is any error of the database
  driver; \<open>OtherError\<close> is an exception of another class, raised by code that is a parameter.
\<close>

datatype py_error =
    ValueError string
  | EnumValueError string string
  | IsoFormatError string
  | RuntimeError string
  | AttributeError string
  | FrozenInstanceError string
  | TypeError string
  | KeyError string
  | IndexError
  | TimeoutError string
  | TaskNotFoundError string
  | TaskVersionConflictError string int int
  | DBError string
  | OtherError string

text \<open>\<open>isinstance(e, ValueError)\<close>: what \<open>except ValueError\<close> catches.\<close>

fun is_value_error :: "py_error \<Rightarrow> bool" where
  "is_value_error (ValueError _) = True"
| "is_value_error (EnumValueError _ _) = True"
| "is_value_error (IsoFormatError _) = True"
| "is_value_error _ = False"

section \<open>Results and effects\<close>

text \<open>A constructor or a pure function: the exception on the left, the value on the right.\<close>

type_synonym 'a result = "py_error + 'a"

definition bind_r :: "'a result \<Rightarrow> ('a \<Rightarrow> 'b result) \<Rightarrow> 'b result" where
  "bind_r r f = (case r of Inl e \<Rightarrow> Inl e | Inr v \<Rightarrow> f v)"

definition map_r :: "('a \<Rightarrow> 'b) \<Rightarrow> 'a result \<Rightarrow> 'b result" where
  "map_r f r = bind_r r (\<lambda>v. Inr (f v))"

text \<open>A list comprehension \<open>[f(x) for x in xs]\<close>: the first exception ends it.\<close>

fun traverse_r :: "('a \<Rightarrow> 'b result) \<Rightarrow> 'a list \<Rightarrow> 'b list result" where
  "traverse_r f [] = Inr []"
| "traverse_r f (x # xs) = bind_r (f x) (\<lambda>y. bind_r (traverse_r f xs) (\<lambda>ys. Inr (y # ys)))"

text \<open>
  A method that mutates \<open>self\<close>: the object as it is when the method returns or raises, and the
  exception if it raises. What was assigned before the exception stays assigned.
\<close>

type_synonym 's effect = "'s \<times> py_error option"

definition done_eff :: "'s \<Rightarrow> 's effect" where
  "done_eff s = (s, None)"

definition raise_eff :: "py_error \<Rightarrow> 's \<Rightarrow> 's effect" where
  "raise_eff e s = (s, Some e)"

definition seq_eff :: "'s effect \<Rightarrow> ('s \<Rightarrow> 's effect) \<Rightarrow> 's effect" where
  "seq_eff r f = (case r of (s, None) \<Rightarrow> f s | (s, Some e) \<Rightarrow> (s, Some e))"

text \<open>\<open>self.field = expression\<close>: an exception of the expression leaves the field as it was.\<close>

definition set_eff :: "'a result \<Rightarrow> ('a \<Rightarrow> 's \<Rightarrow> 's) \<Rightarrow> 's \<Rightarrow> 's effect" where
  "set_eff r upd s = (case r of Inl e \<Rightarrow> (s, Some e) | Inr v \<Rightarrow> (upd v s, None))"

text \<open>
  A call that changes a state beyond one object and returns a value or raises; what it changed before
  it raised stays changed.
\<close>

definition bind_s :: "'a result \<times> 's \<Rightarrow> ('a \<Rightarrow> 's \<Rightarrow> 'b result \<times> 's) \<Rightarrow> 'b result \<times> 's" where
  "bind_s r f = (case r of (Inl e, s) \<Rightarrow> (Inl e, s) | (Inr v, s) \<Rightarrow> f v s)"

lemma bind_s_simps [simp]:
  "bind_s (Inl e, s) f = (Inl e, s)" "bind_s (Inr v, s) f = f v s"
  by (simp_all add: bind_s_def)

lemma bind_s_Inr_iff:
  "bind_s r f = (Inr w, s') \<longleftrightarrow> (\<exists>v s. r = (Inr v, s) \<and> f v s = (Inr w, s'))"
  by (auto simp: bind_s_def split: prod.splits sum.splits)

lemma bind_r_simps [simp]:
  "bind_r (Inl e) f = Inl e" "bind_r (Inr v) f = f v"
  by (simp_all add: bind_r_def)

lemma map_r_simps [simp]:
  "map_r f (Inl e) = Inl e" "map_r f (Inr v) = Inr (f v)"
  by (simp_all add: map_r_def)

lemma bind_r_Inr_iff: "bind_r r f = Inr w \<longleftrightarrow> (\<exists>v. r = Inr v \<and> f v = Inr w)"
  by (cases r) auto

lemma traverse_r_Inr: "traverse_r (\<lambda>x. Inr (f x)) xs = Inr (map f xs)"
  by (induction xs) auto

lemma traverse_r_length: "traverse_r f xs = Inr ys \<Longrightarrow> length ys = length xs"
  by (induction xs arbitrary: ys) (auto simp: bind_r_Inr_iff)

lemma traverse_r_Inr_iff:
  "traverse_r f xs = Inr ys \<longleftrightarrow> list_all2 (\<lambda>x y. f x = Inr y) xs ys"
  by (induction xs arbitrary: ys) (auto simp: bind_r_Inr_iff list_all2_Cons1)

lemma seq_eff_simps [simp, effect_simps]:
  "seq_eff (s, None) f = f s" "seq_eff (s, Some e) f = (s, Some e)"
  "seq_eff (done_eff s) f = f s" "seq_eff (raise_eff e s) f = (s, Some e)"
  by (simp_all add: seq_eff_def done_eff_def raise_eff_def)

lemma set_eff_simps [simp, effect_simps]:
  "set_eff (Inl e) upd s = (s, Some e)" "set_eff (Inr v) upd s = (upd v s, None)"
  by (simp_all add: set_eff_def)

text \<open>
  Two properties of a method body that its parts hand on to the whole: it preserves an invariant of
  the object, on the exceptional paths too; it neither reads nor writes what \<open>h\<close> updates.
\<close>

definition keeps :: "('s \<Rightarrow> bool) \<Rightarrow> ('s \<Rightarrow> 's effect) \<Rightarrow> bool" where
  "keeps P f = (\<forall>s. P s \<longrightarrow> P (fst (f s)))"

definition framed :: "('s \<Rightarrow> 's) \<Rightarrow> ('s \<Rightarrow> 's effect) \<Rightarrow> bool" where
  "framed h f = (\<forall>s. f (h s) = (case f s of (s', x) \<Rightarrow> (h s', x)))"

lemma keeps_seq:
  assumes "keeps P f" "keeps P g" shows "keeps P (\<lambda>s. seq_eff (f s) g)"
  using assms unfolding keeps_def seq_eff_def
  by (fastforce split: prod.splits option.splits)

lemma keeps_set:
  assumes "\<And>v s. r = Inr v \<Longrightarrow> P s \<Longrightarrow> P (upd v s)" shows "keeps P (set_eff r upd)"
  using assms by (cases r) (auto simp: keeps_def)

lemma keeps_done:
  assumes "\<And>s. P s \<Longrightarrow> P (upd s)" shows "keeps P (\<lambda>s. done_eff (upd s))"
  using assms by (auto simp: keeps_def done_eff_def)

lemma keepsD: "keeps P f \<Longrightarrow> P s \<Longrightarrow> P (fst (f s))"
  by (simp add: keeps_def)

lemma framed_seq:
  assumes "framed h f" "framed h g" shows "framed h (\<lambda>s. seq_eff (f s) g)"
  using assms unfolding framed_def seq_eff_def by (auto split: prod.splits option.splits)

lemma framed_set:
  assumes "\<And>v s. upd v (h s) = h (upd v s)" shows "framed h (set_eff r upd)"
  using assms by (cases r) (auto simp: framed_def)

lemma framed_done:
  assumes "\<And>s. upd (h s) = h (upd s)" shows "framed h (\<lambda>s. done_eff (upd s))"
  using assms by (auto simp: framed_def done_eff_def)

lemma framedD: "framed h f \<Longrightarrow> f (h s) = (case f s of (s', x) \<Rightarrow> (h s', x))"
  by (simp add: framed_def)

lemma seq_eff_None_iff:
  "seq_eff r f = (s', None) \<longleftrightarrow> (\<exists>s. r = (s, None) \<and> f s = (s', None))"
  by (cases r) (auto simp: seq_eff_def split: option.splits)

lemma set_eff_None_iff:
  "set_eff r upd s = (s', None) \<longleftrightarrow> (\<exists>v. r = Inr v \<and> s' = upd v s)"
  by (cases r) auto

section \<open>Python strings\<close>

definition code_point :: "char \<Rightarrow> nat" where
  "code_point c = of_char c"

definition is_space :: "char \<Rightarrow> bool" where
  "is_space c = (let n = code_point c in
     9 \<le> n \<and> n \<le> 13 \<or> 28 \<le> n \<and> n \<le> 32 \<or> n = 133 \<or> n = 160)"

definition is_alnum :: "char \<Rightarrow> bool" where
  "is_alnum c = (let n = code_point c in
     48 \<le> n \<and> n \<le> 57 \<or> 65 \<le> n \<and> n \<le> 90 \<or> 97 \<le> n \<and> n \<le> 122
     \<or> n = 170 \<or> n = 178 \<or> n = 179 \<or> n = 181 \<or> n = 185 \<or> n = 186
     \<or> 188 \<le> n \<and> n \<le> 190 \<or> 192 \<le> n \<and> n \<le> 255 \<and> n \<noteq> 215 \<and> n \<noteq> 247)"

definition lower_char :: "char \<Rightarrow> char" where
  "lower_char c = (let n = code_point c in
     if 65 \<le> n \<and> n \<le> 90 \<or> 192 \<le> n \<and> n \<le> 222 \<and> n \<noteq> 215 then char_of (n + 32) else c)"

text \<open>\<open>s.isspace()\<close> and \<open>s.isalnum()\<close> are false on the empty string.\<close>

definition py_isspace :: "string \<Rightarrow> bool" where
  "py_isspace s = (s \<noteq> [] \<and> list_all is_space s)"

definition py_isalnum :: "string \<Rightarrow> bool" where
  "py_isalnum s = (s \<noteq> [] \<and> list_all is_alnum s)"

definition py_lower :: "string \<Rightarrow> string" where
  "py_lower s = map lower_char s"

definition py_strip :: "string \<Rightarrow> string" where
  "py_strip s = rev (dropWhile is_space (rev (dropWhile is_space s)))"

text \<open>\<open>s.replace(c, '')\<close> for a one-character \<open>c\<close>.\<close>

definition py_remove :: "char \<Rightarrow> string \<Rightarrow> string" where
  "py_remove c s = filter (\<lambda>x. x \<noteq> c) s"

text \<open>\<open>sep.join(parts)\<close>.\<close>

fun py_join :: "string \<Rightarrow> string list \<Rightarrow> string" where
  "py_join sep [] = []"
| "py_join sep [s] = s"
| "py_join sep (s # t # ts) = s @ sep @ py_join sep (t # ts)"

text \<open>\<open>sub in s\<close>.\<close>

fun py_in :: "string \<Rightarrow> string \<Rightarrow> bool" where
  "py_in sub [] = (sub = [])"
| "py_in sub (c # cs) = (prefix sub (c # cs) \<or> py_in sub cs)"

text \<open>The decimal text of an integer, as an f-string prints it.\<close>

fun str_of_nat :: "nat \<Rightarrow> string" where
  "str_of_nat n = (if n < 10 then [char_of (48 + n)]
     else str_of_nat (n div 10) @ [char_of (48 + n mod 10)])"

declare str_of_nat.simps [simp del]

definition str_of_int :: "int \<Rightarrow> string" where
  "str_of_int i = (if i < 0 then CHR ''-'' # str_of_nat (nat (- i)) else str_of_nat (nat i))"

text \<open>Truth value of an \<open>Optional[str]\<close>: \<open>None\<close> and the empty string are false.\<close>

fun truthy :: "string option \<Rightarrow> bool" where
  "truthy None = False"
| "truthy (Some s) = (s \<noteq> [])"

lemma code_point_less [simp, py_string_simps]: "code_point c < 256"
  by (simp add: code_point_def)

lemma py_in_prefix: "prefix sub s \<Longrightarrow> py_in sub s"
  by (cases s) auto

lemma py_in_iff: "py_in sub s \<longleftrightarrow> (\<exists>us vs. s = us @ sub @ vs)"
proof (induction s)
  case Nil
  then show ?case by auto
next
  case (Cons c cs)
  show ?case
  proof
    assume "py_in sub (c # cs)"
    then consider "prefix sub (c # cs)" | "py_in sub cs" by auto
    then show "\<exists>us vs. c # cs = us @ sub @ vs"
    proof cases
      case 1
      then show ?thesis by (metis append_Nil prefixE)
    next
      case 2
      with Cons show ?thesis by (metis append_Cons)
    qed
  next
    assume "\<exists>us vs. c # cs = us @ sub @ vs"
    then obtain us vs where eq: "c # cs = us @ sub @ vs" by blast
    show "py_in sub (c # cs)"
    proof (cases us)
      case Nil
      with eq show ?thesis by (simp add: py_in_prefix del: py_in.simps)
    next
      case (Cons u us')
      with eq have "cs = us' @ sub @ vs" by simp
      with Cons.IH show ?thesis by auto
    qed
  qed
qed

lemma dropWhile_id_hd: "(xs \<noteq> [] \<Longrightarrow> \<not> P (hd xs)) \<Longrightarrow> dropWhile P xs = xs"
  by (cases xs) auto

lemma length_py_strip [py_string_simps]: "length (py_strip s) \<le> length s"
  unfolding py_strip_def by (metis length_dropWhile_le length_rev order_trans)

lemma py_strip_Nil_iff [py_string_simps]: "py_strip s = [] \<longleftrightarrow> list_all is_space s"
proof
  assume "py_strip s = []"
  then have *: "\<forall>x \<in> set (dropWhile is_space s). is_space x"
    by (simp add: py_strip_def)
  have "dropWhile is_space s = []"
  proof (rule ccontr)
    assume ne: "dropWhile is_space s \<noteq> []"
    then have "\<not> is_space (hd (dropWhile is_space s))" by (rule hd_dropWhile)
    with * ne show False by simp
  qed
  then show "list_all is_space s" by (simp add: list_all_iff)
next
  assume "list_all is_space s"
  then have "dropWhile is_space s = []" by (simp add: list_all_iff)
  then show "py_strip s = []" by (simp only: py_strip_def rev.simps dropWhile.simps)
qed

text \<open>What is left by \<open>strip\<close> is empty or begins with a character that is no whitespace.\<close>

lemma strip_not_space [py_string_simps]: "\<not> py_isspace (py_strip s)"
proof
  assume "py_isspace (py_strip s)"
  then have ne: "py_strip s \<noteq> []" and all: "\<forall>c \<in> set (py_strip s). is_space c"
    by (auto simp: py_isspace_def list_all_iff)
  let ?r = "rev (dropWhile is_space s)"
  have "dropWhile is_space ?r \<noteq> []" using ne by (simp only: py_strip_def rev_is_Nil_conv not_False_eq_True)
  then have "\<not> is_space (hd (dropWhile is_space ?r))" by (rule hd_dropWhile)
  moreover have "hd (dropWhile is_space ?r) \<in> set (py_strip s)"
    using \<open>dropWhile is_space ?r \<noteq> []\<close> unfolding py_strip_def set_rev by (rule hd_in_set)
  ultimately show False using all by blast
qed

lemma py_lower_length [simp]: "length (py_lower s) = length s"
  by (simp add: py_lower_def)

lemma py_lower_Nil_iff [simp]: "py_lower s = [] \<longleftrightarrow> s = []"
  by (simp add: py_lower_def)

section \<open>Dictionaries\<close>

text \<open>
  A \<open>dict\<close> keeps the order of insertion: storing under a key that is present replaces the value in
  place, a new key goes to the end. That is \<^const>\<open>AList.update\<close> of the library; lookup is
  \<^const>\<open>map_of\<close>.
\<close>

type_synonym ('k, 'v) dict = "('k \<times> 'v) list"

abbreviation dict_set :: "'k \<Rightarrow> 'v \<Rightarrow> ('k, 'v) dict \<Rightarrow> ('k, 'v) dict" where
  "dict_set \<equiv> AList.update"

abbreviation dict_get :: "('k, 'v) dict \<Rightarrow> 'k \<Rightarrow> 'v option" where
  "dict_get \<equiv> map_of"

abbreviation dict_pop :: "'k \<Rightarrow> ('k, 'v) dict \<Rightarrow> ('k, 'v) dict" where
  "dict_pop \<equiv> AList.delete"

text \<open>\<open>d.update(e)\<close>, item by item.\<close>

fun dict_update :: "('k, 'v) dict \<Rightarrow> ('k, 'v) dict \<Rightarrow> ('k, 'v) dict" where
  "dict_update d [] = d"
| "dict_update d ((k, v) # e) = dict_update (dict_set k v d) e"

lemma dict_get_set: "dict_get (dict_set k v d) k' = (if k' = k then Some v else dict_get d k')"
  by (simp add: update_conv')

lemma dict_get_set_same [simp]: "dict_get (dict_set k v d) k = Some v"
  by (simp add: update_conv')

lemma dict_get_set_other [simp]: "k' \<noteq> k \<Longrightarrow> dict_get (dict_set k v d) k' = dict_get d k'"
  by (simp add: update_conv')

lemma dict_get_update_None:
  "dict_get e k = None \<Longrightarrow> dict_get (dict_update d e) k = dict_get d k"
  by (induction d e rule: dict_update.induct) (auto split: if_splits)

lemma dict_get_update:
  "distinct (map fst e) \<Longrightarrow> dict_get (dict_update d e) k
     = (case dict_get e k of None \<Rightarrow> dict_get d k | Some v \<Rightarrow> Some v)"
proof (induction d e rule: dict_update.induct)
  case (1 d)
  then show ?case by simp
next
  case (2 d k' v e)
  then have "k' \<notin> fst ` set e" by simp
  then have "dict_get e k' = None" by (simp add: map_of_eq_None_iff)
  with 2 show ?case by (auto simp: dict_get_set split: option.splits)
qed

section \<open>String enumerations\<close>

text \<open>
  A class \<open>C(str, Enum)\<close> is a finite set of members with pairwise different string values; \<open>C(v)\<close>
  returns the member with value \<open>v\<close> or raises \<open>ValueError\<close>.
\<close>

definition enum_lookup :: "string \<Rightarrow> ('a \<Rightarrow> string) \<Rightarrow> 'a list \<Rightarrow> string \<Rightarrow> 'a result" where
  "enum_lookup cls val members v = (case find (\<lambda>m. val m = v) members of
     None \<Rightarrow> Inl (EnumValueError cls v) | Some m \<Rightarrow> Inr m)"

locale string_enum =
  fixes cls :: string and val :: "'a \<Rightarrow> string" and members :: "'a list"
  assumes members_UNIV: "set members = UNIV"
    and values_distinct: "distinct (map val members)"
begin

lemma val_inj: "val m = val m' \<longleftrightarrow> m = m'"
  using members_UNIV values_distinct by (metis UNIV_I distinct_map inj_onD)

lemma lookup_val [simp]: "enum_lookup cls val members (val m) = Inr m"
proof -
  have "find (\<lambda>m'. val m' = val m) members = Some m"
  proof -
    have "find (\<lambda>m'. val m' = val m) members \<noteq> None"
      using members_UNIV by (auto simp: find_None_iff)
    then show ?thesis by (auto simp: find_Some_iff val_inj)
  qed
  then show ?thesis by (simp add: enum_lookup_def)
qed

lemma lookup_Inr_iff: "enum_lookup cls val members v = Inr m \<longleftrightarrow> val m = v"
proof
  assume "enum_lookup cls val members v = Inr m"
  then show "val m = v" by (auto simp: enum_lookup_def find_Some_iff split: option.splits)
next
  assume "val m = v"
  then show "enum_lookup cls val members v = Inr m" using lookup_val by blast
qed

lemma lookup_cases:
  obtains (member) m where "v = val m" "enum_lookup cls val members v = Inr m"
  | (other) "v \<notin> set (map val members)" "enum_lookup cls val members v = Inl (EnumValueError cls v)"
proof (cases "v \<in> set (map val members)")
  case True
  then obtain m where "v = val m" by auto
  with member show ?thesis by simp
next
  case False
  then have "find (\<lambda>m. val m = v) members = None" by (auto simp: find_None_iff)
  with False other show ?thesis by (simp add: enum_lookup_def)
qed

end

end
