(* ===== verification/Py_Time.thy ===== *)
theory Py_Time
  imports Prelude
begin

text \<open>
  The part of Python's \<open>datetime\<close> that the code uses: a date and time with its optional UTC offset,
  \<open>isoformat\<close>, \<open>fromisoformat\<close> (the inverse of \<open>isoformat\<close>, in the formats of Python 3.10, the
  version the project requires at least), and the comparison of two aware values.  Offsets are in
  microseconds, as in \<open>timedelta\<close>; \<open>None\<close> is a naive value.  The last lemmas show that reading back
  a printed value returns it, which is what the round trips of the stored events rest on.
\<close>

record datetime =
  dt_year :: nat
  dt_month :: nat
  dt_day :: nat
  dt_hour :: nat
  dt_minute :: nat
  dt_second :: nat
  dt_micro :: nat
  dt_offset :: "int option"

definition is_leap :: "nat \<Rightarrow> bool" where
  "is_leap y = (y mod 4 = 0 \<and> (y mod 100 \<noteq> 0 \<or> y mod 400 = 0))"

definition days_in_month :: "nat \<Rightarrow> nat \<Rightarrow> nat" where
  "days_in_month y m = (if m = 2 then (if is_leap y then 29 else 28)
     else if m \<in> {4, 6, 9, 11} then 30 else 31)"

definition day_micros :: int where
  "day_micros = 86400000000"

fun valid_offset :: "int option \<Rightarrow> bool" where
  "valid_offset None = True"
| "valid_offset (Some off) = (- day_micros < off \<and> off < day_micros)"

definition valid_datetime :: "datetime \<Rightarrow> bool" where
  "valid_datetime d = (1 \<le> dt_year d \<and> dt_year d \<le> 9999 \<and> 1 \<le> dt_month d \<and> dt_month d \<le> 12
     \<and> 1 \<le> dt_day d \<and> dt_day d \<le> days_in_month (dt_year d) (dt_month d)
     \<and> dt_hour d < 24 \<and> dt_minute d < 60 \<and> dt_second d < 60 \<and> dt_micro d < 1000000
     \<and> valid_offset (dt_offset d))"

section \<open>Printing\<close>

fun digits :: "nat \<Rightarrow> nat \<Rightarrow> string" where
  "digits 0 n = []"
| "digits (Suc w) n = digits w (n div 10) @ [char_of (48 + n mod 10)]"

text \<open>\<open>HH:MM:SS[.ffffff]\<close>, and the shorter \<open>HH:MM[:SS[.ffffff]]\<close> of an offset.\<close>

definition frac_text :: "nat \<Rightarrow> string" where
  "frac_text us = (if us = 0 then [] else CHR ''.'' # digits 6 us)"

definition time_text :: "nat \<Rightarrow> nat \<Rightarrow> nat \<Rightarrow> nat \<Rightarrow> string" where
  "time_text h m s us =
     digits 2 h @ CHR '':'' # digits 2 m @ CHR '':'' # digits 2 s @ frac_text us"

definition offset_text :: "nat \<Rightarrow> string" where
  "offset_text off = (let h = off div 3600000000; m = off div 60000000 mod 60;
       s = off div 1000000 mod 60; us = off mod 1000000 in
     if s = 0 \<and> us = 0 then digits 2 h @ CHR '':'' # digits 2 m else time_text h m s us)"

fun tz_text :: "int option \<Rightarrow> string" where
  "tz_text None = []"
| "tz_text (Some off) = (if off < 0 then CHR ''-'' # offset_text (nat (- off))
     else CHR ''+'' # offset_text (nat off))"

definition isoformat :: "datetime \<Rightarrow> string" where
  "isoformat d = digits 4 (dt_year d) @ CHR ''-'' # digits 2 (dt_month d) @ CHR ''-''
     # digits 2 (dt_day d) @ CHR ''T''
     # time_text (dt_hour d) (dt_minute d) (dt_second d) (dt_micro d) @ tz_text (dt_offset d)"

section \<open>Reading\<close>

definition digit_val :: "char \<Rightarrow> nat option" where
  "digit_val c = (let n = code_point c in if 48 \<le> n \<and> n \<le> 57 then Some (n - 48) else None)"

fun read_nat :: "nat \<Rightarrow> string \<Rightarrow> nat option" where
  "read_nat acc [] = Some acc"
| "read_nat acc (c # cs) =
     (case digit_val c of None \<Rightarrow> None | Some d \<Rightarrow> read_nat (10 * acc + d) cs)"

text \<open>Read \<open>w\<close> digits and return the rest.\<close>

definition take_nat :: "nat \<Rightarrow> string \<Rightarrow> (nat \<times> string) option" where
  "take_nat w s = (if length s < w then None
     else map_option (\<lambda>n. (n, drop w s)) (read_nat 0 (take w s)))"

fun expect :: "char \<Rightarrow> string \<Rightarrow> string option" where
  "expect c [] = None"
| "expect c (x # xs) = (if x = c then Some xs else None)"

text \<open>\<open>HH[:MM[:SS[.fff[fff]]]]\<close>\<close>

definition read_frac :: "string \<Rightarrow> nat option" where
  "read_frac r = (case expect (CHR ''.'') r of None \<Rightarrow> None
     | Some r \<Rightarrow> if length r = 6 then read_nat 0 r
                 else if length r = 3 then map_option (\<lambda>n. n * 1000) (read_nat 0 r) else None)"

definition read_hms :: "string \<Rightarrow> (nat \<times> nat \<times> nat \<times> nat) option" where
  "read_hms t = (case take_nat 2 t of None \<Rightarrow> None | Some (h, r) \<Rightarrow>
     if r = [] then Some (h, 0, 0, 0) else
     (case Option.bind (expect (CHR '':'') r) (take_nat 2) of None \<Rightarrow> None | Some (m, r) \<Rightarrow>
     if r = [] then Some (h, m, 0, 0) else
     (case Option.bind (expect (CHR '':'') r) (take_nat 2) of None \<Rightarrow> None | Some (s, r) \<Rightarrow>
     if r = [] then Some (h, m, s, 0) else map_option (\<lambda>us. (h, m, s, us)) (read_frac r))))"

definition micros_of :: "nat \<times> nat \<times> nat \<times> nat \<Rightarrow> nat" where
  "micros_of c = (case c of (h, m, s, us) \<Rightarrow> ((h * 60 + m) * 60 + s) * 1000000 + us)"

text \<open>The sign of the offset is the first \<open>-\<close> of the time text, or else the first \<open>+\<close>.\<close>

definition split_tz :: "string \<Rightarrow> string \<times> (char \<times> string) option" where
  "split_tz t = (let c = (if CHR ''-'' \<in> set t then CHR ''-'' else CHR ''+'') in
     if c \<in> set t then (takeWhile (\<lambda>x. x \<noteq> c) t, Some (c, tl (dropWhile (\<lambda>x. x \<noteq> c) t)))
     else (t, None))"

fun read_tz :: "(char \<times> string) option \<Rightarrow> int option option" where
  "read_tz None = Some None"
| "read_tz (Some (c, z)) = (if length z \<notin> {5, 8, 15} then None else
     map_option (\<lambda>comps. let off = int (micros_of comps) in
       Some (if c = CHR ''-'' then - off else off)) (read_hms z))"

definition read_date :: "string \<Rightarrow> (nat \<times> nat \<times> nat) option" where
  "read_date t = Option.bind (take_nat 4 t) (\<lambda>(y, r).
     Option.bind (Option.bind (expect (CHR ''-'') r) (take_nat 2)) (\<lambda>(m, r).
     Option.bind (Option.bind (expect (CHR ''-'') r) (take_nat 2)) (\<lambda>(d, r).
       if r = [] then Some (y, m, d) else None)))"

definition read_time :: "string \<Rightarrow> ((nat \<times> nat \<times> nat \<times> nat) \<times> int option) option" where
  "read_time t = (if t = [] then Some ((0, 0, 0, 0), None) else
     (case split_tz t of (hms, tz) \<Rightarrow>
       Option.bind (read_hms hms) (\<lambda>c. map_option (\<lambda>z. (c, z)) (read_tz tz))))"

definition fromisoformat :: "string \<Rightarrow> datetime result" where
  "fromisoformat t =
     (case Option.bind (read_date (take 10 t)) (\<lambda>(y, mo, d).
         map_option (\<lambda>((h, m, s, us), z). \<lparr>dt_year = y, dt_month = mo, dt_day = d, dt_hour = h,
           dt_minute = m, dt_second = s, dt_micro = us, dt_offset = z\<rparr>) (read_time (drop 11 t))) of
       None \<Rightarrow> Inl (IsoFormatError t)
     | Some d \<Rightarrow> if valid_datetime d then Inr d else Inl (IsoFormatError t))"

section \<open>Comparison\<close>

text \<open>Days before the date in the proleptic Gregorian calendar, \<open>date.toordinal() - 1\<close>.\<close>

definition days_before :: "datetime \<Rightarrow> nat" where
  "days_before d = (let y = dt_year d - 1 in
     y * 365 + y div 4 - y div 100 + y div 400
     + sum_list (map (days_in_month (dt_year d)) [1..<dt_month d]) + dt_day d - 1)"

text \<open>The instant of an aware value, in microseconds UTC.\<close>

definition instant :: "datetime \<Rightarrow> int" where
  "instant d = int (days_before d) * day_micros
     + int (micros_of (dt_hour d, dt_minute d, dt_second d, dt_micro d))
     - (case dt_offset d of None \<Rightarrow> 0 | Some off \<Rightarrow> off)"

section \<open>Reading back what is printed\<close>

lemma length_digits [simp]: "length (digits w n) = w"
  by (induction w arbitrary: n) auto

lemma digit_val_digit [simp]: "digit_val (char_of (48 + n mod 10)) = Some (n mod 10)"
proof -
  have "n mod 10 < 10" by simp
  then have "(48 + n mod 10) mod 256 = 48 + n mod 10" by simp
  then show ?thesis by (simp add: digit_val_def code_point_def Let_def)
qed

lemma read_nat_append:
  "read_nat acc (s @ t) = Option.bind (read_nat acc s) (\<lambda>a. read_nat a t)"
  by (induction acc s rule: read_nat.induct) (auto split: option.splits)

lemma read_nat_digits: "n < 10 ^ w \<Longrightarrow> read_nat acc (digits w n) = Some (acc * 10 ^ w + n)"
proof (induction w arbitrary: n acc)
  case 0
  then show ?case by simp
next
  case (Suc w)
  then have "n div 10 < 10 ^ w" by auto
  from Suc.IH [OF this] show ?case by (simp add: read_nat_append algebra_simps)
qed

lemma take_nat_digits [simp]: "n < 10 ^ w \<Longrightarrow> take_nat w (digits w n @ r) = Some (n, r)"
  by (simp add: take_nat_def read_nat_digits)

lemma take_nat_digits_all [simp]: "n < 10 ^ w \<Longrightarrow> take_nat w (digits w n) = Some (n, [])"
  using take_nat_digits [of n w "[]"] by simp

lemma digits_chars: "c \<in> set (digits w n) \<Longrightarrow> digit_val c \<noteq> None"
  by (induction w arbitrary: n) auto

lemma no_sign_in_digits [simp]:
  "CHR ''-'' \<notin> set (digits w n)" "CHR ''+'' \<notin> set (digits w n)"
  using digits_chars [of "CHR ''-''" w n] digits_chars [of "CHR ''+''" w n]
  by (auto simp: digit_val_def code_point_def Let_def)

lemma read_frac_text: "0 < us \<Longrightarrow> us < 1000000 \<Longrightarrow> read_frac (frac_text us) = Some us"
  using read_nat_digits [of us 6 0] by (simp add: read_frac_def frac_text_def del: digits.simps)

lemma read_hms_time_text:
  assumes "h < 100" "m < 100" "s < 100" "us < 1000000"
  shows "read_hms (time_text h m s us) = Some (h, m, s, us)"
proof -
  have d: "\<And>n::nat. n < 100 \<Longrightarrow> n < 10 ^ 2" by simp
  show ?thesis
    using assms read_frac_text [of us]
    by (cases "us = 0") (auto simp add: read_hms_def time_text_def frac_text_def d)
qed

lemma read_hms_short:
  assumes "h < 100" "m < 100"
  shows "read_hms (digits 2 h @ CHR '':'' # digits 2 m) = Some (h, m, 0, 0)"
proof -
  have d: "\<And>n::nat. n < 100 \<Longrightarrow> n < 10 ^ 2" by simp
  show ?thesis using assms by (auto simp add: read_hms_def d)
qed

lemma no_sign_in_time_text [simp]:
  "CHR ''-'' \<notin> set (time_text h m s us)" "CHR ''+'' \<notin> set (time_text h m s us)"
  by (auto simp: time_text_def frac_text_def)

lemma no_sign_in_offset_text [simp]:
  "CHR ''-'' \<notin> set (offset_text off)" "CHR ''+'' \<notin> set (offset_text off)"
  by (auto simp: offset_text_def Let_def)

lemma length_time_text: "length (time_text h m s us) = (if us = 0 then 8 else 15)"
  by (simp add: time_text_def frac_text_def)

lemma length_offset_text: "length (offset_text off) \<in> {5, 8, 15}"
  by (simp add: offset_text_def Let_def length_time_text)

lemma micros_of_offset:
  "micros_of (off div 3600000000, off div 60000000 mod 60, off div 1000000 mod 60,
     off mod 1000000) = off"
proof -
  define q where "q = off div 1000000"
  have "off div 3600000000 = q div 60 div 60" "off div 60000000 = q div 60"
    by (simp_all add: q_def div_mult2_eq [symmetric])
  then have "micros_of (off div 3600000000, off div 60000000 mod 60, off div 1000000 mod 60,
     off mod 1000000)
    = ((q div 60 div 60 * 60 + q div 60 mod 60) * 60 + q mod 60) * 1000000 + off mod 1000000"
    by (simp only: micros_of_def prod.case q_def)
  also have "\<dots> = q * 1000000 + off mod 1000000"
    by (simp only: div_mult_mod_eq)
  also have "\<dots> = off" by (simp only: q_def div_mult_mod_eq)
  finally show ?thesis .
qed

lemma read_offset_text:
  assumes "off < 86400000000"
  shows "map_option micros_of (read_hms (offset_text off)) = Some off"
proof -
  let ?h = "off div 3600000000" and ?m = "off div 60000000 mod 60"
    and ?s = "off div 1000000 mod 60" and ?us = "off mod 1000000"
  have b: "?h < 100" "?m < 100" "?s < 100" "?us < 1000000"
    using assms by (auto intro: order_less_trans [of _ 60])
  show ?thesis
  proof (cases "?s = 0 \<and> ?us = 0")
    case True
    then show ?thesis using read_hms_short [OF b(1,2)] micros_of_offset [of off]
      by (simp add: offset_text_def Let_def)
  next
    case False
    then show ?thesis using read_hms_time_text [OF b] micros_of_offset [of off]
      by (auto simp add: offset_text_def Let_def)
  qed
qed

lemma takeWhile_neq_append:
  "c \<notin> set s \<Longrightarrow> takeWhile (\<lambda>x. x \<noteq> c) (s @ c # t) = s"
  "c \<notin> set s \<Longrightarrow> dropWhile (\<lambda>x. x \<noteq> c) (s @ c # t) = c # t"
  by (induction s) auto

lemma split_tz_text:
  assumes "CHR ''-'' \<notin> set s" "CHR ''+'' \<notin> set s"
  shows "split_tz (s @ tz_text z) = (s, (case z of None \<Rightarrow> None | Some off \<Rightarrow>
     Some (if off < 0 then (CHR ''-'', offset_text (nat (- off)))
       else (CHR ''+'', offset_text (nat off)))))"
  using assms by (auto simp: split_tz_def Let_def takeWhile_neq_append split: option.split)

lemma read_tz_text:
  assumes "valid_offset z"
  shows "read_tz (case z of None \<Rightarrow> None | Some off \<Rightarrow>
     Some (if off < 0 then (CHR ''-'', offset_text (nat (- off)))
       else (CHR ''+'', offset_text (nat off)))) = Some z"
proof (cases z)
  case None
  then show ?thesis by simp
next
  case (Some off)
  let ?n = "nat \<bar>off\<bar>"
  have "?n < 86400000000" using assms Some by (auto simp: day_micros_def nat_less_iff)
  then obtain c where c: "read_hms (offset_text ?n) = Some c" "micros_of c = ?n"
    using read_offset_text [of ?n] by auto
  then show ?thesis using Some length_offset_text [of ?n]
    by (cases "off < 0") (auto simp: Let_def)
qed

lemma read_time_text:
  assumes "h < 24" "m < 60" "s < 60" "us < 1000000" "valid_offset z"
  shows "read_time (time_text h m s us @ tz_text z) = Some ((h, m, s, us), z)"
proof -
  have "time_text h m s us \<noteq> []" by (simp add: time_text_def)
  then show ?thesis using assms
    by (simp add: read_time_def split_tz_text read_hms_time_text read_tz_text)
qed

lemma read_date_text:
  assumes "y < 10000" "m < 100" "d < 100"
  shows "read_date (digits 4 y @ CHR ''-'' # digits 2 m @ CHR ''-'' # digits 2 d) = Some (y, m, d)"
proof -
  have "m < 10 ^ 2" "d < 10 ^ 2" "y < 10 ^ 4" using assms by simp_all
  then show ?thesis by (simp add: read_date_def)
qed

lemma days_in_month_le: "days_in_month y m \<le> 31"
  by (simp add: days_in_month_def)

lemma fromisoformat_isoformat [simp]:
  assumes "valid_datetime d"
  shows "fromisoformat (isoformat d) = Inr d"
proof -
  let ?date = "digits 4 (dt_year d) @ CHR ''-'' # digits 2 (dt_month d) @ CHR ''-'' # digits 2 (dt_day d)"
  let ?time = "time_text (dt_hour d) (dt_minute d) (dt_second d) (dt_micro d) @ tz_text (dt_offset d)"
  have iso: "isoformat d = ?date @ CHR ''T'' # ?time" by (simp add: isoformat_def)
  have "length ?date = 10" by simp
  then have parts: "take 10 (isoformat d) = ?date" "drop 11 (isoformat d) = ?time"
    unfolding iso by simp_all
  have "dt_day d < 100" using assms days_in_month_le [of "dt_year d" "dt_month d"]
    by (simp add: valid_datetime_def)
  then have "read_date ?date = Some (dt_year d, dt_month d, dt_day d)"
    using assms by (intro read_date_text) (simp_all add: valid_datetime_def)
  moreover have "read_time ?time
      = Some ((dt_hour d, dt_minute d, dt_second d, dt_micro d), dt_offset d)"
    using assms by (intro read_time_text) (simp_all add: valid_datetime_def)
  ultimately show ?thesis using assms
    by (simp only: fromisoformat_def parts) (cases d, simp)
qed

end
