(* ===== verification/Json.thy ===== *)
theory Json
  imports Prelude
begin

text \<open>
  The dynamic Python values that the code passes around as \<open>Dict[str, Any]\<close>: what \<open>json.dumps\<close>
  accepts. A float occurs only as a number of seconds obtained from a \<open>timedelta\<close>, and is kept as
  its number of microseconds. An object is a dictionary in insertion order.
\<close>

datatype json =
    JNull
  | JBool bool
  | JInt int
  | JSeconds int
  | JStr string
  | JArr "json list"
  | JObj "(string \<times> json) list"

text \<open>The truth value of a Python object.\<close>

fun py_bool :: "json \<Rightarrow> bool" where
  "py_bool JNull = False"
| "py_bool (JBool b) = b"
| "py_bool (JInt i) = (i \<noteq> 0)"
| "py_bool (JSeconds i) = (i \<noteq> 0)"
| "py_bool (JStr s) = (s \<noteq> [])"
| "py_bool (JArr xs) = (xs \<noteq> [])"
| "py_bool (JObj d) = (d \<noteq> [])"

text \<open>\<open>d.get(key, default)\<close>\<close>

definition get_or :: "(string \<times> json) list \<Rightarrow> string \<Rightarrow> json \<Rightarrow> json" where
  "get_or d k x = (case dict_get d k of None \<Rightarrow> x | Some v \<Rightarrow> v)"

text \<open>An \<open>Optional[str]\<close> as a JSON value.\<close>

fun json_of_opt :: "string option \<Rightarrow> json" where
  "json_of_opt None = JNull"
| "json_of_opt (Some s) = JStr s"

text \<open>
  Reading a value where the code needs one of a given type. Python has no such check; a value of
  another type makes the first operation on it raise, and the model raises \<open>TypeError\<close> at once.
\<close>

fun as_str :: "json \<Rightarrow> string result" where
  "as_str (JStr s) = Inr s"
| "as_str _ = Inl (TypeError ''str expected'')"

fun as_opt_str :: "json \<Rightarrow> string option result" where
  "as_opt_str JNull = Inr None"
| "as_opt_str (JStr s) = Inr (Some s)"
| "as_opt_str _ = Inl (TypeError ''str expected'')"

fun as_int :: "json \<Rightarrow> int result" where
  "as_int (JInt i) = Inr i"
| "as_int _ = Inl (TypeError ''int expected'')"

fun as_obj :: "json \<Rightarrow> (string \<times> json) list result" where
  "as_obj (JObj d) = Inr d"
| "as_obj _ = Inl (TypeError ''dict expected'')"

fun as_str_list :: "json \<Rightarrow> string list result" where
  "as_str_list (JArr xs) = traverse_r as_str xs"
| "as_str_list _ = Inl (TypeError ''list expected'')"

lemma get_or_simps [simp]:
  "get_or [] k x = x"
  "get_or ((k', v) # d) k x = (if k' = k then v else get_or d k x)"
  by (simp_all add: get_or_def)

lemma as_opt_str_json_of_opt [simp]: "as_opt_str (json_of_opt s) = Inr s"
  by (cases s) auto

lemma traverse_as_str [simp]: "traverse_r as_str (map JStr xs) = Inr xs"
  by (induction xs) auto

end
