(* ===== verification/Value_Objects.thy ===== *)
theory Value_Objects
  imports Py_Time Json "HOL-Library.Char_ord" "HOL-Library.List_Lexorder"
begin

text \<open>
  The value objects of the task domain, \<open>services/task_service/domain/value_objects.py\<close>: the
  priority and status enumerations, the identifiers, and the validated texts. A constructor whose
  \<open>__post_init__\<close> raises is a function \<open>..._new\<close> into the result type; \<open>__str__\<close> is \<open>..._str\<close>.
\<close>

section \<open>TaskPriority\<close>

datatype task_priority = LOW | MEDIUM | HIGH | CRITICAL

fun priority_value :: "task_priority \<Rightarrow> string" where
  "priority_value LOW = ''low''"
| "priority_value MEDIUM = ''medium''"
| "priority_value HIGH = ''high''"
| "priority_value CRITICAL = ''critical''"

definition priority_members :: "task_priority list" where
  "priority_members = [LOW, MEDIUM, HIGH, CRITICAL]"

definition task_priority_of :: "string \<Rightarrow> task_priority result" where
  "task_priority_of = enum_lookup ''TaskPriority'' priority_value priority_members"

fun numeric_value :: "task_priority \<Rightarrow> int" where
  "numeric_value LOW = 0"
| "numeric_value MEDIUM = 1"
| "numeric_value HIGH = 2"
| "numeric_value CRITICAL = 3"

definition priority_lt :: "task_priority \<Rightarrow> task_priority \<Rightarrow> bool" where
  "priority_lt a b = (numeric_value a < numeric_value b)"

definition priority_gt :: "task_priority \<Rightarrow> task_priority \<Rightarrow> bool" where
  "priority_gt a b = (numeric_value a > numeric_value b)"

text \<open>
  The class defines \<open>__lt__\<close> and \<open>__gt__\<close> only, so \<open><=\<close> is the one inherited from \<open>str\<close>, which
  compares the values as texts.
\<close>

definition priority_le_inherited :: "task_priority \<Rightarrow> task_priority \<Rightarrow> bool" where
  "priority_le_inherited a b = (priority_value a \<le> priority_value b)"

instantiation task_priority :: linorder
begin

definition less_task_priority :: "task_priority \<Rightarrow> task_priority \<Rightarrow> bool" where
  "less_task_priority = priority_lt"

definition less_eq_task_priority :: "task_priority \<Rightarrow> task_priority \<Rightarrow> bool" where
  "less_eq_task_priority a b = (priority_lt a b \<or> a = b)"

instance
proof
  fix a b c :: task_priority
  show "(a < b) = (a \<le> b \<and> \<not> b \<le> a)"
    by (cases a; cases b)
      (simp_all add: less_task_priority_def less_eq_task_priority_def priority_lt_def)
  show "a \<le> a" by (simp add: less_eq_task_priority_def)
  show "a \<le> b \<Longrightarrow> b \<le> c \<Longrightarrow> a \<le> c"
    by (auto simp: less_eq_task_priority_def priority_lt_def)
  show "a \<le> b \<Longrightarrow> b \<le> a \<Longrightarrow> a = b"
    by (auto simp: less_eq_task_priority_def priority_lt_def)
  show "a \<le> b \<or> b \<le> a"
    by (cases a; cases b) (simp_all add: less_eq_task_priority_def priority_lt_def)
qed

end

interpretation priority: string_enum "''TaskPriority''" priority_value priority_members
proof unfold_locales
  show "set priority_members = UNIV"
    by (auto simp: priority_members_def intro: task_priority.exhaust)
  show "distinct (map priority_value priority_members)"
    by (simp add: priority_members_def)
qed

lemmas task_priority_of_value [simp] = priority.lookup_val [folded task_priority_of_def]

section \<open>TaskStatus\<close>

datatype task_status = BACKLOG | TODO | IN_PROGRESS | IN_REVIEW | DONE | ARCHIVED

fun status_value :: "task_status \<Rightarrow> string" where
  "status_value BACKLOG = ''backlog''"
| "status_value TODO = ''todo''"
| "status_value IN_PROGRESS = ''in_progress''"
| "status_value IN_REVIEW = ''in_review''"
| "status_value DONE = ''done''"
| "status_value ARCHIVED = ''archived''"

definition status_members :: "task_status list" where
  "status_members = [BACKLOG, TODO, IN_PROGRESS, IN_REVIEW, DONE, ARCHIVED]"

definition task_status_of :: "string \<Rightarrow> task_status result" where
  "task_status_of = enum_lookup ''TaskStatus'' status_value status_members"

fun valid_transitions :: "task_status \<Rightarrow> task_status list" where
  "valid_transitions BACKLOG = [TODO, ARCHIVED]"
| "valid_transitions TODO = [IN_PROGRESS, BACKLOG, ARCHIVED]"
| "valid_transitions IN_PROGRESS = [IN_REVIEW, TODO, DONE]"
| "valid_transitions IN_REVIEW = [DONE, IN_PROGRESS, TODO]"
| "valid_transitions DONE = [ARCHIVED, TODO]"
| "valid_transitions ARCHIVED = [BACKLOG]"

definition can_transition_to :: "task_status \<Rightarrow> task_status \<Rightarrow> bool" where
  "can_transition_to s target = (target \<in> set (valid_transitions s))"

interpretation status: string_enum "''TaskStatus''" status_value status_members
proof unfold_locales
  show "set status_members = UNIV"
    by (auto simp: status_members_def intro: task_status.exhaust)
  show "distinct (map status_value status_members)"
    by (simp add: status_members_def)
qed

lemmas task_status_of_value [simp] = status.lookup_val [folded task_status_of_def]

lemma no_self_transition [simp]: "\<not> can_transition_to s s"
  by (cases s) (simp_all add: can_transition_to_def)

section \<open>TaskId, UserId\<close>

datatype task_id = TaskId (task_id_str: string)

datatype user_id = UserId (user_id_str: string)

section \<open>Label\<close>

datatype label = Label (label_name: string)

definition label_new :: "string \<Rightarrow> label result" where
  "label_new name =
     (if name = [] \<or> length name > 50
      then Inl (ValueError ''Label name must be between 1 and 50 characters'')
      else if \<not> py_isalnum (py_remove (CHR ''_'') (py_remove (CHR ''-'') name))
      then Inl (ValueError ''Label can only contain alphanumeric characters, hyphens, and underscores'')
      else Inr (Label name))"

definition label_str :: "label \<Rightarrow> string" where
  "label_str l = py_lower (label_name l)"

definition valid_label :: "label \<Rightarrow> bool" where
  "valid_label l = (label_new (label_name l) = Inr l)"

section \<open>TaskDescription\<close>

datatype task_description = TaskDescription (description_str: string)

definition description_new :: "string \<Rightarrow> task_description result" where
  "description_new t =
     (if length t > 5000 then Inl (ValueError ''Description cannot exceed 5000 characters'')
      else Inr (TaskDescription t))"

definition excerpt :: "task_description \<Rightarrow> string" where
  "excerpt d = (let t = description_str d in
     if length t > 200 then take 200 t @ ''...'' else t)"

definition valid_description :: "task_description \<Rightarrow> bool" where
  "valid_description d = (length (description_str d) \<le> 5000)"

section \<open>TaskTitle\<close>

datatype task_title = TaskTitle (title_text: string)

definition title_new :: "string \<Rightarrow> task_title result" where
  "title_new t =
     (if t = [] \<or> length t < 3 then Inl (ValueError ''Title must be at least 3 characters'')
      else if length t > 200 then Inl (ValueError ''Title cannot exceed 200 characters'')
      else if py_isspace t then Inl (ValueError ''Title cannot be only whitespace'')
      else Inr (TaskTitle t))"

definition title_str :: "task_title \<Rightarrow> string" where
  "title_str t = py_strip (title_text t)"

definition valid_title :: "task_title \<Rightarrow> bool" where
  "valid_title t = (3 \<le> length (title_text t) \<and> length (title_text t) \<le> 200
     \<and> \<not> py_isspace (title_text t))"

section \<open>DueDate\<close>

datatype due_date = DueDate (due_value: "datetime option")

definition utc :: "int option" where
  "utc = Some 0"

definition due_date_new :: "datetime option \<Rightarrow> due_date" where
  "due_date_new d = DueDate (case d of None \<Rightarrow> None
     | Some d \<Rightarrow> if dt_offset d = None then Some (d\<lparr>dt_offset := utc\<rparr>) else Some d)"

text \<open>\<open>now\<close> is the value of \<open>datetime.now(timezone.utc)\<close>.\<close>

definition is_overdue :: "datetime \<Rightarrow> due_date \<Rightarrow> bool" where
  "is_overdue now d = (case due_value d of None \<Rightarrow> False | Some t \<Rightarrow> instant now > instant t)"

definition is_approaching :: "datetime \<Rightarrow> due_date \<Rightarrow> bool" where
  "is_approaching now d = (case due_value d of None \<Rightarrow> False
     | Some t \<Rightarrow> instant now < instant t \<and> instant t - instant now < 86400 * 1000000)"

definition due_date_str :: "due_date \<Rightarrow> string" where
  "due_date_str d = (case due_value d of None \<Rightarrow> ''No due date'' | Some t \<Rightarrow> isoformat t)"

definition aware_due :: "due_date \<Rightarrow> bool" where
  "aware_due d = (case due_value d of None \<Rightarrow> True | Some t \<Rightarrow> dt_offset t \<noteq> None)"

section \<open>TaskMetadata\<close>

record task_metadata =
  source :: string
  priority_changed_count :: int
  assignee_changed_count :: int
  tags :: "string list"
  custom_fields :: "(string \<times> json) list"

definition metadata_new :: task_metadata where
  "metadata_new = \<lparr>source = ''api'', priority_changed_count = 0, assignee_changed_count = 0,
     tags = [], custom_fields = []\<rparr>"

definition increment_priority_changes :: "task_metadata \<Rightarrow> task_metadata" where
  "increment_priority_changes m = \<lparr>source = source m,
     priority_changed_count = priority_changed_count m + 1,
     assignee_changed_count = assignee_changed_count m, tags = tags m,
     custom_fields = custom_fields m\<rparr>"

definition increment_assignee_changes :: "task_metadata \<Rightarrow> task_metadata" where
  "increment_assignee_changes m = \<lparr>source = source m,
     priority_changed_count = priority_changed_count m,
     assignee_changed_count = assignee_changed_count m + 1, tags = tags m,
     custom_fields = custom_fields m\<rparr>"

section \<open>Facts on the validated texts\<close>

lemma label_new_valid: "label_new n = Inr l \<Longrightarrow> l = Label n \<and> valid_label l"
  by (auto simp: label_new_def valid_label_def split: if_splits)

lemma title_new_valid: "title_new t = Inr x \<Longrightarrow> x = TaskTitle t \<and> valid_title x"
  by (auto simp: title_new_def valid_title_def split: if_splits)

lemma title_new_iff: "title_new t = Inr x \<longleftrightarrow> x = TaskTitle t \<and> valid_title (TaskTitle t)"
  by (auto simp: title_new_def valid_title_def)

lemma description_new_valid: "description_new t = Inr x \<Longrightarrow> x = TaskDescription t \<and> valid_description x"
  by (auto simp: description_new_def valid_description_def split: if_splits)

lemma due_date_new_aware [simp]: "aware_due (due_date_new d)"
  by (auto simp: due_date_new_def aware_due_def utc_def split: option.splits)

lemma code_point_char_of [simp]: "n < 256 \<Longrightarrow> code_point (char_of n) = n"
  by (simp add: code_point_def)

lemma code_point_inj: "code_point c = code_point d \<longleftrightarrow> c = d"
  by (simp add: code_point_def)

lemma code_point_lower_char: "code_point (lower_char c) = (let n = code_point c in
    if 65 \<le> n \<and> n \<le> 90 \<or> 192 \<le> n \<and> n \<le> 222 \<and> n \<noteq> 215 then n + 32 else n)"
  by (auto simp: lower_char_def Let_def)

lemma lower_char_idem [simp]: "lower_char (lower_char c) = lower_char c"
  using code_point_lower_char [of "lower_char c"] code_point_lower_char [of c]
  by (auto simp: code_point_inj [symmetric] Let_def split: if_splits)

lemma is_alnum_lower_char [simp]: "is_alnum (lower_char c) = is_alnum c"
  by (auto simp: is_alnum_def code_point_lower_char Let_def)

lemma lower_char_eq_punct [simp]:
  "lower_char c = CHR ''-'' \<longleftrightarrow> c = CHR ''-''" "lower_char c = CHR ''_'' \<longleftrightarrow> c = CHR ''_''"
proof -
  have p: "code_point (CHR ''-'') = 45" "code_point (CHR ''_'') = 95"
    by (simp_all add: code_point_def)
  show "lower_char c = CHR ''-'' \<longleftrightarrow> c = CHR ''-''"
    unfolding code_point_inj [symmetric] code_point_lower_char p by (simp add: Let_def)
  show "lower_char c = CHR ''_'' \<longleftrightarrow> c = CHR ''_''"
    unfolding code_point_inj [symmetric] code_point_lower_char p by (auto simp add: Let_def)
qed

lemma py_lower_idem [simp]: "py_lower (py_lower s) = py_lower s"
  by (simp add: py_lower_def)

lemma py_isalnum_lower: "py_isalnum (py_remove (CHR ''_'') (py_remove (CHR ''-'') (py_lower s)))
    = py_isalnum (py_remove (CHR ''_'') (py_remove (CHR ''-'') s))"
  by (simp add: py_isalnum_def py_remove_def py_lower_def filter_map o_def list_all_iff filter_empty_conv)

lemma label_new_lower: "label_new (py_lower n) = map_r (\<lambda>l. Label (label_str l)) (label_new n)"
  by (simp add: label_new_def py_isalnum_lower label_str_def)

lemma label_new_str: "valid_label l \<Longrightarrow> label_new (label_str l) = Inr (Label (label_str l))"
  using label_new_lower [of "label_name l"] by (simp add: label_str_def valid_label_def)

lemma labels_new_str:
  "list_all valid_label ls \<Longrightarrow>
   traverse_r label_new (map label_str ls) = Inr (map (\<lambda>l. Label (label_str l)) ls)"
  by (induction ls) (simp_all add: label_new_str)

end
