(* ===== verification/Events.thy ===== *)
theory Events
  imports Value_Objects
begin

text \<open>
  Domain events: the base class of \<open>libs/common/event_bus.py\<close> and the six events of
  \<open>services/task_service/domain/events.py\<close>. \<open>DomainEvent\<close> is a record that the record of the task
  events extends with the fields of the subclass; the subclass is the constructor of \<open>task_payload\<close>.
  \<open>event_id\<close> and \<open>occurred_at\<close> default to a fresh UUID and the current time; both are arguments of
  the model's constructors.
\<close>

section \<open>DomainEvent\<close>

record domain_event =
  event_id :: string
  ev_aggregate_id :: string
  event_type :: string
  ev_version :: int
  occurred_at :: datetime
  ev_metadata :: "(string \<times> string) list"
  user_id :: string

text \<open>
  The base class is \<open>@dataclass(frozen=True)\<close>. Whether the attributes of an instance can be assigned
  is a property of that decorator: with \<open>frozen=True\<close> every assignment raises
  \<open>FrozenInstanceError\<close>. The operations that assign to an event take the kind as an argument, and
  \<open>domain_event_kind\<close> is the kind the code declares.
\<close>

datatype dataclass_kind = Frozen | Mutable

definition domain_event_kind :: dataclass_kind where
  "domain_event_kind = Frozen"

definition set_attr :: "dataclass_kind \<Rightarrow> string \<Rightarrow> ('e \<Rightarrow> 'e) \<Rightarrow> 'e \<Rightarrow> 'e result" where
  "set_attr kind field upd e =
     (case kind of Frozen \<Rightarrow> Inl (FrozenInstanceError field) | Mutable \<Rightarrow> Inr (upd e))"

section \<open>The task events\<close>

datatype task_payload =
    TaskCreatedEvent (tc_title: string) (tc_description: string) (tc_priority: string)
      (tc_assignee_id: "string option") (tc_created_by: string) (tc_labels: "string list")
      (tc_due_date: "string option")
  | TaskUpdatedEvent (tu_field_changes: "(string \<times> json) list") (tu_updated_by: string)
  | TaskAssignedEvent (ta_previous: "string option") (ta_new: string) (ta_assigned_by: string)
  | TaskStatusChangedEvent (ts_previous: string) (ts_new: string) (ts_changed_by: string)
      (ts_reason: "string option")
  | TaskPriorityChangedEvent (tp_previous: string) (tp_new: string) (tp_changed_by: string)
  | TaskDeletedEvent (td_deleted_by: string) (td_reason: "string option")

record task_event = domain_event +
  payload :: task_payload

text \<open>The default of \<open>event_type\<close> in each subclass; no constructor call overrides it.\<close>

fun payload_type :: "task_payload \<Rightarrow> string" where
  "payload_type (TaskCreatedEvent _ _ _ _ _ _ _) = ''task.created''"
| "payload_type (TaskUpdatedEvent _ _) = ''task.updated''"
| "payload_type (TaskAssignedEvent _ _ _) = ''task.assigned''"
| "payload_type (TaskStatusChangedEvent _ _ _ _) = ''task.status_changed''"
| "payload_type (TaskPriorityChangedEvent _ _ _) = ''task.priority_changed''"
| "payload_type (TaskDeletedEvent _ _) = ''task.deleted''"

definition new_event :: "string \<Rightarrow> datetime \<Rightarrow> string \<Rightarrow> task_payload \<Rightarrow> task_event" where
  "new_event eid now agg p = \<lparr>event_id = eid, ev_aggregate_id = agg, event_type = payload_type p,
     ev_version = 0, occurred_at = now, ev_metadata = [], user_id = [], payload = p\<rparr>"

section \<open>Serialisation\<close>

fun serialize_data :: "task_payload \<Rightarrow> (string \<times> json) list" where
  "serialize_data (TaskCreatedEvent t d p a c ls due) =
     [(''title'', JStr t), (''description'', JStr d), (''priority'', JStr p),
      (''assignee_id'', json_of_opt a), (''created_by'', JStr c),
      (''labels'', JArr (map JStr ls)), (''due_date'', json_of_opt due)]"
| "serialize_data (TaskUpdatedEvent ch u) = [(''field_changes'', JObj ch), (''updated_by'', JStr u)]"
| "serialize_data (TaskAssignedEvent prev new who) =
     [(''previous_assignee_id'', json_of_opt prev), (''new_assignee_id'', JStr new),
      (''assigned_by'', JStr who)]"
| "serialize_data (TaskStatusChangedEvent prev new who r) =
     [(''previous_status'', JStr prev), (''new_status'', JStr new), (''changed_by'', JStr who),
      (''reason'', json_of_opt r)]"
| "serialize_data (TaskPriorityChangedEvent prev new who) =
     [(''previous_priority'', JStr prev), (''new_priority'', JStr new), (''changed_by'', JStr who)]"
| "serialize_data (TaskDeletedEvent who r) = [(''deleted_by'', JStr who), (''reason'', json_of_opt r)]"

definition event_to_dict :: "task_event \<Rightarrow> (string \<times> json) list" where
  "event_to_dict e =
     [(''event_id'', JStr (event_id e)), (''aggregate_id'', JStr (ev_aggregate_id e)),
      (''event_type'', JStr (event_type e)), (''version'', JInt (ev_version e)),
      (''occurred_at'', JStr (isoformat (occurred_at e))),
      (''metadata'', JObj (map (\<lambda>(k, v). (k, JStr v)) (ev_metadata e))),
      (''user_id'', JStr (user_id e)), (''data'', JObj (serialize_data (payload e)))]"

text \<open>The classes of the event registry, and the \<open>from_dict\<close> of each.\<close>

datatype event_class = CreatedClass | UpdatedClass | AssignedClass | StatusChangedClass
  | PriorityChangedClass | DeletedClass

definition str_field :: "(string \<times> json) list \<Rightarrow> string \<Rightarrow> string \<Rightarrow> string result" where
  "str_field d k x = as_str (get_or d k (JStr x))"

definition opt_field :: "(string \<times> json) list \<Rightarrow> string \<Rightarrow> string option result" where
  "opt_field d k = as_opt_str (get_or d k JNull)"

fun payload_from_dict :: "event_class \<Rightarrow> (string \<times> json) list \<Rightarrow> task_payload result" where
  "payload_from_dict CreatedClass d =
     bind_r (str_field d ''title'' []) (\<lambda>t.
     bind_r (str_field d ''description'' []) (\<lambda>de.
     bind_r (str_field d ''priority'' ''medium'') (\<lambda>p.
     bind_r (opt_field d ''assignee_id'') (\<lambda>a.
     bind_r (str_field d ''created_by'' []) (\<lambda>c.
     bind_r (as_str_list (get_or d ''labels'' (JArr []))) (\<lambda>ls.
     bind_r (opt_field d ''due_date'') (\<lambda>due.
       Inr (TaskCreatedEvent t de p a c ls due))))))))"
| "payload_from_dict UpdatedClass d =
     bind_r (as_obj (get_or d ''field_changes'' (JObj []))) (\<lambda>ch.
     bind_r (str_field d ''updated_by'' []) (\<lambda>u. Inr (TaskUpdatedEvent ch u)))"
| "payload_from_dict AssignedClass d =
     bind_r (opt_field d ''previous_assignee_id'') (\<lambda>prev.
     bind_r (str_field d ''new_assignee_id'' []) (\<lambda>new.
     bind_r (str_field d ''assigned_by'' []) (\<lambda>b. Inr (TaskAssignedEvent prev new b))))"
| "payload_from_dict StatusChangedClass d =
     bind_r (str_field d ''previous_status'' []) (\<lambda>prev.
     bind_r (str_field d ''new_status'' []) (\<lambda>new.
     bind_r (str_field d ''changed_by'' []) (\<lambda>b.
     bind_r (opt_field d ''reason'') (\<lambda>r. Inr (TaskStatusChangedEvent prev new b r)))))"
| "payload_from_dict PriorityChangedClass d =
     bind_r (str_field d ''previous_priority'' []) (\<lambda>prev.
     bind_r (str_field d ''new_priority'' []) (\<lambda>new.
     bind_r (str_field d ''changed_by'' []) (\<lambda>b. Inr (TaskPriorityChangedEvent prev new b))))"
| "payload_from_dict DeletedClass d =
     bind_r (str_field d ''deleted_by'' []) (\<lambda>b.
     bind_r (opt_field d ''reason'') (\<lambda>r. Inr (TaskDeletedEvent b r)))"

text \<open>
  Only \<open>TaskCreatedEvent.from_dict\<close> passes \<open>occurred_at\<close>; in the other classes it takes its default,
  the time of the call. No class passes \<open>metadata\<close> or \<open>user_id\<close>. \<open>now\<close> is \<open>datetime.utcnow()\<close>.
\<close>

definition occurred_from_dict :: "event_class \<Rightarrow> datetime \<Rightarrow> (string \<times> json) list \<Rightarrow> datetime result" where
  "occurred_from_dict cls now d = (if cls = CreatedClass
     then bind_r (str_field d ''occurred_at'' (isoformat now)) fromisoformat else Inr now)"

definition from_dict :: "event_class \<Rightarrow> datetime \<Rightarrow> (string \<times> json) list \<Rightarrow> task_event result" where
  "from_dict cls now d =
     bind_r (as_obj (get_or d ''data'' (JObj []))) (\<lambda>ed.
     bind_r (str_field d ''event_id'' []) (\<lambda>eid.
     bind_r (str_field d ''aggregate_id'' []) (\<lambda>agg.
     bind_r (as_int (get_or d ''version'' (JInt 0))) (\<lambda>v.
     bind_r (occurred_from_dict cls now d) (\<lambda>t.
     bind_r (payload_from_dict cls ed) (\<lambda>p.
       Inr ((new_event eid t agg p)\<lparr>ev_version := v\<rparr>)))))))"

text \<open>The class of an event, and \<open>EVENT_REGISTRY\<close> of the service's \<open>main.py\<close>.\<close>

fun class_of :: "task_payload \<Rightarrow> event_class" where
  "class_of (TaskCreatedEvent _ _ _ _ _ _ _) = CreatedClass"
| "class_of (TaskUpdatedEvent _ _) = UpdatedClass"
| "class_of (TaskAssignedEvent _ _ _) = AssignedClass"
| "class_of (TaskStatusChangedEvent _ _ _ _) = StatusChangedClass"
| "class_of (TaskPriorityChangedEvent _ _ _) = PriorityChangedClass"
| "class_of (TaskDeletedEvent _ _) = DeletedClass"

definition EVENT_REGISTRY :: "(string \<times> event_class) list" where
  "EVENT_REGISTRY =
     [(''task.created'', CreatedClass), (''task.updated'', UpdatedClass),
      (''task.assigned'', AssignedClass), (''task.status_changed'', StatusChangedClass),
      (''task.priority_changed'', PriorityChangedClass), (''task.deleted'', DeletedClass)]"

lemma registry_class [simp]: "dict_get EVENT_REGISTRY (payload_type p) = Some (class_of p)"
  by (cases p) (simp_all add: EVENT_REGISTRY_def)

text \<open>An event as its constructors build it: the type is the class's own.\<close>

definition typed_event :: "task_event \<Rightarrow> bool" where
  "typed_event e = (event_type e = payload_type (payload e))"

lemma new_event_fields [simp]:
  "event_id (new_event eid now agg p) = eid" "ev_aggregate_id (new_event eid now agg p) = agg"
  "ev_version (new_event eid now agg p) = 0" "occurred_at (new_event eid now agg p) = now"
  "payload (new_event eid now agg p) = p" "event_type (new_event eid now agg p) = payload_type p"
  "ev_metadata (new_event eid now agg p) = []" "user_id (new_event eid now agg p) = []"
  by (simp_all add: new_event_def)

lemma typed_new_event [simp]: "typed_event (new_event eid now agg p)"
  by (simp add: typed_event_def)

lemma payload_roundtrip [simp]: "payload_from_dict (class_of p) (serialize_data p) = Inr p"
  by (cases p) (simp_all add: str_field_def opt_field_def)

lemma occurred_roundtrip:
  "valid_datetime (occurred_at e) \<Longrightarrow> occurred_from_dict cls now (event_to_dict e)
     = Inr (if cls = CreatedClass then occurred_at e else now)"
  by (simp add: occurred_from_dict_def str_field_def event_to_dict_def)

section \<open>What a stored event loses\<close>

text \<open>An event as reading its stored form returns it.\<close>

definition stored :: "datetime \<Rightarrow> task_event \<Rightarrow> task_event" where
  "stored now e = e\<lparr>occurred_at := (if class_of (payload e) = CreatedClass then occurred_at e else now),
     ev_metadata := [], user_id := []\<rparr>"

definition storable :: "task_event \<Rightarrow> bool" where
  "storable e = (typed_event e \<and> valid_datetime (occurred_at e))"

lemma stored_fields [simp]:
  "payload (stored now e) = payload e" "ev_version (stored now e) = ev_version e"
  "ev_aggregate_id (stored now e) = ev_aggregate_id e" "event_id (stored now e) = event_id e"
  by (simp_all add: stored_def)

lemma roundtrip_stored:
  "storable e \<Longrightarrow> from_dict (class_of (payload e)) now (event_to_dict e) = Inr (stored now e)"
proof -
  assume st: "storable e"
  have "event_type e = payload_type (payload e)" using st by (simp add: storable_def typed_event_def)
  moreover have "str_field (event_to_dict e) ''event_id'' [] = Inr (event_id e)"
    "str_field (event_to_dict e) ''aggregate_id'' [] = Inr (ev_aggregate_id e)"
    "as_int (get_or (event_to_dict e) ''version'' (JInt 0)) = Inr (ev_version e)"
    "as_obj (get_or (event_to_dict e) ''data'' (JObj [])) = Inr (serialize_data (payload e))"
    by (simp_all add: event_to_dict_def str_field_def)
  ultimately show ?thesis using st
    by (cases e) (simp add: from_dict_def occurred_roundtrip new_event_def stored_def storable_def)
qed

text \<open>C29: Writing an event with \<open>to_dict\<close> and reading it with the \<open>from_dict\<close> of its class restores
  every field but three: the metadata and the user id always come back empty, and the time of the
  event is restored for \<open>TaskCreatedEvent\<close> only, the other five classes take the time of reading.\<close>

theorem event_roundtrip:
  assumes "typed_event e" and "valid_datetime (occurred_at e)"
  shows "from_dict (class_of (payload e)) now (event_to_dict e)
    = Inr (e\<lparr>occurred_at := (if class_of (payload e) = CreatedClass then occurred_at e else now),
        ev_metadata := [], user_id := []\<rparr>)"
  using roundtrip_stored [of e now] assms by (simp add: storable_def stored_def)

end
