(* ===== verification/Aggregate_Root.thy ===== *)
theory Aggregate_Root
  imports Events
begin

text \<open>
  The base class of event-sourced aggregates, \<open>AggregateRoot\<close> of \<open>libs/common/unit_of_work.py\<close>, for
  any subclass: the bookkeeping fields are a record that a subclass extends, and the abstract
  \<open>apply_event\<close> is an argument. The locale \<open>event_sourced\<close> is the contract between the base class
  and a subclass; under it a live object and the object replayed from its events are the same.
\<close>

record 'ev aggregate_root =
  aggregate_id :: string
  uncommitted_events :: "'ev list"
  version :: int

text \<open>
  \<open>raise_event\<close>: stamp the event with the aggregate's id and next version, append it to the
  uncommitted events, apply it, count it. The two stamps are attribute assignments on the event.
\<close>

definition raise_event :: "dataclass_kind
    \<Rightarrow> (('a domain_event_scheme, 'b) aggregate_root_scheme \<Rightarrow> 'a domain_event_scheme
        \<Rightarrow> ('a domain_event_scheme, 'b) aggregate_root_scheme effect)
    \<Rightarrow> ('a domain_event_scheme, 'b) aggregate_root_scheme \<Rightarrow> 'a domain_event_scheme
    \<Rightarrow> ('a domain_event_scheme, 'b) aggregate_root_scheme effect" where
  "raise_event kind apply_event agg e =
     (case bind_r (set_attr kind ''aggregate_id'' (\<lambda>e. e\<lparr>ev_aggregate_id := aggregate_id agg\<rparr>) e)
              (set_attr kind ''version'' (\<lambda>e. e\<lparr>ev_version := version agg + 1\<rparr>)) of
        Inl x \<Rightarrow> raise_eff x agg
      | Inr e \<Rightarrow>
          seq_eff (apply_event (agg\<lparr>uncommitted_events := uncommitted_events agg @ [e]\<rparr>) e)
            (\<lambda>a. done_eff (a\<lparr>version := version a + 1\<rparr>)))"

definition get_uncommitted_events :: "('ev, 'b) aggregate_root_scheme \<Rightarrow> 'ev list" where
  "get_uncommitted_events agg = uncommitted_events agg"

definition mark_events_committed :: "('ev, 'b) aggregate_root_scheme \<Rightarrow> ('ev, 'b) aggregate_root_scheme" where
  "mark_events_committed agg = agg\<lparr>uncommitted_events := []\<rparr>"

text \<open>
  The loop of \<open>from_events\<close>: apply each event and take over its version; the first exception
  ends it and the half-built object is dropped.
\<close>

fun replay :: "(('a domain_event_scheme, 'b) aggregate_root_scheme \<Rightarrow> 'a domain_event_scheme
        \<Rightarrow> ('a domain_event_scheme, 'b) aggregate_root_scheme effect)
    \<Rightarrow> ('a domain_event_scheme, 'b) aggregate_root_scheme \<Rightarrow> 'a domain_event_scheme list
    \<Rightarrow> ('a domain_event_scheme, 'b) aggregate_root_scheme result" where
  "replay apply_event agg [] = Inr agg"
| "replay apply_event agg (e # es) = (case apply_event agg e of
     (agg', None) \<Rightarrow> replay apply_event (agg'\<lparr>version := ev_version e\<rparr>) es
   | (agg', Some x) \<Rightarrow> Inl x)"

text \<open>The event as \<open>raise_event\<close> records it.\<close>

definition stamp :: "('ev, 'b) aggregate_root_scheme \<Rightarrow> 'a domain_event_scheme \<Rightarrow> 'a domain_event_scheme" where
  "stamp agg e = e\<lparr>ev_aggregate_id := aggregate_id agg, ev_version := version agg + 1\<rparr>"

lemma raise_event_Frozen [simp]:
  "raise_event Frozen app agg e = (agg, Some (FrozenInstanceError ''aggregate_id''))"
  by (simp add: raise_event_def set_attr_def raise_eff_def)

lemma raise_event_Mutable:
  "raise_event Mutable app agg e =
     seq_eff (app (agg\<lparr>uncommitted_events := uncommitted_events agg @ [stamp agg e]\<rparr>) (stamp agg e))
       (\<lambda>a. done_eff (a\<lparr>version := version a + 1\<rparr>))"
  by (simp add: raise_event_def set_attr_def stamp_def)

lemma replay_append:
  "replay app agg (es @ es') = bind_r (replay app agg es) (\<lambda>a. replay app a es')"
  by (induction app agg es rule: replay.induct) (auto split: prod.splits option.splits)

lemma replay_version:
  "replay app agg es = Inr a \<Longrightarrow> es \<noteq> [] \<Longrightarrow> version a = ev_version (last es)"
proof (induction es arbitrary: agg)
  case Nil
  then show ?case by simp
next
  case (Cons e es)
  then show ?case by (cases "es = []") (auto split: prod.splits option.splits)
qed

section \<open>The contract of a subclass\<close>

text \<open>
  \<open>apply_event\<close> neither reads nor writes the list of uncommitted events or the version: running it
  with other values there changes nothing but those fields.
\<close>

locale event_sourced =
  fixes app :: "('a domain_event_scheme, 'b) aggregate_root_scheme \<Rightarrow> 'a domain_event_scheme
        \<Rightarrow> ('a domain_event_scheme, 'b) aggregate_root_scheme effect"
  assumes app_uncommitted:
      "app (s\<lparr>uncommitted_events := u\<rparr>) e
       = (case app s e of (s', x) \<Rightarrow> (s'\<lparr>uncommitted_events := u\<rparr>, x))"
    and app_version:
      "app (s\<lparr>version := v\<rparr>) e = (case app s e of (s', x) \<Rightarrow> (s'\<lparr>version := v\<rparr>, x))"
    and app_id: "aggregate_id (fst (app s e)) = aggregate_id s"
begin

lemma app_keeps_uncommitted: "app s e = (s', x) \<Longrightarrow> uncommitted_events s' = uncommitted_events s"
  using app_uncommitted [of "uncommitted_events s" s e] by (cases s') auto

lemma app_keeps_version: "app s e = (s', x) \<Longrightarrow> version s' = version s"
  using app_version [of "version s" s e] by (cases s') auto

lemma raise_ok_iff:
  "raise_event Mutable app s e = (s', None) \<longleftrightarrow>
     (\<exists>a. app s (stamp s e) = (a, None)
        \<and> s' = a\<lparr>uncommitted_events := uncommitted_events s @ [stamp s e], version := version s + 1\<rparr>)"
proof -
  obtain a x where a: "app s (stamp s e) = (a, x)" by fastforce
  moreover have "version a = version s" using a by (rule app_keeps_version)
  ultimately show ?thesis
    by (cases x) (auto simp: raise_event_Mutable app_uncommitted done_eff_def)
qed

lemma raise_failed:
  assumes "app s (stamp s e) = (a, Some x)"
  shows "raise_event Mutable app s e
    = (a\<lparr>uncommitted_events := uncommitted_events s @ [stamp s e]\<rparr>, Some x)"
  using assms by (simp add: raise_event_Mutable app_uncommitted)

lemma raise_ok_fields:
  assumes "raise_event Mutable app s e = (s', None)"
  shows "uncommitted_events s' = uncommitted_events s @ [stamp s e]" "version s' = version s + 1"
    "aggregate_id s' = aggregate_id s"
  using assms app_id [of s "stamp s e"] by (auto simp: raise_ok_iff)

text \<open>The replayed object is the live object with its uncommitted events forgotten.\<close>

lemma raise_then_replay:
  assumes raised: "raise_event Mutable app s e = (s', None)"
  shows "replay app (mark_events_committed s) [stamp s e] = Inr (mark_events_committed s')"
proof -
  from raised obtain a where a: "app s (stamp s e) = (a, None)"
    and s': "s' = a\<lparr>uncommitted_events := uncommitted_events s @ [stamp s e], version := version s + 1\<rparr>"
    by (auto simp: raise_ok_iff)
  then show ?thesis
    by (simp add: mark_events_committed_def app_uncommitted stamp_def)
qed

lemma history_replay:
  assumes "replay app s0 hist = Inr (mark_events_committed s)"
    and "raise_event Mutable app s e = (s', None)"
  shows "replay app s0 (hist @ [stamp s e]) = Inr (mark_events_committed s')"
  using assms raise_then_replay [OF assms(2)] by (simp add: replay_append)

end

end
