(* ===== verification/Commands.thy ===== *)
theory Commands
  imports Value_Objects
begin

text \<open>
  The commands of the task service, \<open>services/task_service/domain/commands.py\<close>. \<open>validate\<close> collects
  the messages of every check that fails and raises one \<open>ValueError\<close> that joins them.
\<close>

definition raise_errors :: "string list \<Rightarrow> unit result" where
  "raise_errors errors = (if errors \<noteq> [] then Inl (ValueError (py_join ''; '' errors)) else Inr ())"

text \<open>\<open>if cond: errors.append(msg)\<close>\<close>

definition check :: "bool \<Rightarrow> string \<Rightarrow> string list" where
  "check cond msg = (if cond then [msg] else [])"

lemma check_Nil_iff [simp]: "check c m = [] \<longleftrightarrow> \<not> c"
  by (simp add: check_def)

lemma raise_errors_ok_iff [simp]: "raise_errors es = Inr u \<longleftrightarrow> es = []"
  by (cases u) (simp add: raise_errors_def)

lemma raise_errors_Inl: "raise_errors es = Inl e \<Longrightarrow> \<exists>m. e = ValueError m"
  by (auto simp: raise_errors_def split: if_splits)

record create_task_command =
  cc_command_id :: string
  cc_title :: string
  cc_description :: string
  cc_priority :: string
  cc_assignee_id :: "string option"
  cc_created_by :: string
  cc_labels :: "string list"
  cc_due_date :: "datetime option"

definition create_errors :: "create_task_command \<Rightarrow> string list" where
  "create_errors c =
     check (cc_title c = [] \<or> length (cc_title c) < 3) ''Title must be at least 3 characters''
   @ check (length (cc_title c) > 200) ''Title cannot exceed 200 characters''
   @ check (length (cc_description c) > 5000) ''Description cannot exceed 5000 characters''
   @ check (cc_created_by c = []) ''Created by user ID is required''
   @ check (cc_priority c \<notin> set (map priority_value priority_members))
       (''Invalid priority: '' @ cc_priority c)
   @ check (case cc_due_date c of None \<Rightarrow> False | Some d \<Rightarrow> dt_offset d = None)
       ''Due date must be timezone-aware''"

definition create_validate :: "create_task_command \<Rightarrow> unit result" where
  "create_validate c = raise_errors (create_errors c)"

record update_task_command =
  uc_command_id :: string
  uc_task_id :: string
  uc_title :: "string option"
  uc_description :: "string option"
  uc_status :: "string option"
  uc_priority :: "string option"
  uc_assignee_id :: "string option"
  uc_labels :: "string list option"
  uc_due_date :: "datetime option"
  uc_updated_by :: string
  uc_expected_version :: int

definition update_errors :: "update_task_command \<Rightarrow> string list" where
  "update_errors c =
     check (uc_task_id c = []) ''Task ID is required''
   @ check (uc_updated_by c = []) ''Updated by user ID is required''
   @ check (case uc_title c of None \<Rightarrow> False | Some t \<Rightarrow> length t < 3 \<or> length t > 200)
       ''Title must be between 3 and 200 characters''
   @ check (case uc_description c of None \<Rightarrow> False | Some t \<Rightarrow> length t > 5000)
       ''Description cannot exceed 5000 characters''
   @ check (truthy (uc_status c) \<and> the (uc_status c) \<notin> set (map status_value status_members))
       (''Invalid status: '' @ the (uc_status c))
   @ check (truthy (uc_priority c) \<and> the (uc_priority c) \<notin> set (map priority_value priority_members))
       (''Invalid priority: '' @ the (uc_priority c))"

definition update_validate :: "update_task_command \<Rightarrow> unit result" where
  "update_validate c = raise_errors (update_errors c)"

record assign_task_command =
  ac_command_id :: string
  ac_task_id :: string
  ac_new_assignee_id :: string
  ac_assigned_by :: string
  ac_expected_version :: int

definition assign_errors :: "assign_task_command \<Rightarrow> string list" where
  "assign_errors c =
     check (ac_task_id c = []) ''Task ID is required''
   @ check (ac_new_assignee_id c = []) ''New assignee ID is required''
   @ check (ac_assigned_by c = []) ''Assigned by user ID is required''"

definition assign_validate :: "assign_task_command \<Rightarrow> unit result" where
  "assign_validate c = raise_errors (assign_errors c)"

record delete_task_command =
  dc_command_id :: string
  dc_task_id :: string
  dc_deleted_by :: string
  dc_reason :: "string option"
  dc_expected_version :: int

definition delete_errors :: "delete_task_command \<Rightarrow> string list" where
  "delete_errors c =
     check (dc_task_id c = []) ''Task ID is required''
   @ check (dc_deleted_by c = []) ''Deleted by user ID is required''"

definition delete_validate :: "delete_task_command \<Rightarrow> unit result" where
  "delete_validate c = raise_errors (delete_errors c)"

lemmas validate_defs = create_validate_def update_validate_def assign_validate_def delete_validate_def

lemma validate_raises_ValueError:
  "create_validate c = Inl e \<Longrightarrow> \<exists>m. e = ValueError m"
  "update_validate u = Inl e \<Longrightarrow> \<exists>m. e = ValueError m"
  "assign_validate a = Inl e \<Longrightarrow> \<exists>m. e = ValueError m"
  "delete_validate d = Inl e \<Longrightarrow> \<exists>m. e = ValueError m"
  by (auto simp: validate_defs dest: raise_errors_Inl)

lemma create_validate_ok:
  assumes "create_validate c = Inr ()"
  shows "3 \<le> length (cc_title c)" "length (cc_title c) \<le> 200" "length (cc_description c) \<le> 5000"
    "cc_created_by c \<noteq> []" "cc_priority c \<in> set (map priority_value priority_members)"
    "cc_due_date c = Some d \<Longrightarrow> dt_offset d \<noteq> None"
  using assms by (auto simp: validate_defs create_errors_def not_less split: option.splits)

lemma update_validate_ok:
  assumes "update_validate c = Inr ()"
  shows "uc_task_id c \<noteq> []" "uc_updated_by c \<noteq> []"
    "uc_title c = Some t \<Longrightarrow> 3 \<le> length t \<and> length t \<le> 200"
    "uc_description c = Some d \<Longrightarrow> length d \<le> 5000"
    "uc_status c = Some s \<Longrightarrow> s \<noteq> [] \<Longrightarrow> s \<in> set (map status_value status_members)"
    "uc_priority c = Some p \<Longrightarrow> p \<noteq> [] \<Longrightarrow> p \<in> set (map priority_value priority_members)"
  using assms by (auto simp: validate_defs update_errors_def not_less split: option.splits)

end
