(* ===== verification/Task_Aggregate.thy ===== *)
theory Task_Aggregate
  imports Aggregate_Root Commands
begin

text \<open>
  \<open>TaskAggregate\<close>, \<open>services/task_service/domain/aggregates.py\<close>. The record extends the one of the
  base class; a method that mutates the aggregate is an effect. Methods that build an event take the
  fresh event id and the current time as arguments (\<open>eid\<close>, \<open>now\<close>), and the kind of the event class.
\<close>

section \<open>State\<close>

record task = "task_event aggregate_root" +
  title :: task_title
  description :: task_description
  priority :: task_priority
  status :: task_status
  assignee_id :: "user_id option"
  created_by :: "user_id option"
  labels :: "label list"
  due_date :: due_date
  metadata :: task_metadata
  created_at :: "datetime option"
  updated_at :: "datetime option"
  is_deleted :: bool

text \<open>\<open>TaskAggregate(aggregate_id=...)\<close>, the other arguments at their defaults.\<close>

definition new_task :: "string \<Rightarrow> task" where
  "new_task tid = \<lparr>aggregate_id = tid, uncommitted_events = [], version = 0,
     title = TaskTitle ''Untitled'', description = TaskDescription [], priority = MEDIUM,
     status = BACKLOG, assignee_id = None, created_by = None, labels = [],
     due_date = due_date_new None, metadata = metadata_new, created_at = None, updated_at = None,
     is_deleted = False\<rparr>"

section \<open>Applying events\<close>

definition apply_created :: "task \<Rightarrow> task_event \<Rightarrow> task effect" where
  "apply_created s e = (case payload e of
     TaskCreatedEvent t d p a c ls due \<Rightarrow>
       seq_eff (set_eff (title_new t) (\<lambda>v s. s\<lparr>title := v\<rparr>) s) (\<lambda>s.
       seq_eff (set_eff (description_new d) (\<lambda>v s. s\<lparr>description := v\<rparr>) s) (\<lambda>s.
       seq_eff (set_eff (task_priority_of p) (\<lambda>v s. s\<lparr>priority := v\<rparr>) s) (\<lambda>s.
       seq_eff (done_eff (s\<lparr>status := BACKLOG,
           assignee_id := (if truthy a then Some (UserId (the a)) else None),
           created_by := Some (UserId c)\<rparr>)) (\<lambda>s.
       seq_eff (set_eff (traverse_r label_new ls) (\<lambda>v s. s\<lparr>labels := v\<rparr>) s) (\<lambda>s.
       seq_eff (set_eff (if truthy due then map_r (\<lambda>x. due_date_new (Some x)) (fromisoformat (the due))
                         else Inr (due_date_new None)) (\<lambda>v s. s\<lparr>due_date := v\<rparr>) s) (\<lambda>s.
       done_eff (s\<lparr>created_at := Some (occurred_at e), updated_at := Some (occurred_at e),
           is_deleted := False\<rparr>)))))))
   | _ \<Rightarrow> done_eff s)"

text \<open>\<open>changes[key]["new"]\<close>\<close>

definition new_value :: "json \<Rightarrow> json result" where
  "new_value v = bind_r (as_obj v)
     (\<lambda>d. case dict_get d ''new'' of None \<Rightarrow> Inl (KeyError ''new'') | Some x \<Rightarrow> Inr x)"

text \<open>\<open>if key in changes: self.field = convert(changes[key]["new"])\<close>\<close>

definition apply_change :: "(string \<times> json) list \<Rightarrow> string \<Rightarrow> (json \<Rightarrow> 'a result)
    \<Rightarrow> ('a \<Rightarrow> task \<Rightarrow> task) \<Rightarrow> task \<Rightarrow> task effect" where
  "apply_change changes key conv upd s = (case dict_get changes key of
     None \<Rightarrow> done_eff s
   | Some v \<Rightarrow> set_eff (bind_r (new_value v) conv) upd s)"

definition apply_updated :: "task \<Rightarrow> task_event \<Rightarrow> task effect" where
  "apply_updated s e = (case payload e of
     TaskUpdatedEvent changes by_user \<Rightarrow>
       seq_eff (apply_change changes ''title'' (\<lambda>x. bind_r (as_str x) title_new)
         (\<lambda>v s. s\<lparr>title := v\<rparr>) s) (\<lambda>s.
       seq_eff (apply_change changes ''description'' (\<lambda>x. bind_r (as_str x) description_new)
         (\<lambda>v s. s\<lparr>description := v\<rparr>) s) (\<lambda>s.
       seq_eff (apply_change changes ''status'' (\<lambda>x. bind_r (as_str x) task_status_of)
         (\<lambda>v s. s\<lparr>status := v\<rparr>) s) (\<lambda>s.
       seq_eff (apply_change changes ''priority'' (\<lambda>x. bind_r (as_str x) task_priority_of)
         (\<lambda>v s. s\<lparr>priority := v, metadata := increment_priority_changes (metadata s)\<rparr>) s) (\<lambda>s.
       seq_eff (apply_change changes ''labels'' (\<lambda>x. bind_r (as_str_list x) (traverse_r label_new))
         (\<lambda>v s. s\<lparr>labels := v\<rparr>) s) (\<lambda>s.
       done_eff (s\<lparr>updated_at := Some (occurred_at e)\<rparr>))))))
   | _ \<Rightarrow> done_eff s)"

definition apply_assigned :: "task \<Rightarrow> task_event \<Rightarrow> task effect" where
  "apply_assigned s e = (case payload e of
     TaskAssignedEvent prev new by_user \<Rightarrow>
       done_eff (s\<lparr>assignee_id := Some (UserId new),
         metadata := increment_assignee_changes (metadata s), updated_at := Some (occurred_at e)\<rparr>)
   | _ \<Rightarrow> done_eff s)"

definition apply_status_changed :: "task \<Rightarrow> task_event \<Rightarrow> task effect" where
  "apply_status_changed s e = (case payload e of
     TaskStatusChangedEvent prev new by_user reason \<Rightarrow>
       seq_eff (set_eff (task_status_of new) (\<lambda>v s. s\<lparr>status := v\<rparr>) s) (\<lambda>s.
       done_eff (s\<lparr>updated_at := Some (occurred_at e)\<rparr>))
   | _ \<Rightarrow> done_eff s)"

definition apply_priority_changed :: "task \<Rightarrow> task_event \<Rightarrow> task effect" where
  "apply_priority_changed s e = (case payload e of
     TaskPriorityChangedEvent prev new by_user \<Rightarrow>
       seq_eff (set_eff (task_priority_of new) (\<lambda>v s. s\<lparr>priority := v\<rparr>) s) (\<lambda>s.
       done_eff (s\<lparr>metadata := increment_priority_changes (metadata s),
         updated_at := Some (occurred_at e)\<rparr>))
   | _ \<Rightarrow> done_eff s)"

definition apply_deleted :: "task \<Rightarrow> task_event \<Rightarrow> task effect" where
  "apply_deleted s e = done_eff (s\<lparr>is_deleted := True, updated_at := Some (occurred_at e)\<rparr>)"

definition apply_event :: "task \<Rightarrow> task_event \<Rightarrow> task effect" where
  "apply_event s e = (case class_of (payload e) of
     CreatedClass \<Rightarrow> apply_created s e
   | UpdatedClass \<Rightarrow> apply_updated s e
   | AssignedClass \<Rightarrow> apply_assigned s e
   | StatusChangedClass \<Rightarrow> apply_status_changed s e
   | PriorityChangedClass \<Rightarrow> apply_priority_changed s e
   | DeletedClass \<Rightarrow> apply_deleted s e)"

section \<open>Replay\<close>

definition from_events :: "task_event list \<Rightarrow> task result" where
  "from_events events = (case events of
     [] \<Rightarrow> Inl (ValueError ''Cannot reconstitute from empty event stream'')
   | first_event # _ \<Rightarrow>
       replay apply_event (new_task (ev_aggregate_id first_event)) (sort_key ev_version events))"

section \<open>Commands\<close>

definition validate_not_deleted :: "task \<Rightarrow> unit result" where
  "validate_not_deleted s = (if is_deleted s
     then Inl (ValueError (''Task '' @ aggregate_id s @ '' has been deleted'')) else Inr ())"

definition validate_status_transition :: "task_status \<Rightarrow> task_status \<Rightarrow> unit result" where
  "validate_status_transition f t = (if can_transition_to f t then Inr ()
     else Inl (ValueError (''Cannot transition from '' @ status_value f @ '' to '' @ status_value t)))"

text \<open>Run checks that may raise, then the body.\<close>

definition guarded :: "'a result \<Rightarrow> ('a \<Rightarrow> 's effect) \<Rightarrow> 's \<Rightarrow> 's effect" where
  "guarded r f s = (case r of Inl e \<Rightarrow> raise_eff e s | Inr v \<Rightarrow> f v)"

definition create :: "dataclass_kind \<Rightarrow> string \<Rightarrow> string \<Rightarrow> datetime \<Rightarrow> create_task_command \<Rightarrow> task result" where
  "create kind tid eid now c =
     bind_r (create_validate c) (\<lambda>_.
       (case raise_event kind apply_event (new_task tid)
           (new_event eid now tid (TaskCreatedEvent (cc_title c) (cc_description c) (cc_priority c)
              (cc_assignee_id c) (cc_created_by c) (cc_labels c)
              (map_option isoformat (cc_due_date c)))) of
          (t, None) \<Rightarrow> Inr t
        | (t, Some x) \<Rightarrow> Inl x))"

definition change_entry :: "json \<Rightarrow> json \<Rightarrow> json" where
  "change_entry old new = JObj [(''old'', old), (''new'', new)]"

definition title_change :: "task \<Rightarrow> update_task_command \<Rightarrow> (string \<times> json) list result" where
  "title_change s c = (case uc_title c of
     Some x \<Rightarrow> if x \<noteq> title_str (title s)
       then map_r (\<lambda>n. [(''title'', change_entry (JStr (title_str (title s))) (JStr (title_str n)))])
         (title_new x)
       else Inr []
   | None \<Rightarrow> Inr [])"

definition description_change :: "task \<Rightarrow> update_task_command \<Rightarrow> (string \<times> json) list result" where
  "description_change s c = (case uc_description c of
     Some x \<Rightarrow> if x \<noteq> description_str (description s)
       then map_r (\<lambda>n. [(''description'', change_entry (JStr (description_str (description s)))
           (JStr (description_str n)))]) (description_new x)
       else Inr []
   | None \<Rightarrow> Inr [])"

definition status_change :: "task \<Rightarrow> update_task_command \<Rightarrow> (string \<times> json) list result" where
  "status_change s c = (case uc_status c of
     Some x \<Rightarrow> bind_r (task_status_of x) (\<lambda>n.
       if n \<noteq> status s
       then bind_r (validate_status_transition (status s) n) (\<lambda>_.
         Inr [(''status'', change_entry (JStr (status_value (status s))) (JStr (status_value n)))])
       else Inr [])
   | None \<Rightarrow> Inr [])"

definition priority_change :: "task \<Rightarrow> update_task_command \<Rightarrow> (string \<times> json) list result" where
  "priority_change s c = (case uc_priority c of
     Some x \<Rightarrow> bind_r (task_priority_of x) (\<lambda>n.
       if n \<noteq> priority s
       then Inr [(''priority'', change_entry (JStr (priority_value (priority s))) (JStr (priority_value n)))]
       else Inr [])
   | None \<Rightarrow> Inr [])"

definition labels_change :: "task \<Rightarrow> update_task_command \<Rightarrow> (string \<times> json) list result" where
  "labels_change s c = (case uc_labels c of
     Some ls \<Rightarrow> map_r (\<lambda>ns. [(''labels'', change_entry (JArr (map (JStr \<circ> label_str) (labels s)))
           (JArr (map (JStr \<circ> label_str) ns)))]) (traverse_r label_new ls)
   | None \<Rightarrow> Inr [])"

definition field_changes :: "task \<Rightarrow> update_task_command \<Rightarrow> (string \<times> json) list result" where
  "field_changes s c =
     bind_r (title_change s c) (\<lambda>ti. bind_r (description_change s c) (\<lambda>de.
     bind_r (status_change s c) (\<lambda>st. bind_r (priority_change s c) (\<lambda>pr.
     bind_r (labels_change s c) (\<lambda>la. Inr (ti @ de @ st @ pr @ la))))))"

definition update :: "dataclass_kind \<Rightarrow> string \<Rightarrow> datetime \<Rightarrow> update_task_command \<Rightarrow> task \<Rightarrow> task effect" where
  "update kind eid now c s =
     guarded (bind_r (update_validate c) (\<lambda>_. bind_r (validate_not_deleted s) (\<lambda>_. field_changes s c)))
       (\<lambda>changes. if changes \<noteq> []
          then raise_event kind apply_event s
            (new_event eid now (aggregate_id s) (TaskUpdatedEvent changes (uc_updated_by c)))
          else done_eff s) s"

definition assign :: "dataclass_kind \<Rightarrow> string \<Rightarrow> datetime \<Rightarrow> assign_task_command \<Rightarrow> task \<Rightarrow> task effect" where
  "assign kind eid now c s =
     guarded (bind_r (assign_validate c) (\<lambda>_. validate_not_deleted s))
       (\<lambda>_. let new_assignee = UserId (ac_new_assignee_id c) in
          if assignee_id s \<noteq> None
             \<and> user_id_str (the (assignee_id s)) = user_id_str new_assignee then done_eff s
          else raise_event kind apply_event s
            (new_event eid now (aggregate_id s) (TaskAssignedEvent
               (map_option user_id_str (assignee_id s)) (user_id_str new_assignee)
               (ac_assigned_by c)))) s"

definition change_status :: "dataclass_kind \<Rightarrow> string \<Rightarrow> datetime \<Rightarrow> task_status \<Rightarrow> string
    \<Rightarrow> string option \<Rightarrow> task \<Rightarrow> task effect" where
  "change_status kind eid now new_status changed_by reason s =
     guarded (bind_r (validate_not_deleted s) (\<lambda>_. validate_status_transition (status s) new_status))
       (\<lambda>_. if new_status = status s then done_eff s
          else raise_event kind apply_event s
            (new_event eid now (aggregate_id s) (TaskStatusChangedEvent (status_value (status s))
               (status_value new_status) changed_by reason))) s"

definition change_priority :: "dataclass_kind \<Rightarrow> string \<Rightarrow> datetime \<Rightarrow> task_priority \<Rightarrow> string
    \<Rightarrow> task \<Rightarrow> task effect" where
  "change_priority kind eid now new_priority changed_by s =
     guarded (validate_not_deleted s)
       (\<lambda>_. if new_priority = priority s then done_eff s
          else raise_event kind apply_event s
            (new_event eid now (aggregate_id s) (TaskPriorityChangedEvent
               (priority_value (priority s)) (priority_value new_priority) changed_by))) s"

definition delete :: "dataclass_kind \<Rightarrow> string \<Rightarrow> datetime \<Rightarrow> delete_task_command \<Rightarrow> task \<Rightarrow> task effect" where
  "delete kind eid now c s =
     guarded (bind_r (delete_validate c) (\<lambda>_. validate_not_deleted s))
       (\<lambda>_. raise_event kind apply_event s
          (new_event eid now (aggregate_id s) (TaskDeletedEvent (dc_deleted_by c) (dc_reason c)))) s"

section \<open>Projection\<close>

definition json_of_time :: "datetime option \<Rightarrow> json" where
  "json_of_time d = json_of_opt (map_option isoformat d)"

definition to_dict :: "task \<Rightarrow> (string \<times> json) list" where
  "to_dict s =
     [(''id'', JStr (aggregate_id s)), (''title'', JStr (title_str (title s))),
      (''description'', JStr (description_str (description s))),
      (''priority'', JStr (priority_value (priority s))),
      (''status'', JStr (status_value (status s))),
      (''assignee_id'', json_of_opt (map_option user_id_str (assignee_id s))),
      (''created_by'', json_of_opt (map_option user_id_str (created_by s))),
      (''labels'', JArr (map (JStr \<circ> label_str) (labels s))),
      (''due_date'', (if due_value (due_date s) \<noteq> None then JStr (due_date_str (due_date s)) else JNull)),
      (''created_at'', json_of_time (created_at s)), (''updated_at'', json_of_time (updated_at s)),
      (''is_deleted'', JBool (is_deleted s)), (''version'', JInt (version s))]"

end
