(* ===== verification/Task_Lifecycle.thy ===== *)
theory Task_Lifecycle
  imports Task_Aggregate "HOL-Library.Multiset"
begin

text \<open>
  The correctness of the task aggregate: it keeps the contract of the base class, every event and
  command keeps its fields valid, a live task equals the task replayed from its events, the order in
  which the store returns the events does not matter, and which commands are accepted.
\<close>

section \<open>The base class contract\<close>

lemmas apply_defs = apply_created_def apply_updated_def apply_assigned_def apply_status_changed_def
  apply_priority_changed_def apply_deleted_def

lemma apply_change_keeps:
  assumes "\<And>x v s. conv x = Inr v \<Longrightarrow> P s \<Longrightarrow> P (upd v s)"
  shows "keeps P (apply_change ch k conv upd)"
  using assms by (auto simp: keeps_def apply_change_def done_eff_def set_eff_def bind_r_Inr_iff
      split: option.splits sum.splits)

lemma apply_change_framed:
  assumes "\<And>v s. upd v (h s) = h (upd v s)"
  shows "framed h (apply_change ch k conv upd)"
  using assms
  by (auto simp: framed_def apply_change_def done_eff_def set_eff_def split: option.splits sum.splits)

lemma apply_event_framed:
  assumes "h = (\<lambda>s. s\<lparr>uncommitted_events := u\<rparr>) \<or> h = (\<lambda>s. s\<lparr>version := v\<rparr>)"
  shows "framed h (\<lambda>s. apply_event s e)"
  using assms
  by (cases "payload e")
    (auto simp: apply_event_def apply_defs simp del: seq_eff_simps set_eff_simps
      intro!: framed_seq framed_set framed_done apply_change_framed)

lemma apply_event_id: "keeps (\<lambda>s. aggregate_id s = i) (\<lambda>s. apply_event s e)"
  by (cases "payload e")
    (auto simp: apply_event_def apply_defs simp del: seq_eff_simps set_eff_simps
      intro!: keeps_seq keeps_set keeps_done apply_change_keeps)

interpretation task: event_sourced apply_event
proof unfold_locales
  fix s :: task and u v e
  show "apply_event (s\<lparr>uncommitted_events := u\<rparr>) e
      = (case apply_event s e of (s', x) \<Rightarrow> (s'\<lparr>uncommitted_events := u\<rparr>, x))"
    by (rule framedD [OF apply_event_framed [where u = u]]) simp
  show "apply_event (s\<lparr>version := v\<rparr>) e
      = (case apply_event s e of (s', x) \<Rightarrow> (s'\<lparr>version := v\<rparr>, x))"
    by (rule framedD [OF apply_event_framed [where v = v]]) simp
  show "aggregate_id (fst (apply_event s e)) = aggregate_id s"
    using apply_event_id by (auto simp: keeps_def)
qed

section \<open>Valid fields\<close>

text \<open>
  What the constructors of the value objects promise about the fields of a task, and that the change
  counters do not go below zero.
\<close>

definition wf_task :: "task \<Rightarrow> bool" where
  "wf_task s = (valid_title (title s) \<and> valid_description (description s)
     \<and> list_all valid_label (labels s) \<and> aware_due (due_date s)
     \<and> 0 \<le> priority_changed_count (metadata s) \<and> 0 \<le> assignee_changed_count (metadata s))"

lemma wf_new_task [simp]: "wf_task (new_task i)"
  by (simp add: wf_task_def new_task_def valid_title_def valid_description_def metadata_new_def
      py_isspace_def is_space_def code_point_def)

lemma traverse_label_new: "traverse_r label_new ns = Inr ls \<Longrightarrow> ls = map Label ns \<and> list_all valid_label ls"
proof (induction ns arbitrary: ls)
  case Nil
  then show ?case by simp
next
  case (Cons n ns)
  then obtain l ls' where "label_new n = Inr l" "traverse_r label_new ns = Inr ls'" "ls = l # ls'"
    by (auto simp: bind_r_Inr_iff)
  with Cons.IH show ?case by (auto dest: label_new_valid)
qed

lemmas new_valid = title_new_valid description_new_valid traverse_label_new

lemma wf_apply_event: "keeps wf_task (\<lambda>s. apply_event s e)"
  by (cases "payload e")
    (auto simp: apply_event_def apply_defs wf_task_def bind_r_Inr_iff map_r_def
        increment_priority_changes_def increment_assignee_changes_def
      simp del: seq_eff_simps set_eff_simps dest!: new_valid split: if_splits
      intro!: keeps_seq keeps_set keeps_done apply_change_keeps)

section \<open>Running commands\<close>

text \<open>The methods of the aggregate as one step, and a sequence of calls that ends at an exception.\<close>

datatype task_command =
    Update update_task_command
  | Assign assign_task_command
  | ChangeStatus task_status string "string option"
  | ChangePriority task_priority string
  | Delete delete_task_command

fun execute_command :: "dataclass_kind \<Rightarrow> string \<Rightarrow> datetime \<Rightarrow> task_command \<Rightarrow> task \<Rightarrow> task effect" where
  "execute_command kind eid now (Update c) s = update kind eid now c s"
| "execute_command kind eid now (Assign c) s = assign kind eid now c s"
| "execute_command kind eid now (ChangeStatus st who reason) s = change_status kind eid now st who reason s"
| "execute_command kind eid now (ChangePriority p who) s = change_priority kind eid now p who s"
| "execute_command kind eid now (Delete c) s = delete kind eid now c s"

fun run_commands :: "dataclass_kind \<Rightarrow> (string \<times> datetime \<times> task_command) list \<Rightarrow> task \<Rightarrow> task effect" where
  "run_commands kind [] s = done_eff s"
| "run_commands kind ((eid, now, cmd) # cs) s =
     seq_eff (execute_command kind eid now cmd s) (run_commands kind cs)"

lemmas command_defs = update_def assign_def change_status_def change_priority_def delete_def

lemma guarded_cases:
  assumes "guarded r f s = (s', x)"
  obtains (raised) e where "r = Inl e" "s' = s" "x = Some e" | (ran) v where "r = Inr v" "f v = (s', x)"
  using assms by (cases r) (auto simp: guarded_def raise_eff_def)

text \<open>Every command leaves the object alone, with or without an exception, or raises one event.\<close>

lemma command_cases:
  assumes "execute_command kind eid now cmd s = (s', x)"
  obtains (same) "s' = s"
  | (event) p where "raise_event kind apply_event s (new_event eid now (aggregate_id s) p) = (s', x)"
  using assms
  by (cases cmd)
    (auto simp: command_defs done_eff_def Let_def elim!: guarded_cases split: if_splits)

lemma keeps_raise_event:
  assumes "\<And>e. keeps P (\<lambda>s. apply_event s e)"
    and "\<And>s u. P (s\<lparr>uncommitted_events := u\<rparr>) = P s" and "\<And>s v. P (s\<lparr>version := v\<rparr>) = P s"
  shows "P s \<Longrightarrow> P (fst (raise_event kind apply_event s e))"
proof (cases kind)
  case Mutable
  assume "P s"
  then have "P (fst (apply_event s (stamp s e)))" using assms(1) by (auto simp: keeps_def)
  then show ?thesis using Mutable assms(2,3)
    by (auto simp: raise_event_Mutable task.app_uncommitted seq_eff_def done_eff_def
        split: prod.splits option.splits)
qed simp

lemma keeps_command:
  assumes "\<And>e. keeps P (\<lambda>s. apply_event s e)"
    and "\<And>s u. P (s\<lparr>uncommitted_events := u\<rparr>) = P s" and "\<And>s v. P (s\<lparr>version := v\<rparr>) = P s"
    and "P s"
  shows "P (fst (execute_command kind eid now cmd s))"
proof -
  obtain s' x where r: "execute_command kind eid now cmd s = (s', x)" by fastforce
  then show ?thesis
    using keeps_raise_event [where P = P, OF assms] assms(4)
    by (cases rule: command_cases [OF r]) (auto, metis fst_conv)
qed

lemma keeps_replay:
  assumes "\<And>e. keeps P (\<lambda>s. apply_event s e)" and "\<And>s v. P (s\<lparr>version := v\<rparr>) = P s"
  shows "replay apply_event s es = Inr s' \<Longrightarrow> P s \<Longrightarrow> P s'"
proof (induction es arbitrary: s)
  case (Cons e es)
  from Cons.prems(1) obtain a where a: "apply_event s e = (a, None)"
    "replay apply_event (a\<lparr>version := ev_version e\<rparr>) es = Inr s'"
    by (auto split: prod.splits option.splits)
  have "P a" using assms(1) Cons.prems(2) a(1) by (metis fst_conv keeps_def)
  then show ?case using Cons.IH [OF a(2)] assms(2) by simp
qed simp

lemma run_commands_keeps:
  assumes "\<And>eid now cmd. keeps P (execute_command kind eid now cmd)"
  shows "keeps P (run_commands kind cs)"
proof (induction cs)
  case Nil
  then show ?case by (auto simp: keeps_def done_eff_def)
next
  case (Cons c cs)
  then show ?case
    using keeps_seq [OF assms] by (cases c) (auto simp: keeps_def)
qed

text \<open>C10: The fields of a task stay within what their value objects allow: take a task rebuilt from
  any list of events and run any commands on it, whatever the kind of the event class; the object is
  well formed when the last command returns or the first one raises.\<close>

theorem task_fields_stay_valid:
  assumes "from_events es = Inr s"
  shows "wf_task (fst (run_commands kind cs s))"
proof -
  have bk: "\<And>s u. wf_task (s\<lparr>uncommitted_events := u\<rparr>) = wf_task s"
    "\<And>s v. wf_task (s\<lparr>version := v\<rparr>) = wf_task s"
    by (simp_all add: wf_task_def)
  have "wf_task s"
    using assms keeps_replay [OF wf_apply_event bk(2)] by (auto simp: from_events_def split: list.splits)
  moreover have "keeps wf_task (execute_command kind eid now cmd)" for eid now cmd
    using keeps_command [OF wf_apply_event bk] by (simp add: keeps_def)
  ultimately show ?thesis by (rule keepsD [OF run_commands_keeps, rotated])
qed

section \<open>Live objects and their histories\<close>

text \<open>
  \<open>h\<close> is the complete history of \<open>s\<close>: replaying it gives \<open>s\<close> without its uncommitted events, and
  its versions are \<open>1, 2, ...\<close> up to the version of \<open>s\<close>.
\<close>

definition is_history :: "task_event list \<Rightarrow> task \<Rightarrow> bool" where
  "is_history h s = (h \<noteq> [] \<and> ev_aggregate_id (hd h) = aggregate_id s
     \<and> replay apply_event (new_task (aggregate_id s)) h = Inr (mark_events_committed s)
     \<and> map ev_version h = [1..version s])"

lemma sort_history: "is_history h s \<Longrightarrow> sort_key ev_version h = h"
proof -
  assume "is_history h s"
  then have "sorted (map ev_version h)" by (simp add: is_history_def)
  then show ?thesis by (rule sort_key_id_if_sorted)
qed

lemma from_events_history: "is_history h s \<Longrightarrow> from_events h = Inr (mark_events_committed s)"
proof -
  assume h: "is_history h s"
  note sorted_h = sort_history [OF h]
  from h obtain e r where "h = e # r" "ev_aggregate_id e = aggregate_id s"
    by (cases h) (auto simp: is_history_def)
  then show ?thesis using h sorted_h by (simp add: from_events_def is_history_def del: sort_key_simps)
qed

lemma upto_snoc: "0 \<le> (n::int) \<Longrightarrow> [1..n] @ [n + 1] = [1..n + 1]"
  using upto_rec2 [of 1 "n + 1"] by simp

lemma history_nonneg: "is_history h s \<Longrightarrow> 1 \<le> version s"
  by (cases "version s < 1") (auto simp: is_history_def)

lemma history_raise:
  assumes h: "is_history h s" and r: "raise_event kind apply_event s e = (s', None)"
  obtains ev where "uncommitted_events s' = uncommitted_events s @ [ev]" "is_history (h @ [ev]) s'"
proof -
  from r have m: "raise_event Mutable apply_event s e = (s', None)" by (cases kind) auto
  note f = task.raise_ok_fields [OF m]
  have "replay apply_event (new_task (aggregate_id s)) (h @ [stamp s e]) = Inr (mark_events_committed s')"
    using h by (intro task.history_replay [OF _ m]) (simp add: is_history_def)
  moreover have "map ev_version (h @ [stamp s e]) = [1..version s']"
    using h history_nonneg [OF h] f(2) by (simp add: is_history_def stamp_def upto_snoc)
  ultimately have "is_history (h @ [stamp s e]) s'" using h f(3) by (simp add: is_history_def)
  with f(1) show ?thesis by (rule that)
qed

lemma history_create:
  assumes "create kind tid eid now c = Inr s"
  shows "is_history (uncommitted_events s) s"
proof -
  from assms obtain e where "raise_event kind apply_event (new_task tid) e = (s, None)"
    by (auto simp: create_def bind_r_Inr_iff split: prod.splits option.splits)
  then have m: "raise_event Mutable apply_event (new_task tid) e = (s, None)" by (cases kind) auto
  have "mark_events_committed (new_task tid) = new_task tid"
    by (simp add: mark_events_committed_def new_task_def)
  then show ?thesis
    using task.raise_ok_fields [OF m] task.raise_then_replay [OF m]
    by (simp add: is_history_def stamp_def new_task_def)
qed

lemma history_run:
  assumes "is_history h s" "run_commands kind cs s = (s', None)"
  obtains evs where "uncommitted_events s' = uncommitted_events s @ evs" "is_history (h @ evs) s'"
  using assms
proof (induction kind cs s arbitrary: h thesis rule: run_commands.induct)
  case (1 kind s)
  then show ?case by (simp add: done_eff_def)
next
  case (2 kind eid now cmd cs s)
  from "2.prems"(3) obtain s1 where s1: "execute_command kind eid now cmd s = (s1, None)"
    and run: "run_commands kind cs s1 = (s', None)"
    by (auto simp: seq_eff_None_iff)
  from s1 show ?case
  proof (cases rule: command_cases)
    case same
    show ?thesis by (rule "2.IH" [OF "2.prems"(1,2)]) (use same run in auto)
  next
    case (event p)
    with "2.prems"(2) obtain ev where ev: "uncommitted_events s1 = uncommitted_events s @ [ev]"
      "is_history (h @ [ev]) s1" by (rule history_raise)
    show ?thesis by (rule "2.IH" [OF _ ev(2)]) (use ev(1) run "2.prems"(1) in auto)
  qed
qed

text \<open>C1: Event sourcing is lossless inside the process: after creating a task and running any
  commands that all return, rebuilding a task from the recorded events gives the live task (with no
  uncommitted events), and the recorded versions are 1, 2, 3 and so on up to the task's version.\<close>

theorem live_task_equals_replay:
  assumes "create kind tid eid now c = Inr s0" and "run_commands kind cs s0 = (s, None)"
  shows "from_events (uncommitted_events s) = Inr (mark_events_committed s)
    \<and> map ev_version (uncommitted_events s) = [1..version s]"
proof -
  obtain evs where "uncommitted_events s = uncommitted_events s0 @ evs"
    "is_history (uncommitted_events s0 @ evs) s"
    using history_create [OF assms(1)] assms(2) by (rule history_run)
  then have "is_history (uncommitted_events s) s" by simp
  then show ?thesis by (simp add: from_events_history) (simp add: is_history_def)
qed

section \<open>The order of the events does not matter\<close>

lemma filter_key_distinct:
  assumes "distinct (map f xs)" "x \<in> set xs"
  shows "filter (\<lambda>y. f x = f y) xs = [x]"
  using assms by (induction xs) (auto simp: filter_empty_conv, metis imageI)

lemma sort_key_mset_eq:
  assumes "mset xs = mset ys" "distinct (map f xs)"
  shows "sort_key f xs = sort_key f ys"
proof (rule properties_for_sort_key)
  have d: "distinct (map f ys)"
    using assms by (metis mset_eq_imp_distinct_iff mset_map)
  show "mset (sort_key f ys) = mset xs" using assms(1) by simp
  show "filter (\<lambda>x. f k = f x) (sort_key f ys) = filter (\<lambda>x. f k = f x) xs"
    if "k \<in> set (sort_key f ys)" for k
  proof -
    have k: "k \<in> set ys" "k \<in> set xs" using that mset_eq_setD [OF assms(1)] by auto
    have "distinct (map f (sort_key f ys))"
      using d by (metis mset_eq_imp_distinct_iff mset_map mset_sort)
    with k d assms(2) show ?thesis by (simp add: filter_key_distinct)
  qed
  show "sorted (map f (sort_key f ys))" by simp
qed

text \<open>The order in which the events of a task are handed to \<open>from_events\<close> does not matter, as long
  as their versions are pairwise different and they belong to one aggregate: every permutation
  rebuilds the same task, or fails with the same exception.\<close>

theorem from_events_permutation:
  assumes "mset es = mset es'" and "distinct (map ev_version es)"
    and "\<forall>e \<in> set es. ev_aggregate_id e = i"
  shows "from_events es = from_events es'"
proof (cases es)
  case Nil
  with assms(1) show ?thesis by simp
next
  case (Cons e r)
  with assms(1) obtain e' r' where es': "es' = e' # r'" by (cases es') auto
  have "set es = set es'" using assms(1) by (rule mset_eq_setD)
  then have "ev_aggregate_id e = i" "ev_aggregate_id e' = i" using assms(3) Cons es' by auto
  then show ?thesis
    using sort_key_mset_eq [OF assms(1,2)] by (simp add: from_events_def Cons es')
qed

section \<open>What an update does\<close>

text \<open>The fields of the task after an accepted update.\<close>

definition updated_fields :: "datetime \<Rightarrow> update_task_command \<Rightarrow> task \<Rightarrow> task" where
  "updated_fields now c s = s\<lparr>
     title := (case uc_title c of None \<Rightarrow> title s
       | Some x \<Rightarrow> if x \<noteq> title_str (title s) then TaskTitle (py_strip x) else title s),
     description := (case uc_description c of None \<Rightarrow> description s | Some x \<Rightarrow> TaskDescription x),
     status := (case uc_status c of None \<Rightarrow> status s
       | Some x \<Rightarrow> (case task_status_of x of Inl _ \<Rightarrow> status s | Inr n \<Rightarrow> n)),
     priority := (case uc_priority c of None \<Rightarrow> priority s
       | Some x \<Rightarrow> (case task_priority_of x of Inl _ \<Rightarrow> priority s | Inr n \<Rightarrow> n)),
     metadata := (if uc_priority c \<noteq> None \<and> uc_priority c \<noteq> Some (priority_value (priority s))
       then increment_priority_changes (metadata s) else metadata s),
     labels := (case uc_labels c of None \<Rightarrow> labels s | Some ls \<Rightarrow> map (Label \<circ> py_lower) ls),
     updated_at := Some now\<rparr>"

lemma updated_fields_title_kept:
  "\<forall>x. uc_title c = Some x \<longrightarrow> x = title_str (title s) \<Longrightarrow>
    (updated_fields now c s)\<lparr>title := title s\<rparr> = updated_fields now c s"
  by (cases s) (auto simp: updated_fields_def split: option.split)

lemma apply_change_Nil [simp]: "apply_change [] k conv upd s = (s, None)"
  by (simp add: apply_change_def done_eff_def)

lemma apply_change_cong:
  "dict_get d k = dict_get d' k \<Longrightarrow> apply_change d k conv upd s = apply_change d' k conv upd s"
  by (simp add: apply_change_def)

lemmas change_defs = title_change_def description_change_def status_change_def priority_change_def
  labels_change_def

lemma change_keys:
  "title_change s c = Inr d \<Longrightarrow> fst ` set d \<subseteq> {''title''}"
  "description_change s c = Inr d \<Longrightarrow> fst ` set d \<subseteq> {''description''}"
  "status_change s c = Inr d \<Longrightarrow> fst ` set d \<subseteq> {''status''}"
  "priority_change s c = Inr d \<Longrightarrow> fst ` set d \<subseteq> {''priority''}"
  "labels_change s c = Inr d \<Longrightarrow> fst ` set d \<subseteq> {''labels''}"
  by (auto simp: change_defs map_r_def bind_r_Inr_iff split: option.splits if_splits)

lemma dict_get_notin: "fst ` set d \<subseteq> {k'} \<Longrightarrow> k \<noteq> k' \<Longrightarrow> dict_get d k = None"
  by (auto simp: map_of_eq_None_iff)

lemma field_changes_parts:
  assumes "field_changes s c = Inr ch"
  obtains ti de st pr la where
    "title_change s c = Inr ti" "description_change s c = Inr de" "status_change s c = Inr st"
    "priority_change s c = Inr pr" "labels_change s c = Inr la" "ch = ti @ de @ st @ pr @ la"
    "dict_get ch ''title'' = dict_get ti ''title''"
    "dict_get ch ''description'' = dict_get de ''description''"
    "dict_get ch ''status'' = dict_get st ''status''"
    "dict_get ch ''priority'' = dict_get pr ''priority''"
    "dict_get ch ''labels'' = dict_get la ''labels''"
proof -
  from assms obtain ti de st pr la where parts:
    "title_change s c = Inr ti" "description_change s c = Inr de" "status_change s c = Inr st"
    "priority_change s c = Inr pr" "labels_change s c = Inr la" "ch = ti @ de @ st @ pr @ la"
    by (auto simp: field_changes_def bind_r_Inr_iff)
  show ?thesis
    using dict_get_notin [OF change_keys(1) [OF parts(1)]] dict_get_notin [OF change_keys(2) [OF parts(2)]]
      dict_get_notin [OF change_keys(3) [OF parts(3)]] dict_get_notin [OF change_keys(4) [OF parts(4)]]
      dict_get_notin [OF change_keys(5) [OF parts(5)]]
    by (intro that [OF parts]) (simp_all add: parts(6) map_add_def split: option.splits)
qed

lemma new_value_change_entry [simp]: "new_value (change_entry old new) = Inr new"
  by (simp add: new_value_def change_entry_def)

lemma title_step:
  assumes "title_change s c = Inr ti"
  shows "apply_change ti ''title'' (\<lambda>x. bind_r (as_str x) title_new) upd s1
    = (if ti = [] then (s1, None) else set_eff (title_new (py_strip (the (uc_title c)))) upd s1)"
  using assms by (auto simp: apply_change_def title_change_def map_r_def bind_r_Inr_iff done_eff_def
      title_new_iff title_str_def split: option.splits if_splits)

lemma title_changed_iff:
  assumes "title_change s c = Inr ti"
  shows "ti = [] \<longleftrightarrow> (\<forall>x. uc_title c = Some x \<longrightarrow> x = title_str (title s))"
  using assms by (auto simp: title_change_def map_r_def bind_r_Inr_iff split: option.splits if_splits)

lemma description_step:
  assumes "description_change s c = Inr de" "description s1 = description s"
  shows "apply_change de ''description'' (\<lambda>x. bind_r (as_str x) description_new)
      (\<lambda>v s. s\<lparr>description := v\<rparr>) s1
    = (s1\<lparr>description := (case uc_description c of None \<Rightarrow> description s | Some x \<Rightarrow> TaskDescription x)\<rparr>, None)"
  using assms by (cases s1) (auto simp: apply_change_def description_change_def description_new_def
      map_r_def bind_r_Inr_iff done_eff_def split: option.splits if_splits)

lemma status_step:
  assumes "status_change s c = Inr st" "status s1 = status s"
  shows "apply_change st ''status'' (\<lambda>x. bind_r (as_str x) task_status_of) (\<lambda>v s. s\<lparr>status := v\<rparr>) s1
    = (s1\<lparr>status := (case uc_status c of None \<Rightarrow> status s
        | Some x \<Rightarrow> (case task_status_of x of Inl _ \<Rightarrow> status s | Inr n \<Rightarrow> n))\<rparr>, None)"
  using assms by (cases s1) (auto simp: apply_change_def status_change_def bind_r_Inr_iff done_eff_def
      split: option.splits if_splits)

lemma priority_value_of: "task_priority_of x = Inr p \<longleftrightarrow> priority_value p = x"
  using priority.lookup_Inr_iff by (simp add: task_priority_of_def)

lemma status_value_of: "task_status_of x = Inr p \<longleftrightarrow> status_value p = x"
  using status.lookup_Inr_iff by (simp add: task_status_of_def)

lemma priority_step:
  assumes "priority_change s c = Inr pr" "priority s1 = priority s" "metadata s1 = metadata s"
  shows "apply_change pr ''priority'' (\<lambda>x. bind_r (as_str x) task_priority_of)
      (\<lambda>v s. s\<lparr>priority := v, metadata := increment_priority_changes (metadata s)\<rparr>) s1
    = (s1\<lparr>priority := (case uc_priority c of None \<Rightarrow> priority s
        | Some x \<Rightarrow> (case task_priority_of x of Inl _ \<Rightarrow> priority s | Inr n \<Rightarrow> n)),
        metadata := (if uc_priority c \<noteq> None \<and> uc_priority c \<noteq> Some (priority_value (priority s))
          then increment_priority_changes (metadata s) else metadata s)\<rparr>, None)"
proof (cases "uc_priority c")
  case None
  then show ?thesis using assms
    by (cases s1) (simp add: apply_change_def priority_change_def done_eff_def)
next
  case (Some x)
  with assms(1) obtain n where n: "task_priority_of x = Inr n"
    by (auto simp: priority_change_def bind_r_Inr_iff)
  then have "x = priority_value n" by (simp add: priority_value_of)
  with Some n assms show ?thesis
    by (cases s1) (auto simp: apply_change_def priority_change_def done_eff_def priority.val_inj
        split: if_splits)
qed

lemma labels_step:
  assumes "labels_change s c = Inr la" "labels s1 = labels s"
  shows "apply_change la ''labels'' (\<lambda>x. bind_r (as_str_list x) (traverse_r label_new))
      (\<lambda>v s. s\<lparr>labels := v\<rparr>) s1
    = (s1\<lparr>labels := (case uc_labels c of None \<Rightarrow> labels s | Some ls \<Rightarrow> map (Label \<circ> py_lower) ls)\<rparr>, None)"
proof (cases "uc_labels c")
  case None
  then show ?thesis using assms
    by (cases s1) (simp add: apply_change_def labels_change_def done_eff_def)
next
  case (Some ls)
  with assms(1) obtain ns where ns: "traverse_r label_new ls = Inr ns"
    and la: "la = [(''labels'', change_entry (JArr (map (JStr \<circ> label_str) (labels s)))
           (JArr (map (JStr \<circ> label_str) ns)))]"
    by (auto simp: labels_change_def map_r_def bind_r_Inr_iff)
  have valid: "ns = map Label ls" "list_all valid_label ns" using traverse_label_new [OF ns] by auto
  have "as_str_list (JArr (map (JStr \<circ> label_str) ns)) = Inr (map label_str ns)"
    by (simp add: map_map [symmetric] del: map_map)
  moreover have "map (\<lambda>l. Label (label_str l)) ns = map (Label \<circ> py_lower) ls"
    by (simp add: valid(1) label_str_def)
  ultimately show ?thesis using Some la labels_new_str [OF valid(2)]
    by (simp add: apply_change_def)
qed

text \<open>
  Applying the event of an update: only the title can make it fail, when the new title is long
  enough but its stripped text is not.
\<close>

lemma apply_update_event:
  assumes ch: "field_changes s c = Inr ch" and e: "payload e = TaskUpdatedEvent ch u"
  shows "apply_event s e =
    (case uc_title c of
       Some x \<Rightarrow> if x \<noteq> title_str (title s) \<and> length (py_strip x) < 3
         then (s, Some (ValueError ''Title must be at least 3 characters''))
         else (updated_fields (occurred_at e) c s, None)
     | None \<Rightarrow> (updated_fields (occurred_at e) c s, None))"
proof -
  from ch obtain ti de st pr la where parts:
    "title_change s c = Inr ti" "description_change s c = Inr de" "status_change s c = Inr st"
    "priority_change s c = Inr pr" "labels_change s c = Inr la" and
    gets: "dict_get ch ''title'' = dict_get ti ''title''"
    "dict_get ch ''description'' = dict_get de ''description''"
    "dict_get ch ''status'' = dict_get st ''status''"
    "dict_get ch ''priority'' = dict_get pr ''priority''"
    "dict_get ch ''labels'' = dict_get la ''labels''"
    by (rule field_changes_parts)
  note steps = gets [THEN apply_change_cong]
    title_step [OF parts(1)] description_step [OF parts(2)] status_step [OF parts(3)]
    priority_step [OF parts(4)] labels_step [OF parts(5)]
  have ev: "apply_event s e = apply_updated s e" by (simp add: apply_event_def e)
  show ?thesis
  proof (cases "\<exists>x. uc_title c = Some x \<and> x \<noteq> title_str (title s)")
    case False
    then have "ti = []" using title_changed_iff [OF parts(1)] by auto
    moreover have "apply_event s e = (updated_fields (occurred_at e) c s, None)"
      using updated_fields_title_kept [of c s "occurred_at e"] False \<open>ti = []\<close>
      unfolding ev apply_updated_def e updated_fields_def by (simp add: steps done_eff_def)
    ultimately show ?thesis using False by (auto split: option.split)
  next
    case True
    then obtain x where x: "uc_title c = Some x" "x \<noteq> title_str (title s)" by blast
    then have ti: "ti \<noteq> []" using title_changed_iff [OF parts(1)] by auto
    have vx: "valid_title (TaskTitle x)"
      using parts(1) x by (auto simp: title_change_def map_r_def bind_r_Inr_iff title_new_iff)
    show ?thesis
    proof (cases "length (py_strip x) < 3")
      case True
      then have "title_new (py_strip x) = Inl (ValueError ''Title must be at least 3 characters'')"
        by (simp add: title_new_def)
      then show ?thesis using x ti True by (simp add: ev apply_updated_def e steps)
    next
      case False
      then have "title_new (py_strip x) = Inr (TaskTitle (py_strip x))"
        using vx length_py_strip [of x] by (auto simp: title_new_iff valid_title_def strip_not_space)
      then show ?thesis using x ti False
        unfolding ev apply_updated_def e by (simp add: steps done_eff_def) (simp add: updated_fields_def)
    qed
  qed
qed

lemma update_cases:
  assumes "update kind eid now c s = (s', x)"
  obtains (rejected) e where "s' = s" "x = Some e"
  | (unchanged) "field_changes s c = Inr []" "s' = s" "x = None"
  | (event) ch where "update_validate c = Inr ()" "\<not> is_deleted s" "field_changes s c = Inr ch" "ch \<noteq> []"
      "raise_event kind apply_event s
         (new_event eid now (aggregate_id s) (TaskUpdatedEvent ch (uc_updated_by c))) = (s', x)"
  using assms unfolding update_def
  by (auto simp: bind_r_Inr_iff validate_not_deleted_def done_eff_def elim!: guarded_cases
      split: if_splits)

lemma stamp_fields [simp]:
  "payload (stamp s e) = payload e" "occurred_at (stamp s e) = occurred_at e"
  "event_id (stamp s e) = event_id e" "ev_version (stamp s e) = version s + 1"
  "ev_aggregate_id (stamp s e) = aggregate_id s"
  by (simp_all add: stamp_def)

lemma raise_update_event:
  assumes ch: "field_changes s c = Inr ch"
    and e: "e = new_event eid now (aggregate_id s) (TaskUpdatedEvent ch u)"
  shows "raise_event Mutable apply_event s e =
    (if \<exists>t. uc_title c = Some t \<and> t \<noteq> title_str (title s) \<and> length (py_strip t) < 3
     then (s\<lparr>uncommitted_events := uncommitted_events s @ [stamp s e]\<rparr>,
        Some (ValueError ''Title must be at least 3 characters''))
     else ((updated_fields now c s)\<lparr>uncommitted_events := uncommitted_events s @ [stamp s e],
        version := version s + 1\<rparr>, None))"
proof -
  have "payload (stamp s e) = TaskUpdatedEvent ch u" "occurred_at (stamp s e) = now"
    by (simp_all add: e)
  note ap = apply_update_event [OF ch this(1), unfolded this(2)]
  show ?thesis
  proof (cases "\<exists>t. uc_title c = Some t \<and> t \<noteq> title_str (title s) \<and> length (py_strip t) < 3")
    case True
    then have "apply_event s (stamp s e) = (s, Some (ValueError ''Title must be at least 3 characters''))"
      using ap by auto
    from task.raise_failed [OF this] show ?thesis using True by simp
  next
    case False
    then have "apply_event s (stamp s e) = (updated_fields now c s, None)"
      using ap by (auto split: option.splits)
    then show ?thesis unfolding if_not_P [OF False] task.raise_ok_iff by blast
  qed
qed

text \<open>C13: What an accepted update does, for either kind of event class: if \<open>update\<close> returns, then
  either no field differs and the task is untouched, or exactly one event is recorded, the version
  goes up by one, and the fields are those of the command: the title stripped, the labels in lower
  case, the priority counted as a change only if it is another one, and nothing else changed.\<close>

theorem update_accepted:
  assumes "update kind eid now c s = (s', None)"
  shows "\<exists>ch. field_changes s c = Inr ch \<and>
    (if ch = [] then s' = s
     else \<exists>ev. s' = (updated_fields now c s)\<lparr>uncommitted_events := uncommitted_events s @ [ev],
       version := version s + 1\<rparr>)"
  using assms
proof (cases rule: update_cases)
  case (event ch)
  then have "kind = Mutable" by (cases kind) auto
  then show ?thesis using event raise_update_event [OF event(3) refl]
    by (auto split: if_splits)
qed auto

text \<open>An update that raises after it has begun to change the task, which takes an event class whose
  attributes can be assigned, happens exactly when the command and the status change are valid and the
  new title is long enough only with its surrounding whitespace.\<close>

theorem update_interrupted_iff:
  "(\<exists>s' x. update kind eid now c s = (s', Some x) \<and> s' \<noteq> s) \<longleftrightarrow>
     kind = Mutable \<and> update_validate c = Inr () \<and> \<not> is_deleted s \<and> (\<exists>ch. field_changes s c = Inr ch)
     \<and> (\<exists>t. uc_title c = Some t \<and> t \<noteq> title_str (title s) \<and> length (py_strip t) < 3)"
  (is "?L \<longleftrightarrow> ?R")
proof
  assume ?L
  then obtain s' x where u: "update kind eid now c s = (s', Some x)" and ne: "s' \<noteq> s" by blast
  from u show ?R
  proof (cases rule: update_cases)
    case (event ch)
    then have "kind = Mutable" using ne by (cases kind) auto
    then show ?thesis using event raise_update_event [OF event(3) refl] by (auto split: if_splits)
  qed (use ne in auto)
next
  assume R: ?R
  then obtain ch t where ch: "field_changes s c = Inr ch" and t: "uc_title c = Some t"
    "t \<noteq> title_str (title s)" "length (py_strip t) < 3" by blast
  obtain ti de st pr la where parts: "title_change s c = Inr ti" "ch = ti @ de @ st @ pr @ la"
    using field_changes_parts [OF ch] by metis
  then have "ch \<noteq> []" using title_changed_iff [OF parts(1)] t by auto
  let ?e = "new_event eid now (aggregate_id s) (TaskUpdatedEvent ch (uc_updated_by c))"
  have "update kind eid now c s = raise_event Mutable apply_event s ?e"
    using R ch \<open>ch \<noteq> []\<close> by (simp add: update_def validate_not_deleted_def guarded_def)
  then have "update kind eid now c s = (s\<lparr>uncommitted_events := uncommitted_events s @ [stamp s ?e]\<rparr>,
        Some (ValueError ''Title must be at least 3 characters''))"
    using raise_update_event [OF ch refl] t by auto
  moreover have "s\<lparr>uncommitted_events := uncommitted_events s @ [stamp s ?e]\<rparr> \<noteq> s"
    by (cases s) simp
  ultimately show ?L by blast
qed

end
