(* ===== verification/Task_Commands.thy ===== *)
theory Task_Commands
  imports Task_Lifecycle
begin

text \<open>
  Which commands the task aggregate accepts and what they may change: creation, the event that an
  interrupted update leaves behind, deletion, the status machine, and what the frozen event classes
  of the code mean for all of them.
\<close>

section \<open>Creation\<close>

definition created_task :: "string \<Rightarrow> string \<Rightarrow> datetime \<Rightarrow> create_task_command \<Rightarrow> task" where
  "created_task tid eid now c = \<lparr>aggregate_id = tid,
     uncommitted_events = [(new_event eid now tid (TaskCreatedEvent (cc_title c) (cc_description c)
       (cc_priority c) (cc_assignee_id c) (cc_created_by c) (cc_labels c)
       (map_option isoformat (cc_due_date c))))\<lparr>ev_version := 1\<rparr>],
     version = 1, title = TaskTitle (cc_title c), description = TaskDescription (cc_description c),
     priority = (case task_priority_of (cc_priority c) of Inl _ \<Rightarrow> MEDIUM | Inr p \<Rightarrow> p),
     status = BACKLOG,
     assignee_id = (if truthy (cc_assignee_id c) then map_option UserId (cc_assignee_id c) else None),
     created_by = Some (UserId (cc_created_by c)), labels = map Label (cc_labels c),
     due_date = DueDate (cc_due_date c), metadata = metadata_new,
     created_at = Some now, updated_at = Some now, is_deleted = False\<rparr>"

definition acceptable_labels :: "string list \<Rightarrow> bool" where
  "acceptable_labels ns = list_all (\<lambda>n. label_new n = Inr (Label n)) ns"

lemma traverse_acceptable: "traverse_r label_new ns = Inr ls \<longleftrightarrow> acceptable_labels ns \<and> ls = map Label ns"
proof (induction ns arbitrary: ls)
  case Nil
  then show ?case by (auto simp: acceptable_labels_def)
next
  case (Cons n ns)
  then show ?case
    by (auto simp: acceptable_labels_def bind_r_Inr_iff dest: label_new_valid)
qed

lemma isoformat_not_Nil [simp]: "isoformat d \<noteq> []"
  by (simp add: isoformat_def)

lemma apply_created_None:
  assumes "payload e = TaskCreatedEvent t d p a cb ls (map_option isoformat due)"
    and "\<forall>x. due = Some x \<longrightarrow> valid_datetime x \<and> dt_offset x \<noteq> None"
  shows "apply_event s e = (s', None) \<longleftrightarrow>
    (\<exists>pr. valid_title (TaskTitle t) \<and> length d \<le> 5000 \<and> task_priority_of p = Inr pr \<and> acceptable_labels ls
      \<and> s' = s\<lparr>title := TaskTitle t, description := TaskDescription d, priority := pr, status := BACKLOG,
          assignee_id := (if truthy a then map_option UserId a else None), created_by := Some (UserId cb),
          labels := map Label ls, due_date := DueDate due, created_at := Some (occurred_at e),
          updated_at := Some (occurred_at e), is_deleted := False\<rparr>)"
proof -
  have due: "(if truthy (map_option isoformat due)
        then map_r (\<lambda>x. due_date_new (Some x)) (fromisoformat (the (map_option isoformat due)))
        else Inr (due_date_new None)) = Inr (DueDate due)"
    using assms(2) by (cases due) (auto simp: due_date_new_def)
  have a: "(if truthy a then Some (UserId (the a)) else None)
      = (if truthy a then map_option UserId a else None)"
    by (cases a) auto
  have d: "description_new d = Inr v \<longleftrightarrow> length d \<le> 5000 \<and> v = TaskDescription d" for v
    by (auto simp: description_new_def)
  show ?thesis
    unfolding apply_event_def apply_created_def assms(1) class_of.simps event_class.case
      task_payload.case due a
    by (auto simp: seq_eff_None_iff set_eff_None_iff title_new_iff d traverse_acceptable done_eff_def)
qed

text \<open>C12: Creating a task succeeds exactly when the event class allows its attributes to be assigned, the
  command is valid, the title is not only whitespace and every label is well formed (the last two are
  checked only while the event is applied); the new task then has the fields of the command, version
  1 and one uncommitted event, and its due date survives the trip through the ISO text.\<close>

theorem create_iff:
  assumes "\<forall>d. cc_due_date c = Some d \<longrightarrow> valid_datetime d"
  shows "create kind tid eid now c = Inr s \<longleftrightarrow>
    kind = Mutable \<and> create_validate c = Inr () \<and> \<not> py_isspace (cc_title c)
    \<and> acceptable_labels (cc_labels c) \<and> s = created_task tid eid now c"
proof (cases "kind = Mutable \<and> create_validate c = Inr ()")
  case False
  then show ?thesis by (cases kind) (auto simp: create_def bind_r_Inr_iff)
next
  case True
  note ok = create_validate_ok [OF conjunct2 [OF True]]
  let ?e = "new_event eid now tid (TaskCreatedEvent (cc_title c) (cc_description c)
       (cc_priority c) (cc_assignee_id c) (cc_created_by c) (cc_labels c)
       (map_option isoformat (cc_due_date c)))"
  have "create kind tid eid now c = Inr s
      \<longleftrightarrow> raise_event Mutable apply_event (new_task tid) ?e = (s, None)"
    using True by (auto simp: create_def split: prod.splits option.splits)
  also have "\<dots> \<longleftrightarrow> (\<exists>a. apply_event (new_task tid) (stamp (new_task tid) ?e) = (a, None)
      \<and> s = a\<lparr>uncommitted_events := [stamp (new_task tid) ?e], version := 1\<rparr>)"
    by (simp add: task.raise_ok_iff new_task_def)
  also have "\<dots> \<longleftrightarrow> \<not> py_isspace (cc_title c) \<and> acceptable_labels (cc_labels c)
      \<and> s = created_task tid eid now c"
  proof -
    obtain pr where pr: "task_priority_of (cc_priority c) = Inr pr"
      using ok(5) by auto
    have due: "\<forall>x. cc_due_date c = Some x \<longrightarrow> valid_datetime x \<and> dt_offset x \<noteq> None"
      using assms ok(6) by blast
    have st: "stamp (new_task tid) ?e = ?e\<lparr>ev_version := 1\<rparr>"
      by (simp add: stamp_def new_task_def new_event_def)
    have pl: "payload (stamp (new_task tid) ?e) = TaskCreatedEvent (cc_title c) (cc_description c)
       (cc_priority c) (cc_assignee_id c) (cc_created_by c) (cc_labels c)
       (map_option isoformat (cc_due_date c))" by simp
    have vt: "valid_title (TaskTitle (cc_title c)) \<longleftrightarrow> \<not> py_isspace (cc_title c)"
      using ok(1,2) by (simp add: valid_title_def)
    show ?thesis
      unfolding apply_created_None [OF pl due] vt unfolding st
      using ok(3) pr by (auto simp: created_task_def new_task_def)
  qed
  finally show ?thesis using True by simp
qed

section \<open>What an interrupted update leaves behind\<close>

text \<open>C25: If an update is interrupted after it has begun to change a task, the version stays as it was,
  but the event that could not be applied is among the uncommitted events, and the history that
  contains it can no longer be replayed: \<open>from_events\<close> raises the exception that \<open>update\<close> raised.\<close>

theorem interrupted_update_poisons_history:
  assumes "create kind tid eid now c = Inr s0" and "run_commands kind cs s0 = (s, None)"
    and "update kind eid' now' u s = (s', Some x)" and "s' \<noteq> s"
  shows "version s' = version s
    \<and> (\<exists>ev. uncommitted_events s' = uncommitted_events s @ [ev])
    \<and> from_events (uncommitted_events s') = Inl x"
proof -
  from assms(3) obtain ch where ch: "field_changes s u = Inr ch" and
    r: "raise_event kind apply_event s
      (new_event eid' now' (aggregate_id s) (TaskUpdatedEvent ch (uc_updated_by u))) = (s', Some x)"
    by (cases rule: update_cases) (use assms(4) in auto)
  let ?e = "new_event eid' now' (aggregate_id s) (TaskUpdatedEvent ch (uc_updated_by u))"
  have k: "kind = Mutable" using r assms(4) by (cases kind) auto
  with r have s': "s' = s\<lparr>uncommitted_events := uncommitted_events s @ [stamp s ?e]\<rparr>"
    and x: "x = ValueError ''Title must be at least 3 characters''"
    and t: "\<exists>t. uc_title u = Some t \<and> t \<noteq> title_str (title s) \<and> length (py_strip t) < 3"
    using raise_update_event [OF ch refl] by (auto split: if_splits)
  obtain evs where "uncommitted_events s = uncommitted_events s0 @ evs"
    "is_history (uncommitted_events s0 @ evs) s"
    using history_create [OF assms(1)] assms(2) by (rule history_run)
  then have h: "is_history (uncommitted_events s) s" by simp
  let ?h = "uncommitted_events s @ [stamp s ?e]"
  have "map ev_version ?h = [1..version s + 1]"
    using h history_nonneg [OF h] by (simp add: is_history_def upto_snoc)
  then have "sorted (map ev_version ?h)" by (simp only: sorted_upto)
  then have sort: "sort_key ev_version ?h = ?h" by (rule sort_key_id_if_sorted)
  have "apply_event s (stamp s ?e) = (s, Some x)"
    using apply_update_event [OF ch, of "stamp s ?e"] t x by auto
  then have "replay apply_event (new_task (aggregate_id s)) ?h = Inl x"
    using h by (simp add: replay_append is_history_def mark_events_committed_def task.app_uncommitted)
  moreover have "ev_aggregate_id (hd ?h) = aggregate_id s" "?h \<noteq> []"
    using h by (auto simp: is_history_def)
  ultimately have "from_events ?h = Inl x"
    using sort by (auto simp: from_events_def split: list.split)
  then show ?thesis by (simp add: s')
qed

section \<open>Deleted tasks\<close>

lemma deleted_guard:
  assumes "is_deleted s" "\<And>e. r = Inl e \<Longrightarrow> \<exists>m. e = ValueError m"
  shows "\<exists>m. bind_r r (\<lambda>_. bind_r (validate_not_deleted s) f) = Inl (ValueError m)"
    and "\<exists>m. bind_r r (\<lambda>_. validate_not_deleted s) = Inl (ValueError m)"
  using assms by (cases r; simp add: validate_not_deleted_def)+

lemma guarded_raises: "\<exists>m. r = Inl (ValueError m) \<Longrightarrow> \<exists>m. guarded r f s = (s, Some (ValueError m))"
  by (auto simp: guarded_def raise_eff_def)

text \<open>C28: A deleted task accepts no command: each of them raises a \<open>ValueError\<close> and leaves the task as
  it is.\<close>

theorem deleted_task_rejects_commands:
  assumes "is_deleted s"
  shows "\<exists>m. execute_command kind eid now cmd s = (s, Some (ValueError m))"
proof -
  note guard = deleted_guard [OF assms validate_raises_ValueError(2)]
    deleted_guard [OF assms validate_raises_ValueError(3)]
    deleted_guard [OF assms validate_raises_ValueError(4)]
  show ?thesis
    by (cases cmd)
      (simp_all add: command_defs guarded_raises guard, simp_all add: guarded_def raise_eff_def
        validate_not_deleted_def assms)
qed

section \<open>The status machine\<close>

text \<open>Only \<open>update\<close> and \<open>change_status\<close> raise events that touch the status.\<close>

lemma raise_keeps_status:
  assumes "class_of p \<in> {AssignedClass, PriorityChangedClass, DeletedClass}"
    and "raise_event kind apply_event s (new_event eid now i p) = (s', x)"
  shows "status s' = status s"
proof (cases kind)
  case Frozen
  then show ?thesis using assms(2) by simp
next
  case Mutable
  have "keeps (\<lambda>t. status t = status s) (\<lambda>t. apply_event t e)" if "payload e = p" for e
    using assms(1) that
    by (cases p) (auto simp: apply_event_def apply_defs simp del: seq_eff_simps set_eff_simps
        intro!: keeps_seq keeps_set keeps_done)
  then have "status (fst (apply_event s (stamp s (new_event eid now i p)))) = status s"
    by (simp add: keeps_def)
  then show ?thesis using assms(2) Mutable
    by (auto simp: raise_event_Mutable task.app_uncommitted seq_eff_def done_eff_def
        split: prod.splits option.splits)
qed

lemma updated_status:
  assumes "field_changes s c = Inr ch"
  shows "status (updated_fields now c s) = status s
    \<or> can_transition_to (status s) (status (updated_fields now c s))"
proof -
  obtain st where "status_change s c = Inr st" using field_changes_parts [OF assms] by metis
  then show ?thesis
    by (auto simp: updated_fields_def status_change_def validate_status_transition_def bind_r_Inr_iff
        split: option.splits if_splits)
qed

lemma update_status:
  assumes "update kind eid now c s = (s', x)"
  shows "status s' = status s \<or> can_transition_to (status s) (status s')"
  using assms
proof (cases rule: update_cases)
  case (event ch)
  show ?thesis
  proof (cases kind)
    case Mutable
    then show ?thesis
      using event(5) raise_update_event [OF event(3) refl] updated_status [OF event(3), of now]
      by (auto split: if_splits)
  qed (use event in auto)
qed auto

lemma change_status_status:
  assumes "change_status kind eid now st who r s = (s', x)"
  shows "status s' = status s \<or> can_transition_to (status s) (status s')"
proof (cases "status s' = status s")
  case False
  with assms have ok: "can_transition_to (status s) st" and
    ra: "raise_event kind apply_event s (new_event eid now (aggregate_id s)
      (TaskStatusChangedEvent (status_value (status s)) (status_value st) who r)) = (s', x)"
    by (auto simp: change_status_def bind_r_Inr_iff validate_not_deleted_def done_eff_def
        validate_status_transition_def elim!: guarded_cases split: if_splits)
  have "kind = Mutable" using ra False by (cases kind) auto
  then have "status s' = st" using ra
    by (auto simp: raise_event_Mutable task.app_uncommitted apply_event_def apply_defs done_eff_def
        split: prod.splits)
  with ok show ?thesis by simp
qed simp

text \<open>C27: The status of a task moves only along the transition table: after any command, for either kind
  of event class and also when the command raises, the status is the old one or one the table allows
  from it.\<close>

theorem status_moves_along_table:
  "let s' = fst (execute_command kind eid now cmd s) in
     status s' = status s \<or> can_transition_to (status s) (status s')"
proof -
  obtain s' x where r: "execute_command kind eid now cmd s = (s', x)" by fastforce
  have "status s' = status s \<or> can_transition_to (status s) (status s')"
  proof (cases cmd)
    case (Update c)
    with r show ?thesis by (auto dest: update_status)
  next
    case (ChangeStatus st who reason)
    with r show ?thesis by (auto dest: change_status_status)
  next
    case (Assign c)
    with r show ?thesis
      by (auto simp: assign_def Let_def done_eff_def elim!: guarded_cases dest!: raise_keeps_status [rotated]
          split: if_splits)
  next
    case (ChangePriority p who)
    with r show ?thesis
      by (auto simp: change_priority_def done_eff_def elim!: guarded_cases dest!: raise_keeps_status [rotated]
          split: if_splits)
  next
    case (Delete c)
    with r show ?thesis
      by (auto simp: delete_def elim!: guarded_cases dest!: raise_keeps_status [rotated])
  qed
  with r show ?thesis by simp
qed

text \<open>Changing the status to the current one never returns: no status may move to itself, so the
  check of the table, which comes first, raises, and the early return for an unchanged status after
  it is never reached. In \<open>update\<close> the comparison comes first and the same request changes nothing.\<close>

theorem same_status_raises:
  "(\<exists>m. change_status kind eid now (status s) who reason s = (s, Some (ValueError m)))
   \<and> status_change s (c\<lparr>uc_status := Some (status_value (status s))\<rparr>) = Inr []"
  by (simp add: change_status_def guarded_def raise_eff_def validate_not_deleted_def
      validate_status_transition_def status_change_def)

section \<open>The event class of the code\<close>

text \<open>C32: With the event class as the code declares it, \<open>frozen=True\<close>, the write side of the aggregate
  cannot work: \<open>raise_event\<close> assigns to the event, so creating a task raises for every command, a
  valid one \<open>FrozenInstanceError\<close>, and no other command ever changes a task.\<close>

theorem frozen_events_block_writes:
  "create domain_event_kind tid eid now c = (case create_validate c of
       Inl e \<Rightarrow> Inl e | Inr _ \<Rightarrow> Inl (FrozenInstanceError ''aggregate_id''))
   \<and> fst (execute_command domain_event_kind eid now cmd s) = s"
proof -
  obtain s' x where r: "execute_command domain_event_kind eid now cmd s = (s', x)" by fastforce
  then have "s' = s" by (cases rule: command_cases) (auto simp: domain_event_kind_def)
  with r show ?thesis by (auto simp: create_def domain_event_kind_def split: sum.splits)
qed

end
