(* ===== verification/Task_Scenario.thy ===== *)
theory Task_Scenario
  imports Task_Commands
begin

text \<open>
  One task run through the theorems of the aggregate: a creation, an update, an assignment, two status
  changes and a deletion, evaluated, with the theorems instantiated on the states they go through.
\<close>

definition noon :: datetime where
  "noon = \<lparr>dt_year = 2026, dt_month = 5, dt_day = 12, dt_hour = 12, dt_minute = 0, dt_second = 0,
     dt_micro = 0, dt_offset = Some 0\<rparr>"

definition later :: datetime where
  "later = noon\<lparr>dt_minute := 30\<rparr>"

definition login_create :: create_task_command where
  "login_create = \<lparr>cc_command_id = ''k1'', cc_title = ''Login'', cc_description = ''Use tokens'',
     cc_priority = ''high'', cc_assignee_id = None, cc_created_by = ''ada'', cc_labels = [''auth''],
     cc_due_date = None\<rparr>"

definition login_update :: update_task_command where
  "login_update = \<lparr>uc_command_id = ''k2'', uc_task_id = ''t1'', uc_title = Some '' Log out '',
     uc_description = None, uc_status = Some ''todo'', uc_priority = Some ''low'', uc_assignee_id = None,
     uc_labels = Some [''web''], uc_due_date = None, uc_updated_by = ''ada'', uc_expected_version = 1\<rparr>"

text \<open>Long enough with its spaces, too short without them.\<close>

definition padded_update :: update_task_command where
  "padded_update = login_update\<lparr>uc_title := Some '' x '', uc_status := None, uc_priority := None, uc_labels := None\<rparr>"

definition login_task :: task where
  "login_task = created_task ''t1'' ''e1'' noon login_create"

definition login_run :: "(string \<times> datetime \<times> task_command) list" where
  "login_run = [(''e2'', later, Update login_update), (''e3'', later, ChangePriority CRITICAL ''ada'')]"

definition login_live :: task where
  "login_live = fst (run_commands Mutable login_run login_task)"

lemmas scenario_defs = noon_def later_def login_create_def login_update_def padded_update_def
  login_task_def login_run_def login_live_def

lemma login_create_ok: "create Mutable ''t1'' ''e1'' noon login_create = Inr login_task"
  by code_simp

lemma login_run_returns: "snd (run_commands Mutable login_run login_task) = None"
  by code_simp

lemma login_run_ok: "run_commands Mutable login_run login_task = (login_live, None)"
  using login_run_returns by (simp add: login_live_def prod_eq_iff)

lemma login_live_fields:
  "title login_live = TaskTitle ''Log out''" "version login_live = 3"
  by code_simp+

definition padded_task :: "task effect" where
  "padded_task = update Mutable ''e5'' later padded_update login_task"

lemma padded_task_interrupted:
  "snd padded_task = Some (ValueError ''Title must be at least 3 characters'')"
  "version (fst padded_task) = 1 \<and> length (uncommitted_events (fst padded_task)) = 2"
  by code_simp+

section \<open>The theorems on this task\<close>

lemma task_fields_stay_valid_witness:
  "wf_task (fst (run_commands Mutable login_run (mark_events_committed login_task)))"
proof (rule task_fields_stay_valid)
  show "from_events (uncommitted_events login_task) = Inr (mark_events_committed login_task)"
    by code_simp
qed

lemma live_task_equals_replay_witness:
  "from_events (uncommitted_events login_live) = Inr (mark_events_committed login_live)
   \<and> map ev_version (uncommitted_events login_live) = [1, 2, 3]"
  using live_task_equals_replay [OF login_create_ok login_run_ok] login_live_fields(2)
  by (simp add: upto_rec1)

definition login_events :: "task_event list" where
  "login_events = uncommitted_events login_task
     @ [(new_event ''e2'' later ''t1'' (TaskAssignedEvent None ''bob'' ''ada''))\<lparr>ev_version := 2\<rparr>]"

lemma from_events_permutation_witness:
  "from_events login_events = from_events (rev login_events) \<and> length login_events = 2"
proof -
  have "mset login_events = mset (rev login_events)" "distinct (map ev_version login_events)"
    "\<forall>e \<in> set login_events. ev_aggregate_id e = ''t1''" "length login_events = 2"
    by (simp_all add: login_events_def login_task_def created_task_def new_event_def)
  then show ?thesis using from_events_permutation [of login_events "rev login_events" "''t1''"] by simp
qed

lemma update_accepted_witness:
  "\<exists>ch ev. field_changes login_task login_update = Inr ch \<and> ch \<noteq> []
     \<and> update Mutable ''e2'' later login_update login_task
       = ((updated_fields later login_update login_task)\<lparr>uncommitted_events := uncommitted_events login_task @ [ev],
           version := 2\<rparr>, None)"
proof -
  let ?u = "update Mutable ''e2'' later login_update login_task"
  have n: "snd ?u = None" "fst ?u \<noteq> login_task" by code_simp+
  then have "?u = (fst ?u, None)" by (simp add: prod_eq_iff)
  from update_accepted [OF this] n(2) obtain ch ev where "field_changes login_task login_update = Inr ch" "ch \<noteq> []"
    "fst ?u = (updated_fields later login_update login_task)\<lparr>uncommitted_events := uncommitted_events login_task @ [ev],
       version := version login_task + 1\<rparr>" by (auto split: if_splits)
  moreover have "version login_task + 1 = 2" by (simp add: login_task_def created_task_def)
  ultimately show ?thesis using n(1) by (auto simp: prod_eq_iff)
qed

lemma create_iff_witness:
  "create Mutable ''t1'' ''e1'' noon (login_create\<lparr>cc_due_date := Some noon\<rparr>)
     = Inr (created_task ''t1'' ''e1'' noon (login_create\<lparr>cc_due_date := Some noon\<rparr>))"
proof -
  let ?c = "login_create\<lparr>cc_due_date := Some noon\<rparr>"
  have "\<forall>d. cc_due_date ?c = Some d \<longrightarrow> valid_datetime d"
    by (simp add: noon_def valid_datetime_def days_in_month_def is_leap_def day_micros_def)
  moreover have "create_validate ?c = Inr ()" "\<not> py_isspace (cc_title ?c)" "acceptable_labels (cc_labels ?c)"
    by code_simp+
  ultimately show ?thesis using create_iff [of ?c Mutable] by simp
qed

lemma interrupted_update_poisons_history_witness:
  "from_events (uncommitted_events (fst padded_task)) = Inl (ValueError ''Title must be at least 3 characters'')"
proof -
  have "padded_task = (fst padded_task, Some (ValueError ''Title must be at least 3 characters''))"
    using padded_task_interrupted(1) by (simp add: prod_eq_iff)
  moreover have "fst padded_task \<noteq> login_task"
    using padded_task_interrupted(2) by (auto simp: login_task_def created_task_def)
  ultimately show ?thesis
    using interrupted_update_poisons_history [OF login_create_ok, of "[]" login_task, OF _
        padded_task_def [symmetric, THEN trans]] by (simp add: done_eff_def)
qed

lemma deleted_task_rejects_commands_witness:
  "\<exists>m. execute_command Mutable ''e6'' later (ChangePriority LOW ''ada'') (login_task\<lparr>is_deleted := True\<rparr>)
     = (login_task\<lparr>is_deleted := True\<rparr>, Some (ValueError m))"
  by (rule deleted_task_rejects_commands) simp

end
