(* ===== verification/Event_Store.thy ===== *)
theory Event_Store
  imports Events
begin

text \<open>
  \<open>PostgresEventStore\<close>, \<open>services/task_service/infrastructure/event_store.py\<close>. The SQL of the class
  (the schema \<open>EVENT_STORE_SCHEMA\<close>, one INSERT, three SELECTs) is translated to list operations on
  the rows of the table in the order of insertion; the session is the state. A statement that the
  database rejects raises \<open>DBError\<close>; if the server rejected it, the transaction is aborted and every
  later statement of the session raises too, since the class never rolls back. The text-to-UUID
  conversion of the driver is a parameter, the field \<open>uuid_in\<close> of the session: the canonical form of a
  text that is a UUID. The JSONB column keeps the JSON value that \<open>json.dumps\<close> printed.
\<close>

section \<open>The table and the session\<close>

record row =
  row_id :: nat
  row_event_id :: string
  row_aggregate_id :: string
  row_event_type :: string
  row_event_data :: "(string \<times> json) list"
  row_version :: int
  row_user_id :: string
  row_occurred_at :: datetime
  row_metadata :: "(string \<times> string) list"

record db =
  uuid_in :: "string \<Rightarrow> string option"
  rows :: "row list"
  next_id :: nat
  aborted :: bool

definition db_error :: "string \<Rightarrow> 'a result" where
  "db_error msg = Inl (DBError msg)"

text \<open>A statement with a UUID parameter: the driver converts it before it sends anything.\<close>

definition with_uuid :: "string \<Rightarrow> db \<Rightarrow> (string \<Rightarrow> 'a result \<times> db) \<Rightarrow> 'a result \<times> db" where
  "with_uuid s d stmt = (case uuid_in d s of
     None \<Rightarrow> (db_error ''invalid UUID'', d)
   | Some u \<Rightarrow> if aborted d then (db_error ''current transaction is aborted'', d) else stmt u)"

text \<open>\<open>SELECT COALESCE(MAX(version), 0) ... WHERE aggregate_id = :aggregate_id\<close>\<close>

definition max_version :: "string \<Rightarrow> row list \<Rightarrow> int" where
  "max_version u rs = (case map row_version (filter (\<lambda>r. row_aggregate_id r = u) rs) of
     [] \<Rightarrow> 0 | v # vs \<Rightarrow> fold max vs v)"

definition get_current_version :: "string \<Rightarrow> db \<Rightarrow> int result \<times> db" where
  "get_current_version agg d = with_uuid agg d (\<lambda>u. (Inr (max_version u (rows d)), d))"

text \<open>
  \<open>INSERT\<close>: the columns \<open>version\<close> INTEGER, \<open>event_type\<close> and \<open>user_id\<close> VARCHAR(100), the unique
  \<open>event_id\<close> and the unique index on \<open>(aggregate_id, version)\<close>. The serial number is taken even when
  the row is rejected.
\<close>

definition fits_int32 :: "int \<Rightarrow> bool" where
  "fits_int32 v = (- (2 ^ 31) \<le> v \<and> v < 2 ^ 31)"

definition row_of_event :: "nat \<Rightarrow> string \<Rightarrow> string \<Rightarrow> task_event \<Rightarrow> row" where
  "row_of_event i eid u e = \<lparr>row_id = i, row_event_id = eid, row_aggregate_id = u,
     row_event_type = event_type e, row_event_data = event_to_dict e, row_version = ev_version e,
     row_user_id = (if user_id e = [] then ''system'' else user_id e),
     row_occurred_at = occurred_at e, row_metadata = ev_metadata e\<rparr>"

definition row_admissible :: "row \<Rightarrow> row list \<Rightarrow> bool" where
  "row_admissible r rs = (length (row_event_type r) \<le> 100 \<and> length (row_user_id r) \<le> 100
     \<and> row_event_id r \<notin> set (map row_event_id rs)
     \<and> (row_aggregate_id r, row_version r) \<notin> set (map (\<lambda>r. (row_aggregate_id r, row_version r)) rs))"

definition insert_event :: "string \<Rightarrow> task_event \<Rightarrow> db \<Rightarrow> unit result \<times> db" where
  "insert_event agg e d = with_uuid agg d (\<lambda>u. with_uuid (event_id e) d (\<lambda>eid.
     if \<not> fits_int32 (ev_version e) then (db_error ''value out of int32 range'', d)
     else let r = row_of_event (next_id d) eid u e in
       if row_admissible r (rows d) then (Inr (), d\<lparr>rows := rows d @ [r], next_id := next_id d + 1\<rparr>)
       else (db_error ''constraint violation'', d\<lparr>next_id := next_id d + 1, aborted := True\<rparr>)))"

fun insert_events :: "string \<Rightarrow> task_event list \<Rightarrow> db \<Rightarrow> unit result \<times> db" where
  "insert_events agg [] d = (Inr (), d)"
| "insert_events agg (e # es) d = (case insert_event agg e d of
     (Inl x, d') \<Rightarrow> (Inl x, d') | (Inr _, d') \<Rightarrow> insert_events agg es d')"

definition conflict_message :: "string \<Rightarrow> int \<Rightarrow> int \<Rightarrow> string" where
  "conflict_message agg expected current = ''Version conflict for aggregate '' @ [CHR 0x27] @ agg
     @ [CHR 0x27] @ '': expected '' @ str_of_int expected @ '', got '' @ str_of_int current"

definition save_events :: "string \<Rightarrow> task_event list \<Rightarrow> int \<Rightarrow> db \<Rightarrow> unit result \<times> db" where
  "save_events agg events expected d =
     (if events = [] then (Inr (), d)
      else (case get_current_version agg d of
          (Inl x, d) \<Rightarrow> (Inl x, d)
        | (Inr current, d) \<Rightarrow>
            if current \<noteq> expected then (Inl (ValueError (conflict_message agg expected current)), d)
            else insert_events agg events d))"

section \<open>Reading\<close>

definition deserialize_event :: "(string \<times> event_class) list \<Rightarrow> datetime \<Rightarrow> row \<Rightarrow> task_event option" where
  "deserialize_event registry now r = (case dict_get registry (row_event_type r) of
     None \<Rightarrow> None
   | Some cls \<Rightarrow> (case from_dict cls now (row_event_data r) of Inl _ \<Rightarrow> None | Inr e \<Rightarrow> Some e))"

definition get_events :: "(string \<times> event_class) list \<Rightarrow> datetime \<Rightarrow> string \<Rightarrow> int \<Rightarrow> db
    \<Rightarrow> task_event list result \<times> db" where
  "get_events registry now agg from_version d = with_uuid agg d (\<lambda>u.
     (Inr (List.map_filter (deserialize_event registry now)
        (sort_key row_version
          (filter (\<lambda>r. row_aggregate_id r = u \<and> row_version r > from_version) (rows d)))), d))"

definition get_all_events :: "(string \<times> event_class) list \<Rightarrow> datetime \<Rightarrow> int \<Rightarrow> int \<Rightarrow> db
    \<Rightarrow> task_event list result \<times> db" where
  "get_all_events registry now from_event_id limit d =
     (if aborted d then (db_error ''current transaction is aborted'', d)
      else if limit < 0 then (db_error ''LIMIT must not be negative'', d\<lparr>aborted := True\<rparr>)
      else (Inr (List.map_filter (deserialize_event registry now)
        (take (nat limit) (sort_key row_id
          (filter (\<lambda>r. int (row_id r) > from_event_id) (rows d))))), d))"

section \<open>The invariant of the table\<close>

definition db_ok :: "db \<Rightarrow> bool" where
  "db_ok d = (sorted_wrt (<) (map row_id (rows d)) \<and> (\<forall>r \<in> set (rows d). row_id r < next_id d)
     \<and> distinct (map row_event_id (rows d))
     \<and> distinct (map (\<lambda>r. (row_aggregate_id r, row_version r)) (rows d))
     \<and> (\<forall>r \<in> set (rows d). fits_int32 (row_version r) \<and> length (row_user_id r) \<le> 100))"

lemma insert_event_cases:
  assumes "insert_event agg e d = (res, d')"
  obtains (stored) u eid r where "res = Inr ()" "uuid_in d agg = Some u" "uuid_in d (event_id e) = Some eid"
      "\<not> aborted d" "fits_int32 (ev_version e)" "r = row_of_event (next_id d) eid u e"
      "row_admissible r (rows d)" "d' = d\<lparr>rows := rows d @ [r], next_id := next_id d + 1\<rparr>"
  | (rejected) x where "res = Inl (DBError x)" "rows d' = rows d" "next_id d \<le> next_id d'"
      "uuid_in d' = uuid_in d"
  using assms unfolding insert_event_def with_uuid_def db_error_def Let_def
  by (auto split: option.splits if_splits)

lemma db_ok_insert_event:
  assumes "db_ok d" "insert_event agg e d = (res, d')" shows "db_ok d'"
  using assms(2)
proof (cases rule: insert_event_cases)
  case (stored u eid r)
  have "\<forall>r' \<in> set (rows d). row_id r' < row_id r" "row_id r = next_id d" "row_version r = ev_version e"
    using assms(1) stored(6) by (simp_all add: db_ok_def row_of_event_def)
  then show ?thesis using assms(1) stored(5,7,8)
    by (auto simp: db_ok_def row_admissible_def sorted_wrt_append)
next
  case (rejected x)
  then show ?thesis using assms(1) by (fastforce simp: db_ok_def)
qed

lemma db_ok_insert_events:
  "db_ok d \<Longrightarrow> insert_events agg es d = (res, d') \<Longrightarrow> db_ok d'"
proof (induction agg es d rule: insert_events.induct)
  case (2 agg e es d)
  obtain r1 d1 where r1: "insert_event agg e d = (r1, d1)" by fastforce
  have "db_ok d1" using db_ok_insert_event "2.prems"(1) r1 by blast
  then show ?case using "2.IH" [OF r1 [symmetric]] "2.prems"(2) r1 by (auto split: sum.splits)
qed simp

lemma save_events_cases:
  assumes "save_events agg es v d = (res, d')"
  obtains (empty) "es = []" "res = Inr ()" "d' = d"
  | (failed) x where "es \<noteq> []" "res = Inl (DBError x)" "d' = d"
  | (conflict) u where "es \<noteq> []" "uuid_in d agg = Some u" "\<not> aborted d" "max_version u (rows d) \<noteq> v"
      "res = Inl (ValueError (conflict_message agg v (max_version u (rows d))))" "d' = d"
  | (insert) u where "es \<noteq> []" "uuid_in d agg = Some u" "\<not> aborted d" "max_version u (rows d) = v"
      "insert_events agg es d = (res, d')"
proof (cases "es = []")
  case True
  with assms show ?thesis using empty by (simp add: save_events_def)
next
  case ne: False
  show ?thesis
  proof (cases "uuid_in d agg = None \<or> aborted d")
    case True
    with assms ne show ?thesis using failed
      by (auto simp: save_events_def get_current_version_def with_uuid_def db_error_def
          split: option.splits)
  next
    case False
    then obtain u where u: "uuid_in d agg = Some u" "\<not> aborted d" by auto
    note def = assms [unfolded save_events_def get_current_version_def with_uuid_def]
    show ?thesis
    proof (cases "max_version u (rows d) = v")
      case True
      then have "insert_events agg es d = (res, d')" using def ne u by simp
      with ne u True show ?thesis by (rule insert)
    next
      case False
      then have "res = Inl (ValueError (conflict_message agg v (max_version u (rows d))))" "d' = d"
        using def ne u by auto
      with ne u False show ?thesis by (rule conflict)
    qed
  qed
qed

lemma db_ok_save: "db_ok d \<Longrightarrow> save_events agg es v d = (res, d') \<Longrightarrow> db_ok d'"
  by (erule save_events_cases) (auto intro: db_ok_insert_events)

text \<open>The rows a successful insertion adds.\<close>

lemma insert_events_ok:
  assumes "insert_events agg es d = (Inr (), d')" "uuid_in d agg = Some u"
  shows "\<exists>rs. rows d' = rows d @ rs \<and> uuid_in d' = uuid_in d \<and> (es \<noteq> [] \<longrightarrow> \<not> aborted d')
    \<and> list_all2 (\<lambda>e r. \<exists>i eid. r = row_of_event i eid u e \<and> fits_int32 (ev_version e)) es rs"
  using assms
proof (induction agg es d rule: insert_events.induct)
  case (1 agg d)
  then show ?case by simp
next
  case (2 agg e es d)
  then obtain d1 where d1: "insert_event agg e d = (Inr (), d1)" "insert_events agg es d1 = (Inr (), d')"
    by (auto split: prod.splits sum.splits)
  from d1(1) obtain eid where s: "fits_int32 (ev_version e)" "\<not> aborted d"
    "d1 = d\<lparr>rows := rows d @ [row_of_event (next_id d) eid u e], next_id := next_id d + 1\<rparr>"
    by (cases rule: insert_event_cases) (use "2.prems"(2) in auto)
  have ab: "es = [] \<Longrightarrow> \<not> aborted d'" using d1(2) s(2,3) by auto
  from "2.IH" [OF d1(1) [symmetric]] d1(2) s(3) "2.prems"(2)
  obtain rs where rs: "rows d' = rows d1 @ rs" "uuid_in d' = uuid_in d" "es \<noteq> [] \<longrightarrow> \<not> aborted d'"
    "list_all2 (\<lambda>e r. \<exists>i eid. r = row_of_event i eid u e \<and> fits_int32 (ev_version e)) es rs"
    by auto
  then show ?case using s ab
    by (intro exI [of _ "row_of_event (next_id d) eid u e # rs"]) (auto simp: s(3))
qed

lemma insert_events_prefix:
  "insert_events agg es d = (res, d') \<Longrightarrow> \<exists>rs. rows d' = rows d @ rs \<and> uuid_in d' = uuid_in d"
proof (induction agg es d rule: insert_events.induct)
  case (2 agg e es d)
  obtain r1 d1 where r1: "insert_event agg e d = (r1, d1)" by fastforce
  have "\<exists>rs. rows d1 = rows d @ rs \<and> uuid_in d1 = uuid_in d"
    using r1 by (cases rule: insert_event_cases) auto
  then show ?case using "2.IH" [OF r1 [symmetric]] "2.prems" r1 by (force split: sum.splits)
qed simp

end
