(* ===== verification/Optimistic_Store.thy ===== *)
theory Optimistic_Store
  imports Prelude
begin

text \<open>
  The interface the write side relies on: an event store with optimistic concurrency control, the
  abstract class \<open>EventStore\<close> of \<open>libs/common/unit_of_work.py\<close>. A client hands over events together
  with the version it has read; the store must take them only if that is still the current version.
  The laws are enough for the client lemma: a writer that lost a race is refused, whatever other
  writers did in between.
\<close>

text \<open>A sequence of requests: the aggregate, its events, the expected version.\<close>

fun run_saves :: "(string \<Rightarrow> 'e list \<Rightarrow> int \<Rightarrow> 's \<Rightarrow> unit result \<times> 's)
    \<Rightarrow> (string \<times> 'e list \<times> int) list \<Rightarrow> 's \<Rightarrow> 's" where
  "run_saves save [] s = s"
| "run_saves save ((a, es, v) # reqs) s = run_saves save reqs (snd (save a es v s))"

locale optimistic_store =
  fixes save :: "string \<Rightarrow> 'e list \<Rightarrow> int \<Rightarrow> 's \<Rightarrow> unit result \<times> 's"
    and current :: "'s \<Rightarrow> string \<Rightarrow> int"
    and inv :: "'s \<Rightarrow> bool"
    and stamped :: "int \<Rightarrow> 'e list \<Rightarrow> bool"
  assumes inv_save: "inv s \<Longrightarrow> stamped v es \<Longrightarrow> save a es v s = (r, s') \<Longrightarrow> inv s'"
    and accept_current: "es \<noteq> [] \<Longrightarrow> save a es v s = (Inr (), s') \<Longrightarrow> current s a = v"
    and accept_advances: "inv s \<Longrightarrow> stamped v es \<Longrightarrow> save a es v s = (Inr (), s')
      \<Longrightarrow> es \<noteq> [] \<Longrightarrow> current s' a = v + int (length es)"
    and current_mono: "inv s \<Longrightarrow> stamped v es \<Longrightarrow> save b es v s = (r, s') \<Longrightarrow> current s a \<le> current s' a"
begin

lemma run_saves_mono:
  "inv s \<Longrightarrow> \<forall>(b, es, v) \<in> set reqs. stamped v es
    \<Longrightarrow> inv (run_saves save reqs s) \<and> current s a \<le> current (run_saves save reqs s) a"
proof (induction reqs arbitrary: s)
  case (Cons req reqs)
  obtain b es v where req: "req = (b, es, v)" by (cases req)
  obtain r s' where s': "save b es v s = (r, s')" by fastforce
  have "inv s'" "current s a \<le> current s' a"
    using Cons.prems inv_save [OF _ _ s'] current_mono [OF _ _ s'] by (auto simp: req)
  with Cons.IH [of s'] Cons.prems(2) show ?case by (force simp: req s')
qed simp

text \<open>No lost update: after one accepted request, a request with the same expected version fails.\<close>

lemma stale_writer_refused:
  assumes "inv s" "stamped v es" "es \<noteq> []" "save a es v s = (Inr (), s1)"
    and "\<forall>(b, es, v) \<in> set reqs. stamped v es"
    and "es' \<noteq> []" "save a es' v (run_saves save reqs s1) = (r, s2)"
  shows "r \<noteq> Inr ()"
proof
  assume "r = Inr ()"
  then have "current (run_saves save reqs s1) a = v" using accept_current assms(6,7) by blast
  moreover have "v + int (length es) \<le> current (run_saves save reqs s1) a"
    using accept_advances [OF assms(1,2,4,3)] run_saves_mono [OF inv_save [OF assms(1,2,4)] assms(5)]
    by metis
  moreover have "0 < length es" using assms(3) by simp
  ultimately show False by linarith
qed

end

end
