(* ===== verification/Event_Store_Facts.thy ===== *)
theory Event_Store_Facts
  imports Event_Store Optimistic_Store
begin

text \<open>
  The event store keeps the invariant of its table, implements optimistic concurrency control, and
  returns what was saved.
\<close>

section \<open>The invariant\<close>


section \<open>Optimistic concurrency\<close>

text \<open>The events carry the versions that follow the expected one.\<close>

definition stamped_from :: "int \<Rightarrow> task_event list \<Rightarrow> bool" where
  "stamped_from v es = (0 \<le> v \<and> map ev_version es = [v + 1..v + int (length es)])"

definition positive_versions :: "db \<Rightarrow> bool" where
  "positive_versions d = (\<forall>r \<in> set (rows d). 0 < row_version r)"

definition store_version :: "db \<Rightarrow> string \<Rightarrow> int" where
  "store_version d a = (case uuid_in d a of None \<Rightarrow> 0 | Some u \<Rightarrow> max_version u (rows d))"

lemma fold_max_ge_start: "x \<le> fold max xs (x::int)"
  by (induction xs arbitrary: x) (auto intro: order_trans [OF max.cobounded2])

lemma fold_max_ge: "y \<in> set xs \<Longrightarrow> y \<le> fold max xs (x::int)"
proof (induction xs arbitrary: x)
  case (Cons z zs)
  have "z \<le> fold max zs (max z x)" using fold_max_ge_start [of "max z x" zs] by linarith
  with Cons show ?case by auto
qed simp

lemma fold_max_in: "fold max xs (x::int) \<in> insert x (set xs)"
proof (induction xs arbitrary: x)
  case (Cons y ys)
  from Cons [of "max y x"] show ?case by (auto simp: max_def split: if_splits)
qed simp

lemma max_version_ge:
  "r \<in> set rs \<Longrightarrow> row_aggregate_id r = u \<Longrightarrow> row_version r \<le> max_version u rs"
proof -
  assume "r \<in> set rs" "row_aggregate_id r = u"
  then have "row_version r \<in> set (map row_version (filter (\<lambda>r. row_aggregate_id r = u) rs))" by auto
  then show ?thesis unfolding max_version_def
    by (cases "map row_version (filter (\<lambda>r. row_aggregate_id r = u) rs)")
      (auto simp: fold_max_ge fold_max_ge_start)
qed

lemma max_version_in:
  "max_version u rs = 0 \<or> (\<exists>r \<in> set rs. row_aggregate_id r = u \<and> row_version r = max_version u rs)"
proof (cases "map row_version (filter (\<lambda>r. row_aggregate_id r = u) rs)")
  case Nil
  then show ?thesis by (simp add: max_version_def)
next
  case (Cons v vs)
  have "max_version u rs = fold max vs v" unfolding max_version_def Cons by simp
  then have "max_version u rs \<in> set (map row_version (filter (\<lambda>r. row_aggregate_id r = u) rs))"
    unfolding Cons using fold_max_in [of vs v] by simp
  then obtain r where "r \<in> set rs" "row_aggregate_id r = u" "max_version u rs = row_version r"
    by auto
  then show ?thesis by (intro disjI2 bexI [of _ r]) simp_all
qed

lemma max_version_append_mono:
  assumes "\<forall>r \<in> set (rs @ rs'). 0 < row_version r"
  shows "max_version u rs \<le> max_version u (rs @ rs')"
proof (cases "max_version u rs = 0")
  case True
  show ?thesis using max_version_in [of u "rs @ rs'"] assms True by (metis less_imp_le order_refl)
next
  case False
  then obtain r where "r \<in> set rs" "row_aggregate_id r = u" "row_version r = max_version u rs"
    using max_version_in by blast
  then show ?thesis using max_version_ge [of r "rs @ rs'" u] by simp
qed

lemma insert_events_positive:
  "insert_events a es d = (r, d') \<Longrightarrow> positive_versions d \<Longrightarrow> \<forall>e \<in> set es. 0 < ev_version e
    \<Longrightarrow> positive_versions d'"
proof (induction a es d rule: insert_events.induct)
  case (2 a e es d)
  obtain r1 d1 where r1: "insert_event a e d = (r1, d1)" by fastforce
  have "positive_versions d1"
    using r1 "2.prems"(2,3)
    by (cases rule: insert_event_cases) (auto simp: positive_versions_def row_of_event_def)
  then show ?case using "2.IH" [OF r1 [symmetric]] "2.prems" r1 by (auto split: sum.splits)
qed simp

lemma stamped_positive: "stamped_from v es \<Longrightarrow> e \<in> set es \<Longrightarrow> 0 < ev_version e"
proof -
  assume s: "stamped_from v es" and "e \<in> set es"
  then have "ev_version e \<in> set [v + 1..v + int (length es)]"
    unfolding stamped_from_def by (metis image_eqI list.set_map)
  then show ?thesis using s by (simp add: stamped_from_def)
qed

lemma save_events_rows:
  assumes "save_events a es v d = (r, d')"
  shows "\<exists>rs. rows d' = rows d @ rs \<and> uuid_in d' = uuid_in d"
  using assms by (cases rule: save_events_cases) (auto dest: insert_events_prefix)

lemma save_events_positive:
  assumes "save_events a es v d = (r, d')" "positive_versions d" "stamped_from v es"
  shows "positive_versions d'"
  using assms(1) by (cases rule: save_events_cases)
    (use assms stamped_positive insert_events_positive in auto)

lemma max_version_saved:
  assumes "list_all2 (\<lambda>e r. \<exists>i eid. r = row_of_event i eid u e \<and> fits_int32 (ev_version e)) es rs"
    and "max_version u (rows d) = v" "stamped_from v es" "es \<noteq> []"
  shows "max_version u (rows d @ rs) = v + int (length es)"
proof -
  have vs: "map row_version rs = map ev_version es" "\<forall>r \<in> set rs. row_aggregate_id r = u"
    using assms(1) by (induction rule: list_all2_induct) (auto simp: row_of_event_def)
  then have vs': "set (map row_version rs) = set [v + 1..v + int (length es)]"
    using assms(3) by (simp add: stamped_from_def)
  have pos: "0 < length es" using assms(4) by simp
  then have "v + int (length es) \<in> set (map row_version rs)" unfolding vs' by (simp add: Suc_leI)
  then obtain r where "r \<in> set rs" "row_version r = v + int (length es)" by auto
  then have ge: "v + int (length es) \<le> max_version u (rows d @ rs)"
    using max_version_ge [of r "rows d @ rs" u] vs(2) by auto
  have "r \<in> set rs \<Longrightarrow> row_version r \<le> v + int (length es)" for r
    using vs' by (metis atLeastAtMost_iff image_eqI list.set_map set_upto)
  moreover have "r \<in> set (rows d) \<Longrightarrow> row_aggregate_id r = u \<Longrightarrow> row_version r \<le> v" for r
    using max_version_ge assms(2) by blast
  moreover have "0 \<le> v" using assms(3) by (simp add: stamped_from_def)
  ultimately have "max_version u (rows d @ rs) \<le> v + int (length es)"
    using max_version_in [of u "rows d @ rs"] pos by force
  with ge show ?thesis by simp
qed

interpretation pg: optimistic_store save_events store_version "\<lambda>d. db_ok d \<and> positive_versions d" stamped_from
proof unfold_locales
  fix d d' :: db and v es a b r
  assume inv: "db_ok d \<and> positive_versions d" and st: "stamped_from v es"
  show "db_ok d' \<and> positive_versions d'" if "save_events a es v d = (r, d')"
    using that inv st db_ok_save save_events_positive by blast
  show "store_version d a \<le> store_version d' a" if sv: "save_events b es v d = (r, d')"
  proof -
    obtain rs where "rows d' = rows d @ rs" "uuid_in d' = uuid_in d"
      using save_events_rows [OF sv] by blast
    moreover have "positive_versions d'" using sv inv st save_events_positive by blast
    ultimately show ?thesis
      by (auto simp: store_version_def positive_versions_def intro!: max_version_append_mono
          split: option.splits)
  qed
  show "store_version d' a = v + int (length es)"
    if sv: "save_events a es v d = (Inr (), d')" and ne: "es \<noteq> []"
    using sv
  proof (cases rule: save_events_cases)
    case (insert u)
    from insert_events_ok [OF insert(5,2)] obtain rs where "rows d' = rows d @ rs"
      "uuid_in d' = uuid_in d"
      "list_all2 (\<lambda>e r. \<exists>i eid. r = row_of_event i eid u e \<and> fits_int32 (ev_version e)) es rs"
      by blast
    then show ?thesis using max_version_saved [OF _ insert(4) st ne] insert(2)
      by (simp add: store_version_def)
  qed (use ne in auto)
next
  fix d d' :: db and v es a
  assume "es \<noteq> []" "save_events a es v d = (Inr (), d')"
  then show "store_version d a = v"
    by (elim save_events_cases) (auto simp: store_version_def)
qed

text \<open>C5: No lost update: once a save with expected version \<open>v\<close> has been accepted, no later save with the
  same expected version is accepted for that aggregate, whatever other saves were attempted in
  between, as long as every writer numbers its events from its expected version on.\<close>

theorem stale_save_refused:
  assumes "db_ok d" "positive_versions d" "stamped_from v es" "es \<noteq> []"
    and "save_events a es v d = (Inr (), d1)"
    and "\<forall>(b, es, v) \<in> set reqs. stamped_from v es"
    and "es' \<noteq> []"
  shows "fst (save_events a es' v (run_saves save_events reqs d1)) \<noteq> Inr ()"
  using pg.stale_writer_refused [of d v es a d1 reqs es'] assms by (metis prod.collapse)

section \<open>Reading back\<close>

lemma deserialize_stored:
  assumes "storable e"
  shows "deserialize_event EVENT_REGISTRY now (row_of_event i eid u e) = Some (stored now e)"
  using assms roundtrip_stored [OF assms, of now]
  by (simp add: deserialize_event_def row_of_event_def storable_def typed_event_def)

lemma insort_key_append:
  "\<forall>y \<in> set ys. f x \<le> f y \<Longrightarrow> insort_key f x (zs @ ys) = insort_key f x zs @ ys"
  by (induction zs) (cases ys; auto)+

lemma sort_key_append:
  assumes "sorted (map f ys)" "\<forall>x \<in> set xs. \<forall>y \<in> set ys. f x \<le> f y"
  shows "sort_key f (xs @ ys) = sort_key f xs @ ys"
  using assms by (induction xs) (auto simp: sort_key_id_if_sorted insort_key_append)

lemma map_filter_append: "List.map_filter f (xs @ ys) = List.map_filter f xs @ List.map_filter f ys"
  by (induction xs) (auto split: option.split)

lemma filter_rows_of_events:
  assumes "list_all2 (\<lambda>e r. \<exists>i eid. r = row_of_event i eid u e \<and> fits_int32 (ev_version e)) es rs"
    and "\<forall>e \<in> set es. storable e"
  shows "List.map_filter (deserialize_event EVENT_REGISTRY now)
      (filter (\<lambda>r. row_aggregate_id r = u \<and> row_version r > n) rs)
    = map (stored now) (filter (\<lambda>e. ev_version e > n) es)
    \<and> map row_version (filter (\<lambda>r. row_aggregate_id r = u \<and> row_version r > n) rs)
      = filter (\<lambda>v. v > n) (map ev_version es)"
  using assms
proof (induction rule: list_all2_induct)
  case (Cons e es r rs)
  then obtain i eid where r: "r = row_of_event i eid u e" by blast
  have "row_aggregate_id r = u" "row_version r = ev_version e"
    by (simp_all add: r row_of_event_def)
  then show ?case using Cons deserialize_stored [of e now i eid u] by (auto simp: r)
qed simp

lemma get_after_save:
  assumes "save_events a es v d = (Inr (), d')" and "es \<noteq> []" and "stamped_from v es"
    and "\<forall>e \<in> set es. storable e"
    and "get_events EVENT_REGISTRY now a n d = (Inr old, d)"
  shows "get_events EVENT_REGISTRY now a n d'
    = (Inr (old @ map (stored now) (filter (\<lambda>e. ev_version e > n) es)), d')"
  using assms(1)
proof (cases rule: save_events_cases)
  case (insert u)
  obtain rs where rs: "rows d' = rows d @ rs" "uuid_in d' = uuid_in d" "\<not> aborted d'"
    "list_all2 (\<lambda>e r. \<exists>i eid. r = row_of_event i eid u e \<and> fits_int32 (ev_version e)) es rs"
    using insert_events_ok [OF insert(5,2)] assms(2) by blast
  let ?sel = "filter (\<lambda>r. row_aggregate_id r = u \<and> row_version r > n)"
  note new = filter_rows_of_events [OF rs(4) assms(4), of now n]
  have vs: "map row_version (?sel rs) = filter (\<lambda>v. v > n) [v + 1..v + int (length es)]"
    using new assms(3) by (simp add: stamped_from_def)
  have "sorted (map row_version (?sel rs))"
    unfolding vs by (intro sorted_wrt_filter) simp
  moreover have "\<forall>x \<in> set (?sel (rows d)). \<forall>y \<in> set (?sel rs). row_version x \<le> row_version y"
  proof (intro ballI)
    fix x y assume x: "x \<in> set (?sel (rows d))" and "y \<in> set (?sel rs)"
    then have "row_version y \<in> set (map row_version (?sel rs))" by auto
    then have "v < row_version y" unfolding vs by auto
    moreover have "row_version x \<le> v" using x max_version_ge [of x "rows d" u] insert(4) by auto
    ultimately show "row_version x \<le> row_version y" by simp
  qed
  ultimately have "sort_key row_version (?sel (rows d @ rs)) = sort_key row_version (?sel (rows d)) @ ?sel rs"
    by (simp add: sort_key_append)
  then show ?thesis using assms(5) new insert(2,3) rs(1-3)
    by (simp add: get_events_def with_uuid_def map_filter_append)
qed (use assms(2) in auto)

text \<open>C22: What was saved is what is read: after a save was accepted, reading the aggregate from any
  version on returns what it returned before followed by the new events of later versions, in order,
  each as its round trip through the stored JSON leaves it.\<close>

theorem save_then_get:
  assumes "save_events a es v d = (Inr (), d')" and "es \<noteq> []" and "stamped_from v es"
    and "\<forall>e \<in> set es. storable e"
    and "get_events EVENT_REGISTRY now a n d = (Inr old, d)"
  shows "get_events EVENT_REGISTRY now a n d'
    = (Inr (old @ map (stored now) (filter (\<lambda>e. ev_version e > n) es)), d')"
  by (rule get_after_save [OF assms])

end
