(* ===== verification/Demo.thy ===== *)
theory Demo
  imports Optimistic_Store Value_Objects
begin

text \<open>
  The self-contained demonstration \<open>src/main.py\<close>: its own status and priority enumerations, an event
  record with a data dictionary, an in-memory event store, an aggregate, and the script \<open>demo\<close>. Its
  event class is not frozen, so its aggregate can record events. Event ids and times play no role in
  its logic; they are arguments of the constructor and are kept.
\<close>

section \<open>Enumerations\<close>

fun demo_valid :: "task_status \<Rightarrow> task_status list" where
  "demo_valid BACKLOG = [TODO, ARCHIVED]"
| "demo_valid TODO = [IN_PROGRESS, BACKLOG]"
| "demo_valid IN_PROGRESS = [IN_REVIEW, DONE, TODO]"
| "demo_valid IN_REVIEW = [DONE, IN_PROGRESS, TODO]"
| "demo_valid DONE = [ARCHIVED, TODO]"
| "demo_valid ARCHIVED = [BACKLOG]"

text \<open>
  The members of \<open>TaskStatus\<close> and \<open>TaskPriority\<close> and their values are those of the service, so the
  model shares the datatypes; the transition table is the demo's own.
\<close>

definition demo_can_transition_to :: "task_status \<Rightarrow> task_status \<Rightarrow> bool" where
  "demo_can_transition_to s target = (target \<in> set (demo_valid s))"

section \<open>Events and the store\<close>

record demo_event =
  de_event_id :: string
  de_aggregate_id :: string
  de_event_type :: string
  de_version :: int
  de_occurred_at :: datetime
  de_data :: "(string \<times> string) list"

text \<open>\<open>_events: Dict[str, List[DomainEvent]]\<close>\<close>

type_synonym demo_store = "(string, demo_event list) dict"

definition demo_events :: "demo_store \<Rightarrow> string \<Rightarrow> demo_event list" where
  "demo_events st a = (case dict_get st a of None \<Rightarrow> [] | Some es \<Rightarrow> es)"

definition demo_save_events :: "string \<Rightarrow> demo_event list \<Rightarrow> int \<Rightarrow> demo_store \<Rightarrow> unit result \<times> demo_store" where
  "demo_save_events a es expected st =
     (let current = int (length (demo_events st a)) in
      if current \<noteq> expected then
        (Inl (ValueError (''VERSION CONFLICT: expected v'' @ str_of_int expected @ '', current v''
           @ str_of_int current)), st)
      else (let st = (if dict_get st a = None then dict_set a [] st else st) in
        (Inr (), dict_set a (demo_events st a @ es) st)))"

section \<open>The aggregate\<close>

record demo_task =
  d_aggregate_id :: string
  d_title :: string
  d_priority :: task_priority
  d_status :: task_status
  d_assignee_id :: "string option"
  d_version :: int
  d_uncommitted :: "demo_event list"

definition demo_task_new :: "string \<Rightarrow> demo_task" where
  "demo_task_new i = \<lparr>d_aggregate_id = i, d_title = [], d_priority = MEDIUM, d_status = BACKLOG,
     d_assignee_id = None, d_version = 0, d_uncommitted = []\<rparr>"

text \<open>\<open>event.data[key]\<close>\<close>

definition data_at :: "demo_event \<Rightarrow> string \<Rightarrow> string result" where
  "data_at e k = (case dict_get (de_data e) k of None \<Rightarrow> Inl (KeyError k) | Some v \<Rightarrow> Inr v)"

definition demo_apply :: "demo_task \<Rightarrow> demo_event \<Rightarrow> demo_task effect" where
  "demo_apply s e =
     seq_eff
       (if de_event_type e = ''task.created'' then
          seq_eff (set_eff (data_at e ''title'') (\<lambda>v s. s\<lparr>d_title := v\<rparr>) s)
            (set_eff (bind_r (data_at e ''priority'') task_priority_of) (\<lambda>v s. s\<lparr>d_priority := v\<rparr>))
        else if de_event_type e = ''task.assigned'' then
          set_eff (data_at e ''new'') (\<lambda>v s. s\<lparr>d_assignee_id := Some v\<rparr>) s
        else if de_event_type e = ''task.status_changed'' then
          set_eff (bind_r (data_at e ''to'') task_status_of) (\<lambda>v s. s\<lparr>d_status := v\<rparr>) s
        else done_eff s)
       (\<lambda>s. done_eff (s\<lparr>d_version := de_version e\<rparr>))"

definition demo_event_new :: "string \<Rightarrow> datetime \<Rightarrow> demo_task \<Rightarrow> string \<Rightarrow> (string \<times> string) list \<Rightarrow> demo_event" where
  "demo_event_new eid now s ty data = \<lparr>de_event_id = eid, de_aggregate_id = d_aggregate_id s,
     de_event_type = ty, de_version = d_version s + 1, de_occurred_at = now, de_data = data\<rparr>"

text \<open>\<open>self._apply(e); self._uncommitted.append(e)\<close>\<close>

definition demo_record :: "demo_task \<Rightarrow> demo_event \<Rightarrow> demo_task effect" where
  "demo_record s e = seq_eff (demo_apply s e) (\<lambda>s. done_eff (s\<lparr>d_uncommitted := d_uncommitted s @ [e]\<rparr>))"

definition demo_create :: "string \<Rightarrow> datetime \<Rightarrow> string \<Rightarrow> string \<Rightarrow> string \<Rightarrow> string \<Rightarrow> demo_task
    \<Rightarrow> demo_task effect" where
  "demo_create eid now t description p created_by s = demo_record s
     (demo_event_new eid now s ''task.created'' [(''title'', t), (''priority'', p)])"

definition demo_assign :: "string \<Rightarrow> datetime \<Rightarrow> string \<Rightarrow> demo_task \<Rightarrow> demo_task effect" where
  "demo_assign eid now new_assignee s = (if d_assignee_id s = Some new_assignee then done_eff s
     else demo_record s (demo_event_new eid now s ''task.assigned'' [(''new'', new_assignee)]))"

definition demo_change_status :: "string \<Rightarrow> datetime \<Rightarrow> string \<Rightarrow> demo_task \<Rightarrow> demo_task effect" where
  "demo_change_status eid now new_status s = (case task_status_of new_status of
     Inl e \<Rightarrow> raise_eff e s
   | Inr target \<Rightarrow>
       if \<not> demo_can_transition_to (d_status s) target
       then raise_eff (ValueError (''Cannot transition '' @ status_value (d_status s) @ '' to ''
              @ status_value target)) s
       else demo_record s (demo_event_new eid now s ''task.status_changed'' [(''to'', status_value target)]))"

definition demo_mark_committed :: "demo_task \<Rightarrow> demo_task" where
  "demo_mark_committed s = s\<lparr>d_uncommitted := []\<rparr>"

section \<open>The store is an optimistic store\<close>

definition demo_version :: "demo_store \<Rightarrow> string \<Rightarrow> int" where
  "demo_version st a = int (length (demo_events st a))"

lemma demo_events_set [simp]:
  "demo_events (dict_set a es st) b = (if b = a then es else demo_events st b)"
  by (simp add: demo_events_def dict_get_set)

lemma demo_events_missing: "dict_get st a = None \<Longrightarrow> demo_events st a = []"
  by (simp add: demo_events_def)

lemma demo_save_events_spec:
  "demo_save_events a es v st = (r, st') \<Longrightarrow>
     (if demo_version st a = v then r = Inr () else \<exists>m. r = Inl (ValueError m))
   \<and> demo_events st' b = (if demo_version st a = v \<and> b = a then demo_events st a @ es else demo_events st b)"
  by (auto simp: demo_save_events_def demo_version_def Let_def demo_events_missing split: if_splits)

interpretation mem: optimistic_store demo_save_events demo_version "\<lambda>st. True" "\<lambda>v es. True"
proof unfold_locales
  fix st st' :: demo_store and v es a b r
  show "demo_version st a = v" if "demo_save_events a es v st = (Inr (), st')"
    using demo_save_events_spec [OF that, where b = a] by (auto split: if_splits)
  show "demo_version st' a = v + int (length es)" if "demo_save_events a es v st = (Inr (), st')"
    using demo_save_events_spec [OF that, where b = a] by (auto simp: demo_version_def split: if_splits)
  show "demo_version st a \<le> demo_version st' a" if "demo_save_events b es v st = (r, st')"
    using demo_save_events_spec [OF that, where b = a] by (auto simp: demo_version_def split: if_splits)
qed simp

text \<open>The in-memory store of the demo never loses an update either: after a save with expected
  version \<open>v\<close> was accepted, a later save of events with the same expected version is refused, whatever
  other saves ran in between; no assumption on the events is needed, since the store counts them.\<close>

theorem demo_stale_save_refused:
  assumes "es \<noteq> []" "es' \<noteq> []" "demo_save_events a es v st = (Inr (), st1)"
  shows "\<exists>m. fst (demo_save_events a es' v (run_saves demo_save_events reqs st1)) = Inl (ValueError m)"
proof -
  obtain r st2 where r: "demo_save_events a es' v (run_saves demo_save_events reqs st1) = (r, st2)"
    by fastforce
  have "r \<noteq> Inr ()"
    by (rule mem.stale_writer_refused [OF _ _ assms(1,3) _ assms(2) r]) auto
  then show ?thesis using demo_save_events_spec [OF r, where b = a] r by (auto split: if_splits)
qed

section \<open>The history of a demo task\<close>

text \<open>
  The operations a client can run on one task, as an inductive predicate: \<open>demo_run i h s\<close> says that
  \<open>s\<close> is a task with id \<open>i\<close> obtained by operations that returned, and \<open>h\<close> are the events that were
  marked as committed, in order.
\<close>

inductive demo_run :: "string \<Rightarrow> demo_event list \<Rightarrow> demo_task \<Rightarrow> bool" where
  start: "demo_run i [] (demo_task_new i)"
| create: "demo_run i h s \<Longrightarrow> demo_create eid now t d p u s = (s', None) \<Longrightarrow> demo_run i h s'"
| assign: "demo_run i h s \<Longrightarrow> demo_assign eid now w s = (s', None) \<Longrightarrow> demo_run i h s'"
| change_status: "demo_run i h s \<Longrightarrow> demo_change_status eid now st s = (s', None) \<Longrightarrow> demo_run i h s'"
| commit: "demo_run i h s \<Longrightarrow> demo_run i (h @ d_uncommitted s) (demo_mark_committed s)"

fun demo_replay :: "demo_event list \<Rightarrow> demo_task \<Rightarrow> demo_task effect" where
  "demo_replay [] s = done_eff s"
| "demo_replay (e # es) s = seq_eff (demo_apply s e) (demo_replay es)"

definition demo_history :: "demo_event list \<Rightarrow> demo_task \<Rightarrow> bool" where
  "demo_history h s = (demo_replay h (demo_task_new (d_aggregate_id s)) = (demo_mark_committed s, None)
     \<and> map de_version h = [1..d_version s] \<and> 0 \<le> d_version s)"

lemma demo_replay_append: "demo_replay (es @ es') s = seq_eff (demo_replay es s) (demo_replay es')"
  by (induction es arbitrary: s) (auto simp: done_eff_def seq_eff_def split: prod.splits option.splits)

lemma demo_apply_framed:
  "demo_apply (s\<lparr>d_uncommitted := u\<rparr>) e = (case demo_apply s e of (s', x) \<Rightarrow> (s'\<lparr>d_uncommitted := u\<rparr>, x))"
  by (auto simp: demo_apply_def seq_eff_def set_eff_def done_eff_def split: sum.splits)

lemma demo_apply_fields:
  "demo_apply s e = (s', None) \<Longrightarrow> d_version s' = de_version e \<and> d_aggregate_id s' = d_aggregate_id s
    \<and> d_uncommitted s' = d_uncommitted s"
  by (auto simp: demo_apply_def seq_eff_None_iff set_eff_None_iff done_eff_def split: if_splits)

lemma upto_Suc_snoc: "0 \<le> (n::int) \<Longrightarrow> [1..n] @ [n + 1] = [1..n + 1]"
  using upto_rec2 [of 1 "n + 1"] by simp

lemma demo_record_history:
  assumes h: "demo_history (h @ d_uncommitted s) s" and r: "demo_record s e = (s', None)"
    and v: "de_version e = d_version s + 1"
  shows "demo_history (h @ d_uncommitted s') s'" "d_aggregate_id s' = d_aggregate_id s"
proof -
  from r obtain a where a: "demo_apply s e = (a, None)"
    and s': "s' = a\<lparr>d_uncommitted := d_uncommitted a @ [e]\<rparr>"
    by (auto simp: demo_record_def seq_eff_None_iff done_eff_def)
  note f = demo_apply_fields [OF a]
  show "d_aggregate_id s' = d_aggregate_id s" using f s' by simp
  have "demo_apply (demo_mark_committed s) e = (demo_mark_committed s', None)"
    using a s' by (simp add: demo_mark_committed_def demo_apply_framed)
  then show "demo_history (h @ d_uncommitted s') s'"
    using h f v s' upto_Suc_snoc [of "d_version s"]
    by (simp add: demo_history_def demo_replay_append append_assoc [symmetric] done_eff_def
        del: append_assoc)
qed

lemma demo_step_history:
  assumes "demo_history (h @ d_uncommitted s) s"
    and "demo_create eid now t d p u s = (s', None) \<or> demo_assign eid now w s = (s', None)
      \<or> demo_change_status eid now st s = (s', None)"
  shows "demo_history (h @ d_uncommitted s') s' \<and> d_aggregate_id s' = d_aggregate_id s"
  using assms demo_record_history [OF assms(1)]
  by (auto simp: demo_create_def demo_assign_def demo_change_status_def done_eff_def raise_eff_def
      demo_event_new_def split: sum.splits if_splits)

lemma demo_run_history: "demo_run i h s \<Longrightarrow> demo_history (h @ d_uncommitted s) s \<and> d_aggregate_id s = i"
proof (induction rule: demo_run.induct)
  case (start i)
  then show ?case
    by (simp add: demo_history_def demo_task_new_def demo_mark_committed_def done_eff_def)
next
  case (commit i h s)
  then show ?case by (auto simp: demo_history_def demo_mark_committed_def)
qed (use demo_step_history in blast)+

text \<open>Event sourcing in the demo: whatever operations that returned were run on a task, and however
  they were interleaved with commits, if the store holds the committed events then saving the
  uncommitted ones at the version the task had before them is accepted, and replaying the events that
  the store then holds gives the live task.\<close>

theorem demo_save_and_replay:
  assumes "demo_run i h s" and "demo_events st i = h"
  shows "\<exists>st'. demo_save_events i (d_uncommitted s) (d_version s - int (length (d_uncommitted s))) st = (Inr (), st')
    \<and> demo_replay (demo_events st' i) (demo_task_new i) = (demo_mark_committed s, None)"
proof -
  let ?v = "d_version s - int (length (d_uncommitted s))"
  obtain r st' where r: "demo_save_events i (d_uncommitted s) ?v st = (r, st')" by fastforce
  from demo_run_history [OF assms(1)] have hist: "demo_history (h @ d_uncommitted s) s"
    and i: "d_aggregate_id s = i" by auto
  have "length (map de_version (h @ d_uncommitted s)) = nat (d_version s)"
    using hist unfolding demo_history_def by simp
  then have "int (length h + length (d_uncommitted s)) = d_version s"
    using hist by (simp only: length_map length_append demo_history_def) simp
  then have "int (length h) = ?v" by simp
  then have "demo_version st i = ?v" using assms(2) by (simp add: demo_version_def)
  then show ?thesis using demo_save_events_spec [OF r, of i] r hist i assms(2)
    by (simp add: demo_history_def)
qed

section \<open>The script\<close>

text \<open>
  The calls of \<open>demo()\<close> in their order, without the printing: the first task goes through its five
  operations and is saved; a second task is saved by one user and, from a stale copy, by another.
  \<open>tid\<close> and \<open>cid\<close> are the two generated ids. The result is the first task, its saved events, and the
  outcome of the last, stale save.
\<close>

definition demo_first :: "string \<Rightarrow> string \<Rightarrow> datetime \<Rightarrow> demo_task effect" where
  "demo_first eid tid now =
     seq_eff (demo_create eid now ''Implement OAuth2'' ''Add Google/GitHub login'' ''high'' ''alice''
       (demo_task_new tid)) (\<lambda>s.
     seq_eff (demo_assign eid now ''bob'' s) (\<lambda>s.
     seq_eff (demo_change_status eid now ''todo'' s) (\<lambda>s.
     seq_eff (demo_change_status eid now ''in_progress'' s) (\<lambda>s.
       demo_change_status eid now ''in_review'' s))))"

definition demo_second :: "string \<Rightarrow> string \<Rightarrow> datetime \<Rightarrow> demo_task effect" where
  "demo_second eid cid now =
     demo_create eid now ''Setup CI/CD'' ''GitHub Actions'' ''medium'' ''alice'' (demo_task_new cid)"

definition demo :: "string \<Rightarrow> string \<Rightarrow> string \<Rightarrow> datetime \<Rightarrow> (demo_task \<times> demo_event list \<times> unit result) result" where
  "demo eid tid cid now = (case demo_first eid tid now of
     (_, Some e) \<Rightarrow> Inl e
   | (task, None) \<Rightarrow>
     (case demo_save_events tid (d_uncommitted task) 0 [] of
       (Inl e, _) \<Rightarrow> Inl e
     | (Inr _, store) \<Rightarrow>
       (case demo_second eid cid now of
         (_, Some e) \<Rightarrow> Inl e
       | (a, None) \<Rightarrow>
         (case demo_save_events cid (d_uncommitted a) 0 store of
           (Inl e, _) \<Rightarrow> Inl e
         | (Inr _, store) \<Rightarrow>
           (case demo_change_status eid now ''todo'' (demo_mark_committed a) of
             (_, Some e) \<Rightarrow> Inl e
           | (a, None) \<Rightarrow>
             (case demo_save_events cid (d_uncommitted a) 1 store of
               (Inl e, _) \<Rightarrow> Inl e
             | (Inr _, store) \<Rightarrow>
               (case demo_second eid cid now of
                 (_, Some e) \<Rightarrow> Inl e
               | (b, None) \<Rightarrow>
                 (case demo_change_status eid now ''todo'' (b\<lparr>d_version := 1\<rparr>) of
                   (_, Some e) \<Rightarrow> Inl e
                 | (b, None) \<Rightarrow>
                   Inr (demo_mark_committed task, demo_events store tid,
                     fst (demo_save_events cid (d_uncommitted b) 1 store))))))))))"

text \<open>The demonstration shows what it announces: for any two different ids it runs to its end, the
  first task is in review at version 5, of high priority and assigned to bob, with five events
  numbered 1 to 5 in the store, and the stale save of the second task is refused with the message it prints.\<close>

theorem demo_outcome:
  assumes "tid \<noteq> cid"
  shows "\<exists>task events. demo eid tid cid now = Inr (task, events,
        Inl (ValueError ''VERSION CONFLICT: expected v1, current v2''))
    \<and> d_status task = IN_REVIEW \<and> d_priority task = HIGH \<and> d_assignee_id task = Some ''bob''
    \<and> d_version task = 5 \<and> map de_version events = [1, 2, 3, 4, 5]"
proof -
  have st: "task_status_of ''todo'' = Inr TODO" "task_status_of ''in_progress'' = Inr IN_PROGRESS"
    "task_status_of ''in_review'' = Inr IN_REVIEW" "task_priority_of ''high'' = Inr HIGH"
    "task_priority_of ''medium'' = Inr MEDIUM"
    using task_status_of_value [of TODO] task_status_of_value [of IN_PROGRESS]
      task_status_of_value [of IN_REVIEW] task_priority_of_value [of HIGH]
      task_priority_of_value [of MEDIUM] by simp_all
  have "str_of_int 1 = ''1''" "str_of_int 2 = ''2''"
    by code_simp+
  then show ?thesis using assms
    by (simp add: demo_def demo_first_def demo_second_def demo_create_def demo_assign_def
        demo_change_status_def demo_record_def demo_apply_def demo_event_new_def data_at_def st
        demo_task_new_def done_eff_def demo_can_transition_to_def demo_save_events_def
        demo_events_def demo_mark_committed_def)
qed

text \<open>The transition tables of the demo and of the service differ in exactly one entry: the service
  lets a task go from \<open>TODO\<close> to \<open>ARCHIVED\<close>, the demo does not.\<close>

theorem demo_table_vs_service_table:
  "demo_can_transition_to s t \<longleftrightarrow> can_transition_to s t \<and> (s, t) \<noteq> (TODO, ARCHIVED)"
  by (cases s) (auto simp: demo_can_transition_to_def can_transition_to_def)

end
