(* ===== verification/Store_Scenario.thy ===== *)
theory Store_Scenario
  imports Task_Scenario Event_Store_Facts Demo
begin

text \<open>The theorems on the event stores, applied to concrete saves.\<close>

section \<open>The event store of the service\<close>

definition empty_db :: db where
  "empty_db = \<lparr>uuid_in = Some, rows = [], next_id = 1, aborted = False\<rparr>"

definition login_created :: task_event where
  "login_created = (new_event ''e1'' noon ''t1'' (TaskCreatedEvent ''Login'' ''Use tokens'' ''high'' None ''ada''
     [''auth''] None))\<lparr>ev_version := 1\<rparr>"

definition login_assigned :: task_event where
  "login_assigned = (new_event ''e2'' later ''t1'' (TaskAssignedEvent None ''bob'' ''ada''))\<lparr>ev_version := 2\<rparr>"

definition other_created :: task_event where
  "other_created = login_created\<lparr>event_id := ''e9'', ev_aggregate_id := ''t2''\<rparr>"

lemmas store_defs = empty_db_def login_created_def login_assigned_def other_created_def new_event_def noon_def later_def

definition login_db :: db where
  "login_db = snd (save_events ''t1'' [login_created, login_assigned] 0 empty_db)"

lemma login_saved: "save_events ''t1'' [login_created, login_assigned] 0 empty_db = (Inr (), login_db)"
  by (simp add: login_db_def prod_eq_iff save_events_def get_current_version_def with_uuid_def max_version_def
      insert_event_def row_admissible_def row_of_event_def fits_int32_def store_defs Let_def)

lemma empty_db_ok: "db_ok empty_db" "positive_versions empty_db"
  by (simp_all add: db_ok_def positive_versions_def empty_db_def)

lemma login_stamped: "stamped_from 0 [login_created, login_assigned]" "stamped_from 0 [other_created]"
  by (simp_all add: stamped_from_def store_defs upto_rec1)

lemma noon_valid: "valid_datetime noon" "valid_datetime later"
  by (simp_all add: noon_def later_def valid_datetime_def days_in_month_def is_leap_def day_micros_def)


lemma stale_save_refused_witness:
  "fst (save_events ''t1'' [login_created] 0 (run_saves save_events [(''t2'', [other_created], 0)] login_db)) \<noteq> Inr ()"
  using stale_save_refused [OF empty_db_ok login_stamped(1) _ login_saved, of "[(''t2'', [other_created], 0)]"
      "[login_created]"] login_stamped(2) by simp

lemma save_then_get_witness:
  "get_events EVENT_REGISTRY noon ''t1'' 1 login_db = (Inr [stored noon login_assigned], login_db)"
proof -
  have "\<forall>e \<in> set [login_created, login_assigned]. storable e"
    using noon_valid by (simp add: storable_def typed_event_def store_defs)
  moreover have "get_events EVENT_REGISTRY noon ''t1'' 1 empty_db = (Inr [], empty_db)"
    by (simp add: get_events_def with_uuid_def empty_db_def List.map_filter_def)
  moreover have "ev_version login_created = 1" "ev_version login_assigned = 2" by (simp_all add: store_defs)
  ultimately show ?thesis
    using save_then_get [OF login_saved _ login_stamped(1), where now = noon and n = 1 and old = "[]"] by simp
qed

lemma event_roundtrip_witness:
  "from_dict AssignedClass later (event_to_dict (login_assigned\<lparr>user_id := ''ada''\<rparr>)) = Inr login_assigned"
  using event_roundtrip [of "login_assigned\<lparr>user_id := ''ada''\<rparr>" later] noon_valid
  by (simp add: typed_event_def store_defs)

section \<open>The store of the demo\<close>

definition demo_event_1 :: demo_event where
  "demo_event_1 = \<lparr>de_event_id = ''e1'', de_aggregate_id = ''t1'', de_event_type = ''task.created'',
     de_version = 1, de_occurred_at = noon, de_data = [(''title'', ''Login''), (''priority'', ''high'')]\<rparr>"

lemma demo_stale_save_refused_witness:
  "\<exists>m. fst (demo_save_events ''t1'' [demo_event_1] 0 (run_saves demo_save_events [(''t2'', [demo_event_1], 0)]
     [(''t1'', [demo_event_1])])) = Inl (ValueError m)"
  by (rule demo_stale_save_refused [of "[demo_event_1]" _ _ _ "[]"])
    (simp_all add: demo_save_events_def demo_events_def Let_def)

lemma demo_save_and_replay_witness:
  "\<exists>s st'. demo_create ''e1'' noon ''Login'' ''Use tokens'' ''high'' ''ada'' (demo_task_new ''t1'') = (s, None)
     \<and> demo_save_events ''t1'' (d_uncommitted s) 0 [] = (Inr (), st')
     \<and> demo_replay (demo_events st' ''t1'') (demo_task_new ''t1'') = (demo_mark_committed s, None)"
proof -
  let ?c = "demo_create ''e1'' noon ''Login'' ''Use tokens'' ''high'' ''ada'' (demo_task_new ''t1'')"
  have c: "snd ?c = None" "d_version (fst ?c) = 1" "length (d_uncommitted (fst ?c)) = 1" by code_simp+
  then have s: "?c = (fst ?c, None)" by (simp add: prod_eq_iff)
  have "demo_run ''t1'' [] (fst ?c)" by (rule demo_run.create [OF demo_run.start s])
  moreover have "demo_events [] ''t1'' = []" by (simp add: demo_events_def)
  ultimately have "\<exists>st'. demo_save_events ''t1'' (d_uncommitted (fst ?c))
        (d_version (fst ?c) - int (length (d_uncommitted (fst ?c)))) [] = (Inr (), st')
      \<and> demo_replay (demo_events st' ''t1'') (demo_task_new ''t1'') = (demo_mark_committed (fst ?c), None)"
    by (rule demo_save_and_replay)
  then show ?thesis using c s by auto
qed

lemma demo_outcome_witness:
  "\<exists>task events. demo ''e'' ''t1'' ''t2'' noon = Inr (task, events,
      Inl (ValueError ''VERSION CONFLICT: expected v1, current v2''))
    \<and> d_status task = IN_REVIEW \<and> d_priority task = HIGH \<and> d_assignee_id task = Some ''bob''
    \<and> d_version task = 5 \<and> map de_version events = [1, 2, 3, 4, 5]"
  by (rule demo_outcome) simp

end
