(* ===== verification/Py_Text.thy ===== *)
theory Py_Text
  imports Json
begin

text \<open>
  What \<open>str\<close> and \<open>repr\<close> make of the values that the code puts into messages and names: strings,
  JSON values and the exceptions. A float (\<open>JSeconds\<close>) is printed with its exact decimal digits.
\<close>

section \<open>Strings\<close>

definition hex_digit :: "nat \<Rightarrow> char" where
  "hex_digit n = char_of (if n < 10 then 48 + n else 87 + n)"

definition repr_char :: "char \<Rightarrow> char \<Rightarrow> string" where
  "repr_char q c = (let n = code_point c in
     if n = 92 \<or> c = q then [CHR 0x5C, c]
     else if n = 10 then [CHR 0x5C, CHR ''n''] else if n = 13 then [CHR 0x5C, CHR ''r'']
     else if n = 9 then [CHR 0x5C, CHR ''t'']
     else if n < 32 \<or> 127 \<le> n \<and> n \<le> 160 \<or> n = 173
       then [CHR 0x5C, CHR ''x'', hex_digit (n div 16), hex_digit (n mod 16)]
     else [c])"

text \<open>Single quotes, unless the string has single quotes and no double quotes.\<close>

definition repr_str :: "string \<Rightarrow> string" where
  "repr_str s = (let q = (if CHR 0x27 \<in> set s \<and> CHR 0x22 \<notin> set s then CHR 0x22 else CHR 0x27) in
     q # concat (map (repr_char q) s) @ [q])"

text \<open>An f-string that puts a text between single quotes.\<close>

definition quoted :: "string \<Rightarrow> string" where
  "quoted s = CHR 0x27 # s @ [CHR 0x27]"

section \<open>JSON values\<close>

definition trim_zeros :: "string \<Rightarrow> string" where
  "trim_zeros s = rev (dropWhile (\<lambda>c. c = CHR ''0'') (rev s))"

fun pad_digits :: "nat \<Rightarrow> nat \<Rightarrow> string" where
  "pad_digits 0 n = []"
| "pad_digits (Suc w) n = pad_digits w (n div 10) @ [char_of (48 + n mod 10)]"

text \<open>
  A number of microseconds as seconds: at least one digit after the point, the exponent form below
  a ten-thousandth of a second.
\<close>

definition seconds_text :: "int \<Rightarrow> string" where
  "seconds_text i = (let m = nat (abs i) in (if i < 0 then ''-'' else '''') @
     (if m = 0 then ''0.0''
      else if m < 10 then str_of_nat m @ ''e-06''
      else if m < 100 then str_of_nat (m div 10)
        @ (if m mod 10 = 0 then '''' else CHR ''.'' # str_of_nat (m mod 10)) @ ''e-05''
      else str_of_nat (m div 1000000) @ ''.'' @
        (let f = trim_zeros (pad_digits 6 (m mod 1000000)) in if f = '''' then ''0'' else f)))"

fun repr_json :: "json \<Rightarrow> string" where
  "repr_json JNull = ''None''"
| "repr_json (JBool b) = (if b then ''True'' else ''False'')"
| "repr_json (JInt i) = str_of_int i"
| "repr_json (JSeconds i) = seconds_text i"
| "repr_json (JStr s) = repr_str s"
| "repr_json (JArr xs) = ''['' @ py_join '', '' (map repr_json xs) @ '']''"
| "repr_json (JObj d) = ''{'' @ py_join '', '' (map (\<lambda>kv. repr_str (fst kv) @ '': '' @ repr_json (snd kv)) d) @ ''}''"

fun str_json :: "json \<Rightarrow> string" where
  "str_json (JStr s) = s"
| "str_json v = repr_json v"

section \<open>Exceptions\<close>

fun str_of_error :: "py_error \<Rightarrow> string" where
  "str_of_error (ValueError m) = m"
| "str_of_error (EnumValueError c v) = repr_str v @ '' is not a valid '' @ c"
| "str_of_error (IsoFormatError s) = ''Invalid isoformat string: '' @ repr_str s"
| "str_of_error (RuntimeError m) = m"
| "str_of_error (AttributeError m) = m"
| "str_of_error (FrozenInstanceError f) = ''cannot assign to field '' @ quoted f"
| "str_of_error (TypeError m) = m"
| "str_of_error (KeyError k) = repr_str k"
| "str_of_error IndexError = ''list index out of range''"
| "str_of_error (TimeoutError m) = m"
| "str_of_error (TaskNotFoundError i) = ''Task with ID '' @ quoted i @ '' not found''"
| "str_of_error (TaskVersionConflictError i e a) = ''Version conflict for task '' @ quoted i
     @ '': expected '' @ str_of_int e @ '', got '' @ str_of_int a"
| "str_of_error (DBError m) = m"
| "str_of_error (OtherError m) = m"

end
