(* ===== verification/Repository.thy ===== *)
theory Repository
  imports Task_Aggregate Event_Store Py_Text
begin

text \<open>
  \<open>TaskRepository\<close>, \<open>services/task_service/infrastructure/repository.py\<close>. The cache of the repository
  holds references to live task objects, and the handlers change these objects in place, so the state
  keeps the objects in a list, the heap, and the cache maps ids to positions in it. The event store is
  part of the state, and so is the outbox: the publications (topic and event) that units of work have
  started. \<open>now\<close> is the time of a read, which deserializing most events takes.
\<close>

section \<open>State\<close>

type_synonym task_ref = nat

record service =
  store :: db
  heap :: "task list"
  cache :: "(string, task_ref) dict"
  outbox :: "(string \<times> task_event) list"

definition deref :: "service \<Rightarrow> task_ref \<Rightarrow> task" where
  "deref s r = heap s ! r"

definition set_ref :: "task_ref \<Rightarrow> task \<Rightarrow> service \<Rightarrow> service" where
  "set_ref r t s = s\<lparr>heap := (heap s)[r := t]\<rparr>"

text \<open>A new object.\<close>

definition new_ref :: "task \<Rightarrow> service \<Rightarrow> task_ref \<times> service" where
  "new_ref t s = (length (heap s), s\<lparr>heap := heap s @ [t]\<rparr>)"

text \<open>A call of the event store: it changes the session only.\<close>

definition call_store :: "(db \<Rightarrow> 'a result \<times> db) \<Rightarrow> service \<Rightarrow> 'a result \<times> service" where
  "call_store f s = (case f (store s) of (r, d) \<Rightarrow> (r, s\<lparr>store := d\<rparr>))"

section \<open>Loading\<close>

definition get_by_id :: "datetime \<Rightarrow> string \<Rightarrow> service \<Rightarrow> task_ref option result \<times> service" where
  "get_by_id now tid s = (case dict_get (cache s) tid of
     Some r \<Rightarrow> (Inr (Some r), s)
   | None \<Rightarrow> bind_s (call_store (get_events EVENT_REGISTRY now tid 0) s) (\<lambda>events s.
       if events = [] then (Inr None, s)
       else (case from_events events of
           Inl e \<Rightarrow> (Inl e, s)
         | Inr t \<Rightarrow> if is_deleted t then (Inr None, s)
             else (case new_ref t s of (r, s) \<Rightarrow> (Inr (Some r), s\<lparr>cache := dict_set tid r (cache s)\<rparr>)))))"

section \<open>Saving\<close>

text \<open>
  The \<open>except ValueError\<close> clause: a version conflict, recognised by its text, becomes a
  \<open>TaskVersionConflictError\<close>, whose \<open>actual\<close> is the expected version again.
\<close>

definition conflict_of :: "string \<Rightarrow> int \<Rightarrow> py_error \<Rightarrow> py_error" where
  "conflict_of tid expected e = (if is_value_error e \<and> py_in ''Version conflict'' (str_of_error e)
     then TaskVersionConflictError tid expected expected else e)"

definition repo_save :: "task_ref \<Rightarrow> int option \<Rightarrow> service \<Rightarrow> unit result \<times> service" where
  "repo_save r expected_version s =
     (let t = deref s r; events = get_uncommitted_events t in
      if events = [] then (Inr (), s)
      else (let expected = (case expected_version of None \<Rightarrow> version t - int (length events) | Some v \<Rightarrow> v) in
        case call_store (save_events (aggregate_id t) events expected) s of
          (Inr _, s) \<Rightarrow> (Inr (), s\<lparr>cache := dict_set (aggregate_id t) r (cache s)\<rparr>)
        | (Inl e, s) \<Rightarrow> (Inl (conflict_of (aggregate_id t) expected e), s)))"

definition invalidate_cache :: "string option \<Rightarrow> service \<Rightarrow> service" where
  "invalidate_cache tid s =
     s\<lparr>cache := (if truthy tid then dict_pop (the tid) (cache s) else [])\<rparr>"

section \<open>Listing\<close>

text \<open>\<open>aggregates[event.aggregate_id].append(event)\<close>, in the order of first occurrence.\<close>

definition group_event :: "(string, task_event list) dict \<Rightarrow> task_event \<Rightarrow> (string, task_event list) dict" where
  "group_event d e = dict_set (ev_aggregate_id e)
     ((case dict_get d (ev_aggregate_id e) of None \<Rightarrow> [] | Some es \<Rightarrow> es) @ [e]) d"

definition group_events :: "task_event list \<Rightarrow> (string, task_event list) dict" where
  "group_events es = foldl group_event [] es"

definition matches :: "string option \<Rightarrow> string option \<Rightarrow> task \<Rightarrow> bool" where
  "matches status_filter assignee t = (\<not> is_deleted t
     \<and> (truthy status_filter \<longrightarrow> status_value (status t) = the status_filter)
     \<and> (truthy assignee \<longrightarrow> map_option user_id_str (assignee_id t) = assignee))"

text \<open>
  The loop over the groups: one that cannot be rebuilt is skipped, and the loop ends once \<open>limit\<close> tasks
  have been found.
\<close>

fun collect_tasks :: "(task \<Rightarrow> bool) \<Rightarrow> int \<Rightarrow> task list \<Rightarrow> task_event list list \<Rightarrow> task list" where
  "collect_tasks keep limit tasks [] = tasks"
| "collect_tasks keep limit tasks (events # groups) = (case from_events events of
     Inl _ \<Rightarrow> collect_tasks keep limit tasks groups
   | Inr t \<Rightarrow> if \<not> keep t then collect_tasks keep limit tasks groups
       else if int (length (tasks @ [t])) \<ge> limit then tasks @ [t]
       else collect_tasks keep limit (tasks @ [t]) groups)"

definition list_tasks :: "datetime \<Rightarrow> string option \<Rightarrow> string option \<Rightarrow> int \<Rightarrow> int \<Rightarrow> service
    \<Rightarrow> task list result \<times> service" where
  "list_tasks now status_filter assignee limit offset s =
     bind_s (call_store (get_all_events EVENT_REGISTRY now offset (limit * 10)) s) (\<lambda>all_events s.
       (Inr (collect_tasks (matches status_filter assignee) limit []
         (map snd (group_events all_events))), s))"

end
