(* ===== verification/Unit_Of_Work.thy ===== *)
theory Unit_Of_Work
  imports Repository
begin

text \<open>
  \<open>UnitOfWork\<close>, \<open>libs/common/unit_of_work.py\<close>, as the task service uses it: it tracks references to
  task objects, and a commit saves their uncommitted events and starts one publishing task per event.
  What becomes of the publishing tasks (they retry, fail, or are cancelled after ten seconds) does not
  reach the commit, which ignores their results: the model appends the publications started to the
  outbox of the state. One of them, \<open>_publish_with_retry\<close>, is modelled on its own, over the state of the publisher.
\<close>

record unit_of_work =
  tracked :: "(string, task_ref) dict"
  events_to_publish :: "task_event list"
  committed :: bool
  rolled_back :: bool

definition new_uow :: unit_of_work where
  "new_uow = \<lparr>tracked = [], events_to_publish = [], committed = False, rolled_back = False\<rparr>"

definition track_aggregate :: "task_ref \<Rightarrow> service \<Rightarrow> unit_of_work \<Rightarrow> unit_of_work" where
  "track_aggregate r s u = u\<lparr>tracked := dict_set (aggregate_id (deref s r)) r (tracked u)\<rparr>"

definition rollback :: "unit_of_work \<Rightarrow> unit_of_work" where
  "rollback u = u\<lparr>tracked := [], events_to_publish := [], rolled_back := True\<rparr>"

section \<open>Publishing\<close>

definition get_topic_for_event :: "task_event \<Rightarrow> string" where
  "get_topic_for_event e =
     (if prefix ''task.'' (event_type e) then ''task.events''
      else if prefix ''workflow.'' (event_type e) then ''workflow.events''
      else if prefix ''notification.'' (event_type e) then ''notifications''
      else ''default.events'')"

text \<open>
  \<open>EventPublisher.publish\<close> is an argument; the pauses between the attempts, in seconds, and the
  attempts are counted. \<open>max_retries\<close> is 3 at the only call.
\<close>

record 'p publish_run =
  publisher :: 'p
  calls :: nat
  pauses :: "int list"

definition publish_attempt :: "('p \<Rightarrow> bool result \<times> 'p) \<Rightarrow> nat \<Rightarrow> 'p publish_run \<Rightarrow> unit result \<times> 'p publish_run" where
  "publish_attempt publish attempt r = (case publish (publisher r) of
     (Inl e, p) \<Rightarrow> (Inl e, r\<lparr>publisher := p, calls := calls r + 1\<rparr>)
   | (Inr _, p) \<Rightarrow> (Inr (), r\<lparr>publisher := p, calls := calls r + 1\<rparr>))"

definition publish_pause :: "nat \<Rightarrow> 'p publish_run \<Rightarrow> 'p publish_run" where
  "publish_pause attempt r = r\<lparr>pauses := pauses r @ [2 ^ attempt]\<rparr>"

fun publish_attempts :: "('p \<Rightarrow> bool result \<times> 'p) \<Rightarrow> nat \<Rightarrow> nat list \<Rightarrow> 'p publish_run \<Rightarrow> unit result \<times> 'p publish_run" where
  "publish_attempts publish max_retries [] r = (Inr (), r)"
| "publish_attempts publish max_retries (i # is) r = (case publish_attempt publish i r of
     (Inr _, r) \<Rightarrow> (Inr (), r)
   | (Inl e, r) \<Rightarrow> if Suc i = max_retries then (Inl e, r)
       else publish_attempts publish max_retries is (publish_pause i r))"

definition publish_with_retry :: "('p \<Rightarrow> bool result \<times> 'p) \<Rightarrow> nat \<Rightarrow> 'p publish_run \<Rightarrow> unit result \<times> 'p publish_run" where
  "publish_with_retry publish max_retries r = publish_attempts publish max_retries [0..<max_retries] r"

section \<open>Commit\<close>

text \<open>
  The loop over the tracked aggregates. An exception leaves the events already saved in the session.
\<close>

fun save_tracked :: "(string \<times> task_ref) list \<Rightarrow> unit_of_work \<Rightarrow> service \<Rightarrow> (unit result \<times> unit_of_work) \<times> service" where
  "save_tracked [] u s = ((Inr (), u), s)"
| "save_tracked ((tid, r) # rest) u s =
     (let t = deref s r; events = get_uncommitted_events t in
      if events = [] then save_tracked rest u s
      else (case call_store (save_events tid events (version t - int (length events))) s of
          (Inl e, s) \<Rightarrow> ((Inl e, u), s)
        | (Inr _, s) \<Rightarrow> save_tracked rest (u\<lparr>events_to_publish := events_to_publish u @ events\<rparr>) s))"

definition commit :: "unit_of_work \<Rightarrow> service \<Rightarrow> (unit result \<times> unit_of_work) \<times> service" where
  "commit u s =
     (if committed u \<or> rolled_back u then ((Inl (RuntimeError ''Unit of Work already completed''), u), s)
      else (case save_tracked (tracked u) u s of
          ((Inl e, u), s) \<Rightarrow> ((Inl e, rollback u), s)
        | ((Inr _, u), s) \<Rightarrow>
            let s = s\<lparr>outbox := outbox s @ map (\<lambda>e. (get_topic_for_event e, e)) (events_to_publish u)\<rparr>;
                s = fold (\<lambda>(_, r) s. set_ref r (mark_events_committed (deref s r)) s) (tracked u) s
            in ((Inr (), u\<lparr>committed := True\<rparr>), s)))"

text \<open>\<open>__aexit__\<close>: with an exception of the body, a rollback, and the exception goes on.\<close>

definition exit_uow :: "py_error option \<Rightarrow> unit_of_work \<Rightarrow> service
    \<Rightarrow> (unit result \<times> unit_of_work) \<times> service" where
  "exit_uow err u s = (case err of
     Some e \<Rightarrow> ((Inl e, rollback u), s)
   | None \<Rightarrow> if \<not> committed u \<and> \<not> rolled_back u then commit u s else ((Inr (), u), s))"

end
