(* ===== verification/Grpc_Server.thy ===== *)
theory Grpc_Server
  imports Unit_Of_Work
begin

text \<open>
  \<open>TaskServiceServicer\<close>, \<open>services/task_service/infrastructure/grpc_server.py\<close>: the six handlers. The
  generated protobuf classes are not part of the repository (their import is commented out), so a
  request is a record of what the handler reads from it: an optional field is \<open>None\<close> where \<open>HasField\<close>
  or \<open>hasattr\<close> is false. \<open>context.abort\<close> ends a call with a status; an exception that a handler does
  not catch ends it too. Here handlers run one after the other; \<open>Concurrent_Handlers\<close> interleaves them.
\<close>

section \<open>Requests and replies\<close>

record create_request =
  cq_title :: string
  cq_description :: string
  cq_priority :: string
  cq_assignee_id :: string
  cq_created_by :: string
  cq_labels :: "string list"
  cq_due_date :: "datetime option"

record update_request =
  uq_task_id :: string
  uq_title :: "string option"
  uq_description :: "string option"
  uq_status :: "string option"
  uq_priority :: "string option"
  uq_labels :: "string list"
  uq_updated_by :: "string option"
  uq_expected_version :: int

record assign_request =
  aq_task_id :: string
  aq_new_assignee_id :: string
  aq_assigned_by :: "string option"
  aq_expected_version :: int

record delete_request =
  dq_task_id :: string
  dq_deleted_by :: "string option"
  dq_reason :: "string option"
  dq_expected_version :: int

datatype status_code = INVALID_ARGUMENT | NOT_FOUND | ABORTED | INTERNAL

datatype 'a reply = Reply 'a | Abort status_code string | Uncaught py_error

text \<open>What a call takes from \<open>uuid4\<close> and from the clock: fresh ids and the times of reading and writing.\<close>

record ambient =
  fresh_command :: string
  fresh_task :: string
  fresh_event :: string
  read_time :: datetime
  write_time :: datetime

section \<open>Pieces of the handlers\<close>

text \<open>\<open>task = await self.repository.get_by_id(...); if not task: raise TaskNotFoundError(...)\<close>\<close>

definition load_task :: "ambient \<Rightarrow> string \<Rightarrow> service \<Rightarrow> task_ref result \<times> service" where
  "load_task a tid s = bind_s (get_by_id (read_time a) tid s) (\<lambda>r s.
     case r of None \<Rightarrow> (Inl (TaskNotFoundError tid), s) | Some r \<Rightarrow> (Inr r, s))"

text \<open>A method call on a task object, which may change the object and raise.\<close>

definition call_task :: "(task \<Rightarrow> task effect) \<Rightarrow> task_ref \<Rightarrow> service \<Rightarrow> unit result \<times> service" where
  "call_task f r s = (case f (deref s r) of (t, err) \<Rightarrow>
     ((case err of None \<Rightarrow> Inr () | Some e \<Rightarrow> Inl e), set_ref r t s))"

text \<open>
  \<open>async with UnitOfWork(...) as uow: uow.track_aggregate(task); await self.repository.save(task, ...)\<close>
\<close>

definition save_in_uow :: "task_ref \<Rightarrow> int option \<Rightarrow> service \<Rightarrow> unit result \<times> service" where
  "save_in_uow r expected_version s = (let u = track_aggregate r s new_uow in
     (case repo_save r expected_version s of (res, s) \<Rightarrow>
       (case exit_uow (case res of Inl e \<Rightarrow> Some e | Inr _ \<Rightarrow> None) u s of ((res, _), s) \<Rightarrow> (res, s))))"

text \<open>The \<open>except\<close> clauses.\<close>

definition create_errors_to_status :: "py_error \<Rightarrow> 'a reply" where
  "create_errors_to_status e = (if is_value_error e then Abort INVALID_ARGUMENT (str_of_error e)
     else Abort INTERNAL ''Internal error'')"

fun is_not_found :: "py_error \<Rightarrow> bool" where
  "is_not_found (TaskNotFoundError _) = True"
| "is_not_found _ = False"

fun is_version_conflict :: "py_error \<Rightarrow> bool" where
  "is_version_conflict (TaskVersionConflictError _ _ _) = True"
| "is_version_conflict _ = False"

definition not_found_text :: "string \<Rightarrow> string" where
  "not_found_text tid = ''Task '' @ tid @ '' not found''"

definition update_errors_to_status :: "string \<Rightarrow> py_error \<Rightarrow> 'a reply" where
  "update_errors_to_status tid e =
     (if is_not_found e then Abort NOT_FOUND (not_found_text tid)
      else if is_version_conflict e then Abort ABORTED (str_of_error e)
      else if is_value_error e then Abort INVALID_ARGUMENT (str_of_error e)
      else Abort INTERNAL ''Internal error'')"

definition assign_errors_to_status :: "string \<Rightarrow> py_error \<Rightarrow> 'a reply" where
  "assign_errors_to_status tid e =
     (if is_not_found e then Abort NOT_FOUND (not_found_text tid)
      else if is_version_conflict e then Abort ABORTED (str_of_error e)
      else Abort INTERNAL ''Internal error'')"

definition reply_of :: "(py_error \<Rightarrow> 'a reply) \<Rightarrow> 'a result \<times> service \<Rightarrow> 'a reply \<times> service" where
  "reply_of handle r = (case r of (Inl e, s) \<Rightarrow> (handle e, s) | (Inr v, s) \<Rightarrow> (Reply v, s))"

section \<open>Handlers\<close>

definition create_command_of :: "ambient \<Rightarrow> create_request \<Rightarrow> create_task_command" where
  "create_command_of a q = \<lparr>cc_command_id = fresh_command a, cc_title = cq_title q,
     cc_description = cq_description q, cc_priority = cq_priority q,
     cc_assignee_id = (if cq_assignee_id q = [] then None else Some (cq_assignee_id q)),
     cc_created_by = cq_created_by q, cc_labels = cq_labels q, cc_due_date = cq_due_date q\<rparr>"

definition CreateTask :: "dataclass_kind \<Rightarrow> ambient \<Rightarrow> create_request \<Rightarrow> service
    \<Rightarrow> (string \<times> json) list reply \<times> service" where
  "CreateTask kind a q s = reply_of create_errors_to_status
     (case create kind (fresh_task a) (fresh_event a) (write_time a) (create_command_of a q) of
        Inl e \<Rightarrow> (Inl e, s)
      | Inr t \<Rightarrow> (case new_ref t s of (r, s) \<Rightarrow>
          bind_s (save_in_uow r None s) (\<lambda>_ s. (Inr (to_dict (deref s r)), s))))"

definition update_command_of :: "ambient \<Rightarrow> update_request \<Rightarrow> update_task_command" where
  "update_command_of a q = \<lparr>uc_command_id = fresh_command a, uc_task_id = uq_task_id q,
     uc_title = uq_title q, uc_description = uq_description q, uc_status = uq_status q,
     uc_priority = uq_priority q, uc_assignee_id = None,
     uc_labels = (if uq_labels q = [] then None else Some (uq_labels q)), uc_due_date = None,
     uc_updated_by = (case uq_updated_by q of None \<Rightarrow> ''system'' | Some u \<Rightarrow> u),
     uc_expected_version = uq_expected_version q\<rparr>"

definition UpdateTask :: "dataclass_kind \<Rightarrow> ambient \<Rightarrow> update_request \<Rightarrow> service
    \<Rightarrow> (string \<times> json) list reply \<times> service" where
  "UpdateTask kind a q s = reply_of (update_errors_to_status (uq_task_id q))
     (bind_s (load_task a (uq_task_id q) s) (\<lambda>r s.
      bind_s (call_task (update kind (fresh_event a) (write_time a) (update_command_of a q)) r s) (\<lambda>_ s.
      bind_s (save_in_uow r (Some (uq_expected_version q)) s) (\<lambda>_ s.
        (Inr (to_dict (deref s r)), s)))))"

definition assign_command_of :: "ambient \<Rightarrow> assign_request \<Rightarrow> assign_task_command" where
  "assign_command_of a q = \<lparr>ac_command_id = fresh_command a, ac_task_id = aq_task_id q,
     ac_new_assignee_id = aq_new_assignee_id q,
     ac_assigned_by = (case aq_assigned_by q of None \<Rightarrow> ''system'' | Some u \<Rightarrow> u),
     ac_expected_version = aq_expected_version q\<rparr>"

definition AssignTask :: "dataclass_kind \<Rightarrow> ambient \<Rightarrow> assign_request \<Rightarrow> service
    \<Rightarrow> (string \<times> json) list reply \<times> service" where
  "AssignTask kind a q s = reply_of (assign_errors_to_status (aq_task_id q))
     (bind_s (load_task a (aq_task_id q) s) (\<lambda>r s.
      bind_s (call_task (assign kind (fresh_event a) (write_time a) (assign_command_of a q)) r s) (\<lambda>_ s.
      bind_s (save_in_uow r (Some (aq_expected_version q)) s) (\<lambda>_ s.
        (Inr (to_dict (deref s r)), s)))))"

definition delete_command_of :: "ambient \<Rightarrow> delete_request \<Rightarrow> delete_task_command" where
  "delete_command_of a q = \<lparr>dc_command_id = fresh_command a, dc_task_id = dq_task_id q,
     dc_deleted_by = (case dq_deleted_by q of None \<Rightarrow> ''system'' | Some u \<Rightarrow> u),
     dc_reason = dq_reason q, dc_expected_version = dq_expected_version q\<rparr>"

definition DeleteTask :: "dataclass_kind \<Rightarrow> ambient \<Rightarrow> delete_request \<Rightarrow> service \<Rightarrow> bool reply \<times> service" where
  "DeleteTask kind a q s = reply_of (assign_errors_to_status (dq_task_id q))
     (bind_s (load_task a (dq_task_id q) s) (\<lambda>r s.
      bind_s (call_task (delete kind (fresh_event a) (write_time a) (delete_command_of a q)) r s) (\<lambda>_ s.
      bind_s (save_in_uow r (Some (dq_expected_version q)) s) (\<lambda>_ s. (Inr True, s)))))"

definition GetTask :: "ambient \<Rightarrow> string \<Rightarrow> service \<Rightarrow> (string \<times> json) list reply \<times> service" where
  "GetTask a tid s = (case get_by_id (read_time a) tid s of
     (Inl e, s) \<Rightarrow> (Uncaught e, s)
   | (Inr None, s) \<Rightarrow> (Abort NOT_FOUND (not_found_text tid), s)
   | (Inr (Some r), s) \<Rightarrow> (Reply (to_dict (deref s r)), s))"

definition history_entry :: "task_event \<Rightarrow> json" where
  "history_entry e = JObj [(''event_id'', JStr (event_id e)), (''event_type'', JStr (event_type e)),
     (''version'', JInt (ev_version e)), (''occurred_at'', JStr (isoformat (occurred_at e))),
     (''data'', JObj (event_to_dict e))]"

definition GetTaskHistory :: "ambient \<Rightarrow> string \<Rightarrow> service \<Rightarrow> (string \<times> json) list reply \<times> service" where
  "GetTaskHistory a tid s = (case call_store (get_events EVENT_REGISTRY (read_time a) tid 0) s of
     (Inl e, s) \<Rightarrow> (Uncaught e, s)
   | (Inr events, s) \<Rightarrow> (Reply [(''events'', JArr (map history_entry events))], s))"

end
