(* ===== verification/Service_Facts.thy ===== *)
theory Service_Facts
  imports Grpc_Server Task_Commands Event_Store_Facts
begin

text \<open>
  The write path of the task service from the handlers down to the store: what a handler that replies
  has done, what one that aborts has left behind, and what every reachable state looks like.
\<close>

section \<open>Stamped events\<close>

text \<open>The last uncommitted event carries at least the version of the task.\<close>

definition tail_stamped :: "task \<Rightarrow> bool" where
  "tail_stamped t = (uncommitted_events t \<noteq> [] \<longrightarrow> version t \<le> ev_version (last (uncommitted_events t)))"

lemma stamp_version [simp]: "ev_version (stamp s e) = version s + 1"
  by (simp add: stamp_def)

lemma tail_stamped_raise:
  assumes "tail_stamped s" shows "tail_stamped (fst (raise_event kind apply_event s e))"
proof (cases kind)
  case Frozen
  then show ?thesis using assms by simp
next
  case Mutable
  obtain a x where a: "apply_event s (stamp s e) = (a, x)" by fastforce
  note v = task.app_keeps_version [OF a]
  show ?thesis
  proof (cases x)
    case None
    then show ?thesis using a v Mutable
      by (simp add: raise_event_Mutable task.app_uncommitted done_eff_def tail_stamped_def)
  next
    case (Some y)
    then show ?thesis using a v Mutable
      by (simp add: raise_event_Mutable task.app_uncommitted tail_stamped_def)
  qed
qed

lemma tail_stamped_command:
  assumes "tail_stamped s" shows "tail_stamped (fst (execute_command kind eid now cmd s))"
proof -
  obtain s' x where r: "execute_command kind eid now cmd s = (s', x)" by fastforce
  then show ?thesis
    by (cases rule: command_cases [OF r]) (use assms tail_stamped_raise in \<open>auto, metis fst_conv\<close>)
qed

lemma create_tail_stamped:
  assumes "create kind tid eid now c = Inr t"
  shows "uncommitted_events t \<noteq> [] \<and> tail_stamped t"
proof -
  let ?p = "TaskCreatedEvent (cc_title c) (cc_description c) (cc_priority c) (cc_assignee_id c)
    (cc_created_by c) (cc_labels c) (map_option isoformat (cc_due_date c))"
  have r: "raise_event kind apply_event (new_task tid) (new_event eid now tid ?p) = (t, None)"
    using assms by (auto simp: create_def bind_r_Inr_iff split: prod.splits option.splits)
  then have "kind = Mutable" by (cases kind) auto
  then have "uncommitted_events t \<noteq> []" using task.raise_ok_fields(1) r by fastforce
  moreover have "tail_stamped t"
    using tail_stamped_raise [of "new_task tid" kind "new_event eid now tid ?p"] r
    by (simp add: tail_stamped_def new_task_def)
  ultimately show ?thesis ..
qed

lemma from_events_uncommitted: "from_events es = Inr t \<Longrightarrow> uncommitted_events t = []"
proof -
  assume "from_events es = Inr t"
  moreover have "keeps (\<lambda>s. uncommitted_events s = []) (\<lambda>s. apply_event s e)" for e
  proof -
    have "uncommitted_events (fst (apply_event s e)) = uncommitted_events s" for s
      by (rule task.app_keeps_uncommitted) (rule prod.collapse [symmetric])
    then show ?thesis by (simp add: keeps_def)
  qed
  ultimately show ?thesis
    using keeps_replay [of "\<lambda>s. uncommitted_events s = []" "new_task (ev_aggregate_id (hd es))"
        "sort_key ev_version es" t]
    by (cases es) (simp_all add: from_events_def new_task_def)
qed

section \<open>Saving twice\<close>

lemma second_save_conflicts:
  assumes "save_events a es v d = (Inr (), d1)" "e \<in> set es" "w < ev_version e" "es' \<noteq> []"
  shows "\<exists>m. save_events a es' w d1 = (Inl (ValueError (conflict_message a w m)), d1) \<and> ev_version e \<le> m"
  using assms(1)
proof (cases rule: save_events_cases)
  case (insert u)
  from insert_events_ok [OF insert(5,2)] obtain rs where rs: "rows d1 = rows d @ rs"
    "uuid_in d1 = uuid_in d" "es \<noteq> [] \<longrightarrow> \<not> aborted d1"
    "list_all2 (\<lambda>e r. \<exists>i eid. r = row_of_event i eid u e \<and> fits_int32 (ev_version e)) es rs"
    by (elim exE conjE)
  from rs(4) assms(2) obtain r where "r \<in> set rs" "\<exists>i eid. r = row_of_event i eid u e"
    by (induction rule: list_all2_induct) auto
  then have "r \<in> set (rows d1)" "row_aggregate_id r = u" "row_version r = ev_version e"
    using rs(1) by (auto simp: row_of_event_def)
  then have "ev_version e \<le> max_version u (rows d1)" using max_version_ge by metis
  then show ?thesis using assms(3,4) rs(2,3) insert(1,2)
    by (intro exI [of _ "max_version u (rows d1)"])
      (simp add: save_events_def get_current_version_def with_uuid_def)
qed (use assms in auto)

text \<open>What \<open>save_in_uow\<close> does: the commit of the unit of work repeats the save of the repository.\<close>

lemma save_in_uow_raises:
  assumes "uncommitted_events (deref s r) \<noteq> []" "tail_stamped (deref s r)"
  shows "\<exists>e s'. save_in_uow r v s = (Inl e, s') \<and> heap s' = heap s \<and> outbox s' = outbox s
    \<and> (cache s' = cache s \<or> cache s' = dict_set (aggregate_id (deref s r)) r (cache s))"
proof -
  let ?t = "deref s r" and ?es = "uncommitted_events (deref s r)"
  let ?x = "case v of None \<Rightarrow> version ?t - int (length ?es) | Some v \<Rightarrow> v"
  obtain res d1 where d1: "save_events (aggregate_id ?t) ?es ?x (store s) = (res, d1)" by fastforce
  show ?thesis
  proof (cases res)
    case (Inl e)
    then show ?thesis using d1 assms(1)
      by (simp add: save_in_uow_def repo_save_def get_uncommitted_events_def call_store_def exit_uow_def Let_def)
  next
    case (Inr u)
    let ?s1 = "s\<lparr>store := d1, cache := dict_set (aggregate_id ?t) r (cache s)\<rparr>"
    have saved: "repo_save r v s = (Inr (), ?s1)"
      using d1 Inr assms(1) by (simp add: repo_save_def get_uncommitted_events_def call_store_def Let_def)
    have ok: "save_events (aggregate_id ?t) ?es ?x (store s) = (Inr (), d1)" using d1 Inr by simp
    have "0 < length ?es" "version ?t \<le> ev_version (last ?es)" using assms by (simp_all add: tail_stamped_def)
    then have "last ?es \<in> set ?es" "version ?t - int (length ?es) < ev_version (last ?es)"
      using assms(1) by (simp, linarith)
    from second_save_conflicts [OF ok this assms(1)]
    obtain m where m: "save_events (aggregate_id ?t) ?es (version ?t - int (length ?es)) d1
      = (Inl (ValueError (conflict_message (aggregate_id ?t) (version ?t - int (length ?es)) m)), d1)"
      by auto
    have "deref ?s1 r = ?t" by (simp add: deref_def)
    then show ?thesis using m saved assms(1)
      by (simp add: save_in_uow_def exit_uow_def commit_def track_aggregate_def new_uow_def
          get_uncommitted_events_def call_store_def Let_def)
  qed
qed

lemma save_in_uow_nothing:
  assumes "uncommitted_events (deref s r) = []"
  shows "save_in_uow r v s = (Inr (), s)"
proof -
  have "set_ref r (mark_events_committed (deref s r)) s = s"
  proof -
    have "(deref s r)\<lparr>uncommitted_events := []\<rparr> = deref s r" by (simp add: assms [symmetric])
    then show ?thesis by (simp add: set_ref_def mark_events_committed_def) (simp add: deref_def)
  qed
  then show ?thesis using assms
    by (simp add: save_in_uow_def repo_save_def exit_uow_def commit_def track_aggregate_def new_uow_def
        get_uncommitted_events_def Let_def)
qed

section \<open>Reachable states\<close>

text \<open>
  What holds of the repository's objects between two requests: the cache points to objects, their
  uncommitted events are stamped, and nothing has been published.
\<close>

definition service_ok :: "service \<Rightarrow> bool" where
  "service_ok s = ((\<forall>t \<in> set (heap s). tail_stamped t)
     \<and> (\<forall>k r. dict_get (cache s) k = Some r \<longrightarrow> r < length (heap s)) \<and> outbox s = [])"

lemma service_ok_store [simp]: "service_ok (s\<lparr>store := d\<rparr>) = service_ok s"
  by (simp add: service_ok_def)

lemma service_ok_deref: "service_ok s \<Longrightarrow> r < length (heap s) \<Longrightarrow> tail_stamped (deref s r)"
  by (simp add: service_ok_def deref_def)

lemma service_ok_set_ref: "service_ok s \<Longrightarrow> tail_stamped t \<Longrightarrow> service_ok (set_ref r t s)"
  by (auto simp: service_ok_def set_ref_def dest!: set_update_subset_insert [THEN subsetD])

lemma service_ok_new_ref:
  "service_ok s \<Longrightarrow> tail_stamped t \<Longrightarrow> new_ref t s = (r, s') \<Longrightarrow> service_ok s' \<and> r < length (heap s')
    \<and> deref s' r = t \<and> store s' = store s"
  by (auto simp: service_ok_def new_ref_def deref_def less_Suc_eq)

lemma service_ok_cache:
  "service_ok s \<Longrightarrow> r < length (heap s) \<Longrightarrow> service_ok (s\<lparr>cache := dict_set k r (cache s)\<rparr>)"
  by (simp add: service_ok_def dict_get_set)

lemma get_events_keeps: "get_events reg now a n d = (r, d') \<Longrightarrow> d' = d"
  by (auto simp: get_events_def with_uuid_def split: option.splits if_splits)

lemma call_get_events: "call_store (get_events reg now a n) s = (fst (get_events reg now a n (store s)), s)"
  using get_events_keeps by (cases "get_events reg now a n (store s)") (auto simp: call_store_def)

lemma get_by_id_ok:
  assumes "service_ok s" "get_by_id now tid s = (res, s')"
  shows "service_ok s' \<and> store s' = store s \<and> (\<forall>r. res = Inr (Some r) \<longrightarrow> r < length (heap s'))"
proof (cases "dict_get (cache s) tid")
  case (Some r)
  then show ?thesis using assms by (auto simp: get_by_id_def service_ok_def)
next
  case None
  obtain es where es: "call_store (get_events EVENT_REGISTRY now tid 0) s = (es, s)"
    by (simp add: call_get_events)
  show ?thesis
  proof (cases "\<exists>evs t. es = Inr evs \<and> evs \<noteq> [] \<and> from_events evs = Inr t \<and> \<not> is_deleted t")
    case True
    then obtain evs t where t: "es = Inr evs" "evs \<noteq> []" "from_events evs = Inr t" "\<not> is_deleted t" by blast
    have st: "tail_stamped t" using from_events_uncommitted [OF t(3)] by (simp add: tail_stamped_def)
    obtain r s1 where n: "new_ref t s = (r, s1)" by fastforce
    have "res = Inr (Some r)" "s' = s1\<lparr>cache := dict_set tid r (cache s1)\<rparr>"
      using assms(2) None es t n by (simp_all add: get_by_id_def)
    then show ?thesis using service_ok_new_ref [OF assms(1) st n] service_ok_cache by simp
  next
    case False
    then have "s' = s \<and> (\<forall>r. res \<noteq> Inr (Some r))"
      using assms(2) None es
      by (cases es) (auto simp: get_by_id_def split: if_splits sum.splits)
    then show ?thesis using assms(1) by simp
  qed
qed

lemma save_in_uow_ok:
  assumes "service_ok s" "r < length (heap s)" "save_in_uow r v s = (res, s')"
  shows "service_ok s' \<and> (res = Inr () \<longrightarrow> s' = s \<and> uncommitted_events (deref s r) = [])"
proof (cases "uncommitted_events (deref s r) = []")
  case True
  then show ?thesis using assms save_in_uow_nothing by simp
next
  case False
  from save_in_uow_raises [OF False service_ok_deref [OF assms(1,2)], of v] obtain e where
    "res = Inl e" "heap s' = heap s" "outbox s' = outbox s"
    "cache s' = cache s \<or> cache s' = dict_set (aggregate_id (deref s r)) r (cache s)"
    using assms(3) by auto
  then show ?thesis using assms(1,2) by (auto simp: service_ok_def dict_get_set split: if_splits)
qed

text \<open>The common shape of the handlers that change an existing task.\<close>

definition change_task :: "ambient \<Rightarrow> string \<Rightarrow> (task \<Rightarrow> task effect) \<Rightarrow> int \<Rightarrow> (task_ref \<Rightarrow> service \<Rightarrow> 'a)
    \<Rightarrow> service \<Rightarrow> 'a result \<times> service" where
  "change_task a tid f v answer s =
     bind_s (load_task a tid s) (\<lambda>r s. bind_s (call_task f r s) (\<lambda>_ s.
     bind_s (save_in_uow r (Some v) s) (\<lambda>_ s. (Inr (answer r s), s))))"

lemma handlers_change_task:
  "UpdateTask kind a uq s = reply_of (update_errors_to_status (uq_task_id uq))
     (change_task a (uq_task_id uq) (update kind (fresh_event a) (write_time a) (update_command_of a uq))
       (uq_expected_version uq) (\<lambda>r s. to_dict (deref s r)) s)"
  "AssignTask kind a aq s = reply_of (assign_errors_to_status (aq_task_id aq))
     (change_task a (aq_task_id aq) (assign kind (fresh_event a) (write_time a) (assign_command_of a aq))
       (aq_expected_version aq) (\<lambda>r s. to_dict (deref s r)) s)"
  "DeleteTask kind a dq s = reply_of (assign_errors_to_status (dq_task_id dq))
     (change_task a (dq_task_id dq) (delete kind (fresh_event a) (write_time a) (delete_command_of a dq))
       (dq_expected_version dq) (\<lambda>_ _. True) s)"
  by (simp_all add: UpdateTask_def AssignTask_def DeleteTask_def change_task_def)

lemma load_task_ok:
  assumes "service_ok s" "load_task a tid s = (res, s')"
  shows "service_ok s' \<and> store s' = store s \<and> (\<forall>r. res = Inr r \<longrightarrow> r < length (heap s'))"
proof -
  obtain r s1 where g: "get_by_id (read_time a) tid s = (r, s1)" by fastforce
  from get_by_id_ok [OF assms(1) g] show ?thesis
    using assms(2) g by (auto simp: load_task_def bind_s_def split: sum.splits option.splits)
qed

lemma change_task_ok:
  assumes ok: "service_ok s" and f: "\<And>t. tail_stamped t \<Longrightarrow> tail_stamped (fst (f t))"
    and r: "change_task a tid f v answer s = (res, s')"
  shows "service_ok s' \<and> (\<forall>x. res = Inr x \<longrightarrow> store s' = store s
    \<and> (\<exists>t t'. tail_stamped t \<and> f t = (t', None) \<and> uncommitted_events t' = []))"
proof -
  obtain l s1 where l: "load_task a tid s = (l, s1)" by fastforce
  note l_ok = load_task_ok [OF ok l]
  show ?thesis
  proof (cases l)
    case (Inl e)
    then show ?thesis using r l l_ok by (auto simp: change_task_def)
  next
    case (Inr i)
    then have i: "service_ok s1" "store s1 = store s" "i < length (heap s1)" using l_ok by auto
    obtain t err where t: "f (deref s1 i) = (t, err)" by fastforce
    have st: "tail_stamped (deref s1 i)" using service_ok_deref i(1,3) by blast
    then have "tail_stamped t" using f [OF st] t by simp
    then have ok2: "service_ok (set_ref i t s1)" using service_ok_set_ref i(1) by blast
    have upd: "store (set_ref i t s1) = store s" "i < length (heap (set_ref i t s1))" "deref (set_ref i t s1) i = t"
      using i by (simp_all add: set_ref_def deref_def)
    show ?thesis
    proof (cases err)
      case (Some e)
      then show ?thesis using r l Inr t ok2 by (auto simp: change_task_def call_task_def)
    next
      case None
      obtain w s3 where w: "save_in_uow i (Some v) (set_ref i t s1) = (w, s3)" by fastforce
      from save_in_uow_ok [OF ok2 upd(2) w] show ?thesis
        using r l Inr t None w upd st by (cases w) (auto simp: change_task_def call_task_def)
    qed
  qed
qed

text \<open>The commands keep the stamps, and an accepted deletion leaves an uncommitted event.\<close>

lemma tail_stamped_methods:
  assumes "tail_stamped t"
  shows "tail_stamped (fst (update kind eid now uc t))" "tail_stamped (fst (assign kind eid now ac t))"
    "tail_stamped (fst (delete kind eid now dc t))"
  using tail_stamped_command [OF assms, of kind eid now "Update uc"]
    tail_stamped_command [OF assms, of kind eid now "Assign ac"]
    tail_stamped_command [OF assms, of kind eid now "Delete dc"] by simp_all

lemma delete_records:
  assumes "delete kind eid now c t = (t', None)" shows "uncommitted_events t' \<noteq> []"
proof -
  obtain p where r: "raise_event kind apply_event t (new_event eid now (aggregate_id t) p) = (t', None)"
    using assms by (auto simp: delete_def elim!: guarded_cases)
  then have "kind = Mutable" by (cases kind) auto
  then show ?thesis using task.raise_ok_fields(1) r by fastforce
qed

lemma abort_not_reply [simp]:
  "create_errors_to_status e \<noteq> Reply v" "update_errors_to_status tid e \<noteq> Reply v"
  "assign_errors_to_status tid e \<noteq> Reply v"
  by (simp_all add: create_errors_to_status_def update_errors_to_status_def assign_errors_to_status_def)

lemma reply_of_Reply:
  "(\<And>e. h e \<noteq> Reply v) \<Longrightarrow> fst (reply_of h r) = Reply v \<longleftrightarrow> fst r = Inr v"
  "snd (reply_of h r) = snd r"
  by (cases r; auto simp: reply_of_def split: sum.splits)+

lemma create_task_raises:
  assumes ok: "service_ok s" and q: "CreateTask kind a q s = (rep, s')"
  shows "service_ok s' \<and> (\<forall>v. rep \<noteq> Reply v)"
proof (cases "create kind (fresh_task a) (fresh_event a) (write_time a) (create_command_of a q)")
  case (Inl e)
  then show ?thesis using q ok by (auto simp: CreateTask_def reply_of_def)
next
  case (Inr t)
  note t = create_tail_stamped [OF Inr]
  obtain i s1 where n: "new_ref t s = (i, s1)" by fastforce
  note n_ok = service_ok_new_ref [OF ok conjunct2 [OF t] n]
  obtain w s2 where w: "save_in_uow i None s1 = (w, s2)" by fastforce
  have "\<exists>e. w = Inl e" using save_in_uow_raises [of s1 i None] n_ok t w by auto
  moreover have "service_ok s2" using save_in_uow_ok [OF _ _ w] n_ok by blast
  ultimately show ?thesis
    using q Inr n w by (auto simp: CreateTask_def reply_of_def)
qed

text \<open>
  The states of a service that has handled any requests in any order; between two requests anyone may
  have changed the store, which the service shares with other processes.
\<close>

inductive reachable :: "dataclass_kind \<Rightarrow> service \<Rightarrow> bool" for kind where
  start: "reachable kind \<lparr>store = d, heap = [], cache = [], outbox = []\<rparr>"
| create: "reachable kind s \<Longrightarrow> reachable kind (snd (CreateTask kind a cq s))"
| update: "reachable kind s \<Longrightarrow> reachable kind (snd (UpdateTask kind a uq s))"
| assign: "reachable kind s \<Longrightarrow> reachable kind (snd (AssignTask kind a aq s))"
| delete: "reachable kind s \<Longrightarrow> reachable kind (snd (DeleteTask kind a dq s))"
| get: "reachable kind s \<Longrightarrow> reachable kind (snd (GetTask a tid s))"
| history: "reachable kind s \<Longrightarrow> reachable kind (snd (GetTaskHistory a tid s))"
| list: "reachable kind s \<Longrightarrow> reachable kind (snd (list_tasks now st who limit off s))"
| invalidate: "reachable kind s \<Longrightarrow> reachable kind (invalidate_cache key s)"
| other: "reachable kind s \<Longrightarrow> reachable kind (s\<lparr>store := d\<rparr>)"

lemma service_ok_reply: "service_ok (snd r) \<Longrightarrow> service_ok (snd (reply_of h r))"
  by (cases r; cases "fst r") (auto simp: reply_of_def split: sum.splits)

lemma service_ok_reachable: "reachable kind s \<Longrightarrow> service_ok s"
proof (induction rule: reachable.induct)
  case (start d)
  then show ?case by (simp add: service_ok_def)
next
  case (create s a cq)
  then show ?case using create_task_raises by (metis prod.collapse)
next
  case (update s a uq)
  show ?case unfolding handlers_change_task
    by (rule service_ok_reply, rule conjunct1 [OF change_task_ok [OF update.IH _ prod.collapse [symmetric]]])
      (rule tail_stamped_methods)
next
  case (assign s a aq)
  show ?case unfolding handlers_change_task
    by (rule service_ok_reply, rule conjunct1 [OF change_task_ok [OF assign.IH _ prod.collapse [symmetric]]])
      (rule tail_stamped_methods)
next
  case (delete s a dq)
  show ?case unfolding handlers_change_task
    by (rule service_ok_reply, rule conjunct1 [OF change_task_ok [OF delete.IH _ prod.collapse [symmetric]]])
      (rule tail_stamped_methods)
next
  case (get s a tid)
  obtain r s1 where g: "get_by_id (read_time a) tid s = (r, s1)" by fastforce
  have "snd (GetTask a tid s) = s1" using g by (auto simp: GetTask_def split: sum.splits option.splits)
  then show ?case using get_by_id_ok [OF get.IH g] by simp
next
  case (history s a tid)
  then show ?case by (simp add: GetTaskHistory_def call_get_events split: sum.splits)
next
  case (list s now st who limit off)
  have "\<exists>d. snd (list_tasks now st who limit off s) = s\<lparr>store := d\<rparr>"
    by (auto simp: list_tasks_def call_store_def bind_s_def split: prod.splits sum.splits)
  then show ?case using list.IH by auto
next
  case (invalidate s key)
  then show ?case by (auto simp: invalidate_cache_def service_ok_def delete_conv' split: if_splits)
next
  case (other s d)
  then show ?case by simp
qed

section \<open>What the handlers achieve\<close>

text \<open>C14: No write request is acknowledged with anything stored. Whatever requests came before and
  whatever happened to the store, for either kind of event class: \<open>CreateTask\<close> and \<open>DeleteTask\<close> never
  reply, and an \<open>UpdateTask\<close> or \<open>AssignTask\<close> that replies has left the store as it was. The repository's
  \<open>save\<close> inserts the events, the commit of the unit of work saves the same events again, and that
  second save finds the versions taken.\<close>

theorem acknowledged_writes_store_nothing:
  assumes "reachable kind s"
  shows "(\<forall>v. fst (CreateTask kind a cq s) \<noteq> Reply v) \<and> (\<forall>v. fst (DeleteTask kind a dq s) \<noteq> Reply v)
    \<and> (fst (UpdateTask kind a uq s) = Reply v \<longrightarrow> store (snd (UpdateTask kind a uq s)) = store s)
    \<and> (fst (AssignTask kind a aq s) = Reply v \<longrightarrow> store (snd (AssignTask kind a aq s)) = store s)"
proof -
  note ok = service_ok_reachable [OF assms]
  note change = change_task_ok [OF ok _ prod.collapse [symmetric], THEN conjunct2, rule_format]
  have "fst (CreateTask kind a cq s) \<noteq> Reply v" for v
    using create_task_raises [OF ok, of kind a cq] by (metis prod.collapse)
  moreover have "fst (DeleteTask kind a dq s) \<noteq> Reply v" for v
  proof
    assume "fst (DeleteTask kind a dq s) = Reply v"
    note r = this [unfolded handlers_change_task, unfolded reply_of_Reply(1) [OF abort_not_reply(3)]]
    from change [where f = "delete kind (fresh_event a) (write_time a) (delete_command_of a dq)",
        OF tail_stamped_methods(3) r]
    show False using delete_records by blast
  qed
  moreover have "store (snd (UpdateTask kind a uq s)) = store s" if "fst (UpdateTask kind a uq s) = Reply v"
  proof -
    note r = that [unfolded handlers_change_task, unfolded reply_of_Reply(1) [OF abort_not_reply(2)]]
    show ?thesis unfolding handlers_change_task reply_of_Reply(2)
      using change [where f = "update kind (fresh_event a) (write_time a) (update_command_of a uq)",
        OF tail_stamped_methods(1) r] by blast
  qed
  moreover have "store (snd (AssignTask kind a aq s)) = store s" if "fst (AssignTask kind a aq s) = Reply v"
  proof -
    note r = that [unfolded handlers_change_task, unfolded reply_of_Reply(1) [OF abort_not_reply(3)]]
    show ?thesis unfolding handlers_change_task reply_of_Reply(2)
      using change [where f = "assign kind (fresh_event a) (write_time a) (assign_command_of a aq)",
        OF tail_stamped_methods(2) r] by blast
  qed
  ultimately show ?thesis by blast
qed

text \<open>Nothing is ever published: in every reachable state the outbox of the units of work is empty,
  since events are handed to the publisher only after the save that always conflicts.\<close>

theorem nothing_is_published:
  assumes "reachable kind s"
  shows "outbox s = []"
  using service_ok_reachable [OF assms] by (simp add: service_ok_def)

end
