(* ===== verification/Retry.thy ===== *)
theory Retry
  imports Prelude
begin

text \<open>
  The interface of a bounded retry loop: attempts numbered from \<open>i\<close> up to, but not including, \<open>n\<close>; the
  first success ends the loop, the exception of the last attempt is the one raised, and between two
  attempts the loop pauses. \<open>count\<close> is any measure of the state that an attempt advances by one and a
  pause does not change. The clients' facts: never more than \<open>n - i\<close> attempts, and exactly that many
  when the loop fails.
\<close>

locale bounded_retry =
  fixes attempt :: "nat \<Rightarrow> 's \<Rightarrow> ('e + 'r) \<times> 's"
    and pause :: "nat \<Rightarrow> 's \<Rightarrow> 's"
    and loop :: "nat \<Rightarrow> nat \<Rightarrow> 's \<Rightarrow> ('e + 'r) \<times> 's"
    and count :: "'s \<Rightarrow> nat"
  assumes loop_success: "i < n \<Longrightarrow> attempt i s = (Inr v, s') \<Longrightarrow> loop i n s = (Inr v, s')"
    and loop_retry: "Suc i < n \<Longrightarrow> attempt i s = (Inl e, s') \<Longrightarrow> loop i n s = loop (Suc i) n (pause i s')"
    and loop_give_up: "n = Suc i \<Longrightarrow> attempt i s = (Inl e, s')
      \<Longrightarrow> fst (loop i n s) = Inl e \<and> count (snd (loop i n s)) = count s'"
    and attempt_counts: "attempt i s = (res, s') \<Longrightarrow> count s' = Suc (count s)"
    and pause_count: "count (pause i s) = count s"
begin

lemma attempts_made:
  assumes "i < n"
  shows "count s < count (snd (loop i n s)) \<and> count (snd (loop i n s)) \<le> count s + (n - i)
    \<and> (\<forall>e. fst (loop i n s) = Inl e \<longrightarrow> count (snd (loop i n s)) = count s + (n - i))"
  using assms
proof (induction "n - i" arbitrary: i s)
  case (Suc k)
  obtain v s' where a: "attempt i s = (v, s')" by fastforce
  note c = attempt_counts [OF a]
  show ?case
  proof (cases v)
    case (Inr x)
    then show ?thesis using loop_success [OF Suc.prems] a c Suc.prems by simp
  next
    case (Inl e)
    show ?thesis
    proof (cases "Suc i < n")
      case True
      then have "k = n - Suc i" using Suc.hyps(2) by simp
      from Suc.hyps(1) [OF this True, of "pause i s'"] loop_retry [OF True] a Inl c True
      show ?thesis by (auto simp: pause_count)
    next
      case False
      then have "n = Suc i" using Suc.prems by simp
      then show ?thesis using loop_give_up [of n i s e s'] a Inl c by simp
    qed
  qed
qed simp

text \<open>If every attempt succeeds, or fails, so does the loop.\<close>

lemma loop_fails_iff_all_fail:
  assumes "i < n" "\<And>j s. i \<le> j \<Longrightarrow> j < n \<Longrightarrow> \<exists>e s'. attempt j s = (Inl e, s')"
  shows "\<exists>e. fst (loop i n s) = Inl e"
  using assms
proof (induction "n - i" arbitrary: i s)
  case (Suc k)
  obtain e s' where a: "attempt i s = (Inl e, s')" using Suc.prems by blast
  show ?case
  proof (cases "Suc i < n")
    case True
    then have "k = n - Suc i" using Suc.hyps(2) by simp
    from Suc.hyps(1) [OF this True, of "pause i s'"] loop_retry [OF True a] Suc.prems(2)
    show ?thesis by auto
  next
    case False
    then have "n = Suc i" using Suc.prems by simp
    then show ?thesis using loop_give_up [OF _ a] by auto
  qed
qed simp

end

end
