(* ===== verification/Commit_Facts.thy ===== *)
theory Commit_Facts
  imports Service_Facts Retry
begin

text \<open>
  The unit of work and the repository on their own: what a commit changes when it succeeds and when it
  fails, that it happens once, how a stale save is reported, and how often a publication is tried.
\<close>

section \<open>Commit\<close>

lemma save_tracked_keeps:
  "save_tracked ts u s = ((res, u'), s') \<Longrightarrow> heap s' = heap s \<and> cache s' = cache s \<and> outbox s' = outbox s
     \<and> tracked u' = tracked u \<and> committed u' = committed u \<and> rolled_back u' = rolled_back u
     \<and> (res = Inr () \<longrightarrow> events_to_publish u'
          = events_to_publish u @ concat (map (\<lambda>(_, r). uncommitted_events (deref s r)) ts))"
proof (induction ts u s rule: save_tracked.induct)
  case (2 tid r rest u s)
  let ?t = "deref s r"
  show ?case
  proof (cases "uncommitted_events ?t = []")
    case True
    then show ?thesis using "2.IH"(1) "2.prems" by (simp add: get_uncommitted_events_def Let_def)
  next
    case False
    obtain w d where w: "save_events tid (uncommitted_events ?t) (version ?t - int (length (uncommitted_events ?t)))
      (store s) = (w, d)" by fastforce
    show ?thesis
    proof (cases w)
      case (Inl e)
      then show ?thesis using "2.prems" False w by (auto simp: get_uncommitted_events_def call_store_def Let_def)
    next
      case (Inr x)
      let ?u = "u\<lparr>events_to_publish := events_to_publish u @ uncommitted_events ?t\<rparr>"
      have "save_tracked rest ?u (s\<lparr>store := d\<rparr>) = ((res, u'), s')"
        using "2.prems" False w Inr by (simp add: get_uncommitted_events_def call_store_def Let_def)
      moreover have "deref (s\<lparr>store := d\<rparr>) r' = deref s r'" for r' by (simp add: deref_def)
      ultimately show ?thesis
        using "2.IH"(2) [OF refl refl] False w Inr
        by (auto simp: get_uncommitted_events_def call_store_def)
    qed
  qed
qed simp

definition mark_all :: "(string \<times> task_ref) list \<Rightarrow> service \<Rightarrow> service" where
  "mark_all ts s = fold (\<lambda>(_, r) s. set_ref r (mark_events_committed (deref s r)) s) ts s"

lemma mark_all_fields:
  "store (mark_all ts s) = store s" "cache (mark_all ts s) = cache s" "outbox (mark_all ts s) = outbox s"
  "length (heap (mark_all ts s)) = length (heap s)"
  unfolding mark_all_def by (induction ts arbitrary: s) (auto simp: set_ref_def)

lemma mark_all_deref:
  "r < length (heap s) \<Longrightarrow> deref (mark_all ts s) r
     = (if r \<in> snd ` set ts then mark_events_committed (deref s r) else deref s r)"
proof (induction ts arbitrary: s)
  case (Cons x ts)
  obtain k r' where x: "x = (k, r')" by (cases x)
  let ?s = "set_ref r' (mark_events_committed (deref s r')) s"
  have "deref ?s r = (if r = r' then mark_events_committed (deref s r) else deref s r)"
    using Cons.prems by (simp add: deref_def set_ref_def nth_list_update)
  moreover have "r < length (heap ?s)" using Cons.prems by (simp add: set_ref_def)
  ultimately show ?case using Cons.IH [of ?s]
    by (auto simp: x mark_all_def mark_events_committed_def)
qed (simp add: mark_all_def)

lemma commit_cases:
  assumes "\<not> committed u" "\<not> rolled_back u" "events_to_publish u = []"
  obtains (failed) e d where "commit u s = ((Inl e, (rollback u)\<lparr>committed := False\<rparr>), s\<lparr>store := d\<rparr>)"
  | (saved) d u1 where "commit u s = ((Inr (), u1\<lparr>committed := True\<rparr>), mark_all (tracked u) (s\<lparr>store := d,
      outbox := outbox s @ map (\<lambda>e. (get_topic_for_event e, e))
        (concat (map (\<lambda>(_, r). uncommitted_events (deref s r)) (tracked u)))\<rparr>))"
proof -
  obtain res u1 s1 where t: "save_tracked (tracked u) u s = ((res, u1), s1)" by (metis prod.collapse)
  note k = save_tracked_keeps [OF t]
  then have s1: "s1 = s\<lparr>store := store s1\<rparr>" by (cases s; cases s1) simp
  show ?thesis
  proof (cases res)
    case (Inl e)
    have "rollback u1 = (rollback u)\<lparr>committed := False\<rparr>"
      using k assms(1) by (cases u; cases u1) (simp add: rollback_def)
    then have "commit u s = ((Inl e, (rollback u)\<lparr>committed := False\<rparr>), s\<lparr>store := store s1\<rparr>)"
      using assms t Inl s1 by (simp add: commit_def)
    then show ?thesis by (rule failed)
  next
    case (Inr x)
    let ?es = "concat (map (\<lambda>(_, r). uncommitted_events (deref s r)) (tracked u))"
    have o: "s1\<lparr>outbox := ps\<rparr> = s\<lparr>store := store s1, outbox := ps\<rparr>" for ps
      using k by (cases s; cases s1) simp
    have "commit u s = ((Inr (), u1\<lparr>committed := True\<rparr>), mark_all (tracked u) (s\<lparr>store := store s1,
        outbox := outbox s @ map (\<lambda>e. (get_topic_for_event e, e)) ?es\<rparr>))"
      using assms t Inr k by (simp add: commit_def mark_all_def Let_def o)
    then show ?thesis by (rule saved)
  qed
qed


text \<open>A unit of work completes once: after a commit, whether it returned or raised, and also after a
  rollback, every further commit raises \<open>RuntimeError\<close> and changes nothing.\<close>

theorem uow_completes_once:
  "(let u' = snd (fst (commit u s)) in
     commit u' s' = ((Inl (RuntimeError ''Unit of Work already completed''), u'), s'))
   \<and> commit (rollback u) s' = ((Inl (RuntimeError ''Unit of Work already completed''), rollback u), s')"
proof -
  let ?u = "snd (fst (commit u s))"
  have "committed ?u \<or> rolled_back ?u"
    by (auto simp: commit_def rollback_def Let_def split: prod.splits sum.splits)
  then show ?thesis by (auto simp: commit_def [of ?u] commit_def [of "u\<lparr>tracked := [], events_to_publish := [], rolled_back := True\<rparr>"]
      rollback_def Let_def)
qed

text \<open>A commit is not atomic: if the events of a first aggregate are accepted and those of a second one
  are refused, the commit raises and is rolled back, but the events of the first stay in the session of
  the event store; nothing rolls the session back.\<close>

theorem commit_not_atomic:
  assumes "tracked u = [(a, i), (b, j)]" "\<not> committed u" "\<not> rolled_back u"
    and "uncommitted_events (deref s i) = es" "es \<noteq> []" "uncommitted_events (deref s j) \<noteq> []"
    and "save_events a es (version (deref s i) - int (length es)) (store s) = (Inr (), d1)"
    and "save_events b (uncommitted_events (deref s j))
        (version (deref s j) - int (length (uncommitted_events (deref s j)))) d1 = (Inl x, d2)"
  shows "fst (fst (commit u s)) = Inl x \<and> rolled_back (snd (fst (commit u s)))
    \<and> length (rows (store (snd (commit u s)))) \<ge> length (rows (store s)) + length es"
proof -
  have "deref (s\<lparr>store := d1\<rparr>) j = deref s j" by (simp add: deref_def)
  then have "\<exists>u1. save_tracked (tracked u) u s = ((Inl x, u1), s\<lparr>store := d2\<rparr>)"
    using assms by (simp add: get_uncommitted_events_def call_store_def Let_def)
  then have c: "fst (fst (commit u s)) = Inl x \<and> rolled_back (snd (fst (commit u s))) \<and> store (snd (commit u s)) = d2"
    using assms(2,3) by (auto simp: commit_def rollback_def)
  obtain rs where d1: "rows d1 = rows (store s) @ rs" "length rs = length es"
    using assms(7)
  proof (cases rule: save_events_cases)
    case (insert v)
    from insert_events_ok [OF insert(5,2)] obtain rs where "rows d1 = rows (store s) @ rs"
      "list_all2 (\<lambda>e r. \<exists>i eid. r = row_of_event i eid v e \<and> fits_int32 (ev_version e)) es rs"
      by (elim exE conjE)
    then show ?thesis using that list_all2_lengthD [of _ es rs] by simp
  qed (use assms(5) in auto)
  obtain rs' where "rows d2 = rows d1 @ rs'" using save_events_rows [OF assms(8)] by blast
  with d1 c show ?thesis by simp
qed

section \<open>Version conflicts\<close>

lemma conflict_recognised: "py_in ''Version conflict'' (conflict_message a v m)"
  by (rule py_in_prefix) (simp add: conflict_message_def)

text \<open>A stale save through the repository: if the store is usable and its current version of the
  aggregate is not the expected one, \<open>save\<close> raises \<open>TaskVersionConflictError\<close> and changes nothing; the
  actual version it reports is the expected one, not the one found.\<close>

theorem repository_reports_conflict:
  assumes "uncommitted_events (deref s r) \<noteq> []"
    and "uuid_in (store s) (aggregate_id (deref s r)) = Some k" "\<not> aborted (store s)"
    and "max_version k (rows (store s)) \<noteq> v"
  shows "repo_save r (Some v) s = (Inl (TaskVersionConflictError (aggregate_id (deref s r)) v v), s)"
proof -
  have "save_events (aggregate_id (deref s r)) (uncommitted_events (deref s r)) v (store s)
      = (Inl (ValueError (conflict_message (aggregate_id (deref s r)) v (max_version k (rows (store s))))), store s)"
    using assms by (simp add: save_events_def get_current_version_def with_uuid_def)
  then show ?thesis using assms(1) conflict_recognised
    by (simp add: repo_save_def get_uncommitted_events_def call_store_def conflict_of_def Let_def)
qed

section \<open>Publishing\<close>

definition publish_loop :: "('p \<Rightarrow> bool result \<times> 'p) \<Rightarrow> nat \<Rightarrow> nat \<Rightarrow> 'p publish_run \<Rightarrow> unit result \<times> 'p publish_run" where
  "publish_loop publish i n r = publish_attempts publish n [i..<n] r"

lemma publish_fields [simp]:
  "calls (publish_pause i r) = calls r" "pauses (publish_pause i r) = pauses r @ [2 ^ i]"
  by (simp_all add: publish_pause_def)

interpretation publish_retry: bounded_retry "publish_attempt publish" publish_pause "publish_loop publish" calls
proof unfold_locales
  fix i n :: nat and s s' :: "'a publish_run" and v e
  show "publish_loop publish i n s = (Inr v, s')" if "i < n" "publish_attempt publish i s = (Inr v, s')"
    using that by (simp add: publish_loop_def upt_conv_Cons)
  show "publish_loop publish i n s = publish_loop publish (Suc i) n (publish_pause i s')"
    if "Suc i < n" "publish_attempt publish i s = (Inl e, s')"
    using that by (simp add: publish_loop_def upt_conv_Cons)
  show "fst (publish_loop publish i n s) = Inl e \<and> calls (snd (publish_loop publish i n s)) = calls s'"
    if "n = Suc i" "publish_attempt publish i s = (Inl e, s')"
    using that by (simp add: publish_loop_def)
next
  fix i :: nat and s s' :: "'a publish_run" and v
  show "calls s' = Suc (calls s)" if "publish_attempt publish i s = (v, s')"
    using that by (auto simp: publish_attempt_def split: prod.splits sum.splits)
qed simp

lemma publish_loop_pauses:
  "i < n \<Longrightarrow> fst (publish_loop publish i n r) = Inl e
     \<Longrightarrow> pauses (snd (publish_loop publish i n r)) = pauses r @ map (\<lambda>k. 2 ^ k) [i..<n - 1]"
proof (induction "n - i" arbitrary: i r)
  case (Suc k)
  obtain v r1 where a: "publish_attempt publish i r = (v, r1)" by fastforce
  have p: "pauses r1 = pauses r" using a by (auto simp: publish_attempt_def split: prod.splits sum.splits)
  obtain x where v: "v = Inl x"
    using Suc.prems publish_retry.loop_success [OF Suc.prems(1), of publish r] a by (cases v) auto
  show ?case
  proof (cases "Suc i < n")
    case True
    then have "k = n - Suc i" using Suc.hyps(2) by simp
    from Suc.hyps(1) [OF this True, of "publish_pause i r1"] Suc.prems(2) True p
      publish_retry.loop_retry [OF True, of publish r x r1] a v
    show ?thesis by (simp add: upt_conv_Cons)
  next
    case False
    then have "n = Suc i" using Suc.prems(1) by simp
    then show ?thesis using a v p by (simp add: publish_loop_def)
  qed
qed simp

text \<open>A publication is tried at least once and at most \<open>n\<close> times (the code passes 3); if it raises it was
  tried exactly \<open>n\<close> times, with pauses of 1, 2, 4 and so on seconds between the attempts and none after
  the last.\<close>

theorem publish_retry_bound:
  assumes "0 < n" and "publish_with_retry publish n r = (res, r')"
  shows "calls r < calls r' \<and> calls r' \<le> calls r + n
    \<and> (\<forall>e. res = Inl e \<longrightarrow> calls r' = calls r + n \<and> pauses r' = pauses r @ map (\<lambda>k. 2 ^ k) [0..<n - 1])"
proof -
  have "publish_loop publish 0 n r = (res, r')" using assms(2) by (simp add: publish_with_retry_def publish_loop_def)
  then show ?thesis
    using publish_retry.attempts_made [OF assms(1), of r publish] publish_loop_pauses [OF assms(1), of publish r]
    by auto
qed

end
