(* ===== verification/Reload.thy ===== *)
theory Reload
  imports Service_Facts
begin

text \<open>
  From the live task through the store and back: a task that was saved and is loaded by another
  repository is the live task, but for the time of its last change. And what listing tasks returns.
\<close>

section \<open>Replaying stored events\<close>

text \<open>Two outcomes that agree on everything but \<open>updated_at\<close>.\<close>

definition same_but_time :: "task effect \<Rightarrow> task effect \<Rightarrow> bool" where
  "same_but_time r r' = (\<exists>u. r' = ((fst r)\<lparr>updated_at := u\<rparr>, snd r))"

lemma same_but_time_done:
  "s'\<lparr>updated_at := None\<rparr> = s\<lparr>updated_at := None\<rparr> \<Longrightarrow> same_but_time (done_eff s) (done_eff s')"
  unfolding same_but_time_def done_eff_def by (intro exI [of _ "updated_at s'"]) (cases s; cases s'; simp)

lemma same_but_time_set:
  assumes "\<And>v s u. upd v (s\<lparr>updated_at := u\<rparr>) = (upd v s)\<lparr>updated_at := u\<rparr>"
  shows "same_but_time (set_eff r upd s) (set_eff r upd (s\<lparr>updated_at := u\<rparr>))"
  using assms by (cases r) (auto simp: same_but_time_def)

lemma same_but_time_seq:
  assumes "same_but_time r r'" "\<And>s u. same_but_time (f s) (f' (s\<lparr>updated_at := u\<rparr>))"
  shows "same_but_time (seq_eff r f) (seq_eff r' f')"
  using assms by (cases r; cases "snd r") (auto simp: same_but_time_def)

lemma same_but_time_change:
  assumes "\<And>v s u. upd v (s\<lparr>updated_at := u\<rparr>) = (upd v s)\<lparr>updated_at := u\<rparr>"
  shows "same_but_time (apply_change ch k conv upd s) (apply_change ch k conv upd (s\<lparr>updated_at := u\<rparr>))"
proof (cases "dict_get ch k")
  case None
  then show ?thesis by (simp add: apply_change_def same_but_time_done)
next
  case (Some x)
  then show ?thesis by (simp add: apply_change_def) (rule same_but_time_set, rule assms)
qed

lemmas same_but_time_rules = same_but_time_seq same_but_time_set same_but_time_change same_but_time_done

lemma apply_stored:
  "same_but_time (apply_event s e) (apply_event (s\<lparr>updated_at := u\<rparr>) (stored now e))"
proof (cases "payload e")
  case (TaskCreatedEvent t d p a c ls due)
  have t: "occurred_at (stored now e) = occurred_at e" by (simp add: stored_def TaskCreatedEvent)
  show ?thesis
    unfolding apply_event_def apply_created_def stored_fields TaskCreatedEvent t
      class_of.simps event_class.case task_payload.case
    by (rule same_but_time_rules refl | simp (no_asm) del: seq_eff_simps set_eff_simps)+
next
  case (TaskUpdatedEvent ch who)
  show ?thesis
    unfolding apply_event_def apply_updated_def stored_fields TaskUpdatedEvent
      class_of.simps event_class.case task_payload.case
    by (rule same_but_time_rules refl | simp (no_asm) del: seq_eff_simps set_eff_simps)+
next
  case (TaskStatusChangedEvent p n b r)
  show ?thesis
    unfolding apply_event_def apply_status_changed_def stored_fields TaskStatusChangedEvent
      class_of.simps event_class.case task_payload.case
    by (rule same_but_time_rules refl | simp (no_asm) del: seq_eff_simps set_eff_simps)+
next
  case (TaskPriorityChangedEvent p n b)
  show ?thesis
    unfolding apply_event_def apply_priority_changed_def stored_fields TaskPriorityChangedEvent
      class_of.simps event_class.case task_payload.case
    by (rule same_but_time_rules refl | simp (no_asm) del: seq_eff_simps set_eff_simps)+
qed (auto simp: apply_event_def apply_assigned_def apply_deleted_def intro!: same_but_time_done)

lemma replay_stored:
  "replay apply_event s es = Inr t
     \<Longrightarrow> \<exists>u'. replay apply_event (s\<lparr>updated_at := u\<rparr>) (map (stored now) es) = Inr (t\<lparr>updated_at := u'\<rparr>)"
proof (induction es arbitrary: s u)
  case Nil
  then show ?case by auto
next
  case (Cons e es)
  obtain a where a: "apply_event s e = (a, None)" using Cons.prems by (auto split: prod.splits option.splits)
  then have r: "replay apply_event (a\<lparr>version := ev_version e\<rparr>) es = Inr t" using Cons.prems by simp
  obtain u1 where u1: "apply_event (s\<lparr>updated_at := u\<rparr>) (stored now e) = (a\<lparr>updated_at := u1\<rparr>, None)"
    using apply_stored [of s e u now] a by (auto simp: same_but_time_def)
  have c: "(a\<lparr>updated_at := u1\<rparr>)\<lparr>version := ev_version e\<rparr> = (a\<lparr>version := ev_version e\<rparr>)\<lparr>updated_at := u1\<rparr>" by simp
  show ?case using Cons.IH [OF r, of u1] by (simp add: u1 c)
qed

lemma from_events_stored:
  assumes "is_history h s"
  shows "\<exists>u. from_events (map (stored now) h) = Inr ((mark_events_committed s)\<lparr>updated_at := u\<rparr>)"
proof -
  from assms obtain e r where h: "h = e # r" "ev_aggregate_id e = aggregate_id s"
    and replay: "replay apply_event (new_task (aggregate_id s)) h = Inr (mark_events_committed s)"
    by (cases h) (auto simp: is_history_def)
  have "sorted (map ev_version (map (stored now) h))"
    using assms by (simp add: is_history_def comp_def)
  then have "sort_key ev_version (map (stored now) h) = map (stored now) h" by (rule sort_key_id_if_sorted)
  moreover have "(new_task i)\<lparr>updated_at := None\<rparr> = new_task i" for i by (simp add: new_task_def)
  ultimately show ?thesis
    using replay_stored [OF replay, of None now] h by (simp add: from_events_def del: sort_key_simps)
qed

section \<open>The events a task records can be stored\<close>

definition all_storable :: "task \<Rightarrow> bool" where
  "all_storable s = (\<forall>e \<in> set (uncommitted_events s). storable e)"

lemma all_storable_raise:
  assumes "all_storable s" "valid_datetime now"
  shows "all_storable (fst (raise_event kind apply_event s (new_event eid now agg p)))"
proof (cases kind)
  case Mutable
  obtain a x where a: "apply_event s (stamp s (new_event eid now agg p)) = (a, x)" by fastforce
  have "storable (stamp s (new_event eid now agg p))"
    using assms(2) by (simp add: storable_def typed_event_def stamp_def)
  then show ?thesis using assms(1) a Mutable
    by (cases x) (auto simp: raise_event_Mutable task.app_uncommitted done_eff_def all_storable_def)
qed (use assms in simp)

lemma all_storable_command:
  assumes "all_storable s" "valid_datetime now"
  shows "all_storable (fst (execute_command kind eid now cmd s))"
proof -
  obtain s' x where r: "execute_command kind eid now cmd s = (s', x)" by fastforce
  then show ?thesis
    by (cases rule: command_cases [OF r])
      (use assms all_storable_raise [OF assms] in \<open>auto, metis fst_conv\<close>)
qed

lemma all_storable_run:
  assumes "all_storable s" "\<forall>(eid, now, cmd) \<in> set cs. valid_datetime now"
    and "run_commands kind cs s = (s', None)"
  shows "all_storable s'"
  using assms
proof (induction cs arbitrary: s)
  case (Cons c cs)
  obtain eid now cmd where c: "c = (eid, now, cmd)" by (cases c)
  from Cons.prems(3) obtain s1 where s1: "execute_command kind eid now cmd s = (s1, None)"
    "run_commands kind cs s1 = (s', None)" by (auto simp: c seq_eff_None_iff)
  have "all_storable s1" using all_storable_command [OF Cons.prems(1), of now kind eid cmd] Cons.prems(2) s1 c
    by auto
  then show ?case using Cons.IH [OF _ _ s1(2)] Cons.prems(2) by auto
qed (simp add: done_eff_def)

lemma all_storable_create:
  assumes "create kind tid eid now c = Inr s" "valid_datetime now"
  shows "all_storable s"
proof -
  obtain p where "raise_event kind apply_event (new_task tid) (new_event eid now tid p) = (s, None)"
    using assms(1) by (auto simp: create_def bind_r_Inr_iff split: prod.splits option.splits)
  moreover have "all_storable (new_task tid)" by (simp add: all_storable_def new_task_def)
  ultimately show ?thesis using all_storable_raise [OF _ assms(2)] by (metis fst_conv)
qed

section \<open>Loading a saved task\<close>

text \<open>C23: A task survives the store. Create a task, run commands that all return, save its events as those
  of a new aggregate: a repository whose cache does not have the task then loads it from the store; if
  the task is deleted it finds none, and otherwise a new object that is the live task without uncommitted
  events, except that the time of the last update may be another.\<close>

theorem saved_task_reloads:
  assumes "create kind tid eid t0 c = Inr s0" and "run_commands kind cs s0 = (t, None)"
    and "valid_datetime t0" and "\<forall>(eid, now, cmd) \<in> set cs. valid_datetime now"
    and "get_events EVENT_REGISTRY now tid 0 d = (Inr [], d)"
    and "save_events tid (uncommitted_events t) 0 d = (Inr (), d')"
    and "store svc = d'" and "dict_get (cache svc) tid = None"
  shows "\<exists>u. fst (get_by_id now tid svc) = Inr (if is_deleted t then None else Some (length (heap svc)))
    \<and> (\<not> is_deleted t \<longrightarrow> deref (snd (get_by_id now tid svc)) (length (heap svc))
        = (mark_events_committed t)\<lparr>updated_at := u\<rparr>)"
proof -
  obtain evs where "uncommitted_events t = uncommitted_events s0 @ evs"
    "is_history (uncommitted_events s0 @ evs) t"
    using history_create [OF assms(1)] assms(2) by (rule history_run)
  then have h: "is_history (uncommitted_events t) t" by simp
  let ?h = "uncommitted_events t"
  have ne: "?h \<noteq> []" and vs: "map ev_version ?h = [1..version t]" using h by (auto simp: is_history_def)
  have "int (length ?h) = version t"
    using arg_cong [OF vs, of length] history_nonneg [OF h] by simp
  then have st: "stamped_from 0 ?h" using vs by (simp add: stamped_from_def)
  have storable: "\<forall>e \<in> set ?h. storable e"
    using all_storable_run [OF all_storable_create [OF assms(1,3)] assms(4,2)] by (simp add: all_storable_def)
  have "\<forall>e \<in> set ?h. 0 < ev_version e" using stamped_positive [OF st] by blast
  then have "filter (\<lambda>e. ev_version e > 0) ?h = ?h" by simp
  with get_after_save [OF assms(6) ne st storable assms(5)]
  have get: "get_events EVENT_REGISTRY now tid 0 d' = (Inr (map (stored now) ?h), d')" by simp
  obtain u where u: "from_events (map (stored now) ?h) = Inr ((mark_events_committed t)\<lparr>updated_at := u\<rparr>)"
    using from_events_stored [OF h] by blast
  have "svc\<lparr>store := d'\<rparr> = svc" using assms(7) by simp
  then show ?thesis
    using get u ne assms(7,8)
    by (intro exI [of _ u])
      (simp add: get_by_id_def call_store_def new_ref_def deref_def mark_events_committed_def)
qed

section \<open>Listing tasks\<close>

text \<open>The ids of the events in the order of their first occurrence, and the events of each.\<close>

definition ids_of :: "task_event list \<Rightarrow> string list" where
  "ids_of es = rev (remdups (rev (map ev_aggregate_id es)))"

definition events_of :: "task_event list \<Rightarrow> string \<Rightarrow> task_event list" where
  "events_of es i = filter (\<lambda>e. ev_aggregate_id e = i) es"

lemma ids_of_snoc: "ids_of (es @ [e]) = (if ev_aggregate_id e \<in> set (ids_of es) then ids_of es
    else ids_of es @ [ev_aggregate_id e])"
  by (simp add: ids_of_def)

lemma dict_set_map:
  "distinct is \<Longrightarrow> dict_set k v (map (\<lambda>i. (i, f i)) is)
     = (if k \<in> set is then map (\<lambda>i. (i, if i = k then v else f i)) is else map (\<lambda>i. (i, f i)) is @ [(k, v)])"
  by (induction "is") auto

lemma dict_get_map: "dict_get (map (\<lambda>i. (i, f i)) is) k = (if k \<in> set is then Some (f k) else None)"
  by (induction "is") auto

lemma group_events_spec: "group_events es = map (\<lambda>i. (i, events_of es i)) (ids_of es)"
proof (induction es rule: rev_induct)
  case Nil
  then show ?case by (simp add: group_events_def ids_of_def)
next
  case (snoc e es)
  let ?k = "ev_aggregate_id e"
  have d: "distinct (ids_of es)" by (simp add: ids_of_def)
  have new: "?k \<notin> set (ids_of es) \<Longrightarrow> events_of es ?k = []"
    unfolding ids_of_def events_of_def filter_empty_conv by (metis image_eqI set_map set_remdups set_rev)
  have step: "group_events (es @ [e]) = group_event (group_events es) e" by (simp add: group_events_def)
  show ?case unfolding step snoc.IH group_event_def dict_set_map [OF d] dict_get_map
    using new by (auto simp: ids_of_snoc events_of_def)
qed

definition rebuilt :: "(task \<Rightarrow> bool) \<Rightarrow> task_event list \<Rightarrow> task option" where
  "rebuilt keep es = (case from_events es of Inl _ \<Rightarrow> None | Inr t \<Rightarrow> if keep t then Some t else None)"

lemma collect_tasks_spec:
  "int (length acc) < limit \<Longrightarrow> collect_tasks keep limit acc groups
     = acc @ take (nat (limit - int (length acc))) (List.map_filter (rebuilt keep) groups)"
proof (induction groups arbitrary: acc)
  case (Cons g groups)
  show ?case
  proof (cases "rebuilt keep g")
    case None
    then show ?thesis using Cons by (auto simp: rebuilt_def split: sum.splits if_splits)
  next
    case (Some t)
    then have t: "from_events g = Inr t" "keep t" by (auto simp: rebuilt_def split: sum.splits if_splits)
    have n: "nat (limit - int (length acc)) = Suc (nat (limit - int (length (acc @ [t]))))"
      using Cons.prems by simp
    show ?thesis
    proof (cases "int (length (acc @ [t])) < limit")
      case True
      then show ?thesis using Cons.IH [OF True] t Some n by simp
    next
      case False
      then show ?thesis using t Some n by simp
    qed
  qed
qed simp

text \<open>C37: What listing returns: with a usable session and a positive limit, \<open>list_tasks\<close> reads the window of
  the first \<open>10 * limit\<close> events after the offset, and returns the first \<open>limit\<close> tasks, in the order in which
  they first occur in the window, that can be rebuilt from their events in the window, are not deleted
  and match the filters.\<close>

theorem list_tasks_spec:
  assumes "\<not> aborted (store s)" and "0 < limit"
  shows "list_tasks now st who limit offset s =
    (let window = List.map_filter (deserialize_event EVENT_REGISTRY now)
        (take (nat (limit * 10)) (sort_key row_id (filter (\<lambda>r. int (row_id r) > offset) (rows (store s)))))
     in (Inr (take (nat limit) (List.map_filter (\<lambda>i. rebuilt (matches st who) (events_of window i)) (ids_of window))), s))"
proof -
  have "List.map_filter f (map snd (map (\<lambda>i. (i, g i)) is)) = List.map_filter (\<lambda>i. f (g i)) is"
    for f :: "task_event list \<Rightarrow> task option" and g and "is" :: "string list"
    by (induction "is") (auto split: option.split)
  then show ?thesis using assms
    by (simp add: list_tasks_def call_store_def get_all_events_def collect_tasks_spec group_events_spec Let_def)
qed

section \<open>Creating a task\<close>

text \<open>What becomes of a valid \<open>CreateTask\<close>: if the aggregate accepts the command and the store accepts its
  event, the call aborts with \<open>INVALID_ARGUMENT\<close> and a version conflict, although the event has been
  inserted and the new task, its event still uncommitted, is in the cache.\<close>

theorem create_aborts_after_insert:
  assumes "create kind (fresh_task a) (fresh_event a) (write_time a) (create_command_of a q) = Inr t"
    and "save_events (fresh_task a) (uncommitted_events t) 0 (store s) = (Inr (), d)"
  shows "\<exists>m. CreateTask kind a q s = (Abort INVALID_ARGUMENT (conflict_message (fresh_task a) 0 m),
      s\<lparr>store := d, heap := heap s @ [t], cache := dict_set (fresh_task a) (length (heap s)) (cache s)\<rparr>)
    \<and> uncommitted_events t \<noteq> []"
proof -
  let ?c = "create_command_of a q" and ?es = "uncommitted_events t"
  have h: "is_history ?es t" using history_create [OF assms(1)] .
  have ne: "?es \<noteq> []" and vs: "map ev_version ?es = [1..version t]" using h by (auto simp: is_history_def)
  have len: "int (length ?es) = version t" using arg_cong [OF vs, of length] history_nonneg [OF h] by simp
  obtain p where "raise_event kind apply_event (new_task (fresh_task a))
      (new_event (fresh_event a) (write_time a) (fresh_task a) p) = (t, None)"
    using assms(1) by (auto simp: create_def bind_r_Inr_iff split: prod.splits option.splits)
  then have "raise_event Mutable apply_event (new_task (fresh_task a))
      (new_event (fresh_event a) (write_time a) (fresh_task a) p) = (t, None)" by (cases kind) auto
  from task.raise_ok_fields(3) [OF this] have tid: "aggregate_id t = fresh_task a" by (simp add: new_task_def)
  have "0 < ev_version (last ?es)"
    using ne vs history_nonneg [OF h] by (metis atLeastAtMost_iff image_eqI last_in_set less_le_trans list.set_map
        set_upto zero_less_one)
  from second_save_conflicts [OF assms(2) last_in_set [OF ne] this ne] obtain m where
    m: "save_events (fresh_task a) ?es 0 d = (Inl (ValueError (conflict_message (fresh_task a) 0 m)), d)" by blast
  let ?s = "s\<lparr>heap := heap s @ [t]\<rparr>"
  have "deref ?s (length (heap s)) = t" by (simp add: deref_def)
  moreover have "deref (?s\<lparr>store := d, cache := c\<rparr>) (length (heap s)) = t" for c by (simp add: deref_def)
  ultimately have "save_in_uow (length (heap s)) None ?s
      = (Inl (ValueError (conflict_message (fresh_task a) 0 m)),
         ?s\<lparr>store := d, cache := dict_set (fresh_task a) (length (heap s)) (cache s)\<rparr>)"
    using m assms(2) ne len tid
    by (simp add: save_in_uow_def repo_save_def exit_uow_def commit_def track_aggregate_def new_uow_def
        get_uncommitted_events_def call_store_def Let_def)
  then show ?thesis using assms(1) ne
    by (auto simp: CreateTask_def new_ref_def reply_of_def create_errors_to_status_def)
qed

end
