(* ===== verification/Service_Scenario.thy ===== *)
theory Service_Scenario
  imports Store_Scenario Commit_Facts Reload
begin

text \<open>
  The theorems on the write path at work: a service on an empty store that is asked to create, change
  and delete a task, units of work over one and over two tasks, and a task that is saved and loaded.
\<close>

section \<open>Requests\<close>

definition call_one :: ambient where
  "call_one = \<lparr>fresh_command = ''k1'', fresh_task = ''t1'', fresh_event = ''e1'', read_time = noon, write_time = noon\<rparr>"

definition create_q :: create_request where
  "create_q = \<lparr>cq_title = ''Login'', cq_description = ''Use tokens'', cq_priority = ''high'', cq_assignee_id = [],
     cq_created_by = ''ada'', cq_labels = [''auth''], cq_due_date = None\<rparr>"

definition delete_q :: delete_request where
  "delete_q = \<lparr>dq_task_id = ''t1'', dq_deleted_by = Some ''ada'', dq_reason = None, dq_expected_version = 1\<rparr>"

definition idle_service :: service where
  "idle_service = \<lparr>store = empty_db, heap = [], cache = [], outbox = []\<rparr>"

lemma idle_reachable: "reachable Mutable idle_service"
  unfolding idle_service_def by (rule reachable.start)

lemma acknowledged_writes_store_nothing_witness:
  "fst (DeleteTask Mutable call_one delete_q (snd (CreateTask Mutable call_one create_q idle_service))) \<noteq> Reply True
   \<and> fst (CreateTask Mutable call_one create_q idle_service) \<noteq> Reply []"
  using acknowledged_writes_store_nothing [OF reachable.create [OF idle_reachable], of call_one create_q _ _ delete_q]
    acknowledged_writes_store_nothing [OF idle_reachable] by blast

lemma nothing_is_published_witness:
  "outbox (snd (DeleteTask Mutable call_one delete_q (snd (CreateTask Mutable call_one create_q idle_service)))) = []"
  by (rule nothing_is_published) (rule reachable.delete, rule reachable.create, rule idle_reachable)

lemma create_command: "create_command_of call_one create_q = login_create"
  by (simp add: create_command_of_def call_one_def create_q_def login_create_def)

lemma login_task_saved: "\<exists>d. save_events ''t1'' (uncommitted_events login_task) 0 empty_db = (Inr (), d)"
  by (simp add: save_events_def get_current_version_def with_uuid_def max_version_def insert_event_def
      row_admissible_def row_of_event_def fits_int32_def login_task_def created_task_def login_create_def store_defs Let_def)

lemma create_aborts_after_insert_witness:
  "\<exists>m s. CreateTask Mutable call_one create_q idle_service
     = (Abort INVALID_ARGUMENT (conflict_message ''t1'' 0 m), s) \<and> cache s = [(''t1'', 0)] \<and> heap s = [login_task]"
proof -
  obtain d where "save_events ''t1'' (uncommitted_events login_task) 0 empty_db = (Inr (), d)"
    using login_task_saved by blast
  moreover have "create Mutable ''t1'' ''e1'' noon (create_command_of call_one create_q) = Inr login_task"
    by (simp only: create_command login_create_ok)
  ultimately obtain m where "CreateTask Mutable call_one create_q idle_service
      = (Abort INVALID_ARGUMENT (conflict_message ''t1'' 0 m), idle_service\<lparr>store := d,
          heap := heap idle_service @ [login_task], cache := dict_set ''t1'' (length (heap idle_service)) (cache idle_service)\<rparr>)"
    using create_aborts_after_insert [of Mutable call_one create_q login_task idle_service d]
    by (auto simp: call_one_def idle_service_def)
  then show ?thesis by (auto simp: idle_service_def)
qed

section \<open>Units of work\<close>

definition one_task :: service where
  "one_task = idle_service\<lparr>heap := [login_task]\<rparr>"

definition one_uow :: unit_of_work where
  "one_uow = track_aggregate 0 one_task new_uow"

lemma one_uow_fields: "tracked one_uow = [(''t1'', 0)]" "\<not> committed one_uow" "\<not> rolled_back one_uow"
  "events_to_publish one_uow = []"
  by (simp_all add: one_uow_def track_aggregate_def new_uow_def one_task_def deref_def idle_service_def
      login_task_def created_task_def)


text \<open>Two tasks, of which the store already has the second.\<close>

definition two_tasks :: service where
  "two_tasks = idle_service\<lparr>heap := [login_task, login_task\<lparr>aggregate_id := ''t2'', uncommitted_events := [other_created]\<rparr>],
     store := snd (save_events ''t2'' [other_created] 0 empty_db)\<rparr>"

definition two_uow :: unit_of_work where
  "two_uow = new_uow\<lparr>tracked := [(''t1'', 0), (''t2'', 1)]\<rparr>"

lemmas save_eval = save_events_def get_current_version_def with_uuid_def max_version_def insert_event_def
  row_admissible_def row_of_event_def fits_int32_def login_task_def created_task_def login_create_def store_defs

lemma commit_not_atomic_witness:
  "(\<exists>m. fst (fst (commit two_uow two_tasks)) = Inl (ValueError m))
   \<and> length (rows (store (snd (commit two_uow two_tasks)))) \<ge> length (rows (store two_tasks)) + 1"
proof -
  have t: "deref two_tasks 0 = login_task" "version login_task = 1" "length (uncommitted_events login_task) = 1"
    "uncommitted_events (deref two_tasks 1) = [other_created]" "version (deref two_tasks 1) = 1"
    by (simp_all add: two_tasks_def deref_def login_task_def created_task_def)
  let ?d = "store two_tasks"
  obtain d1 where d1: "save_events ''t1'' (uncommitted_events login_task) 0 ?d = (Inr (), d1)"
    by (simp add: two_tasks_def save_eval)
  obtain m d2 where d2: "save_events ''t2'' [other_created] 0 d1 = (Inl (ValueError m), d2)"
    using d1 by (auto simp: two_tasks_def save_eval)
  have u: "tracked two_uow = [(''t1'', 0), (''t2'', 1)]" "\<not> committed two_uow" "\<not> rolled_back two_uow"
    by (simp_all add: two_uow_def new_uow_def)
  have ne: "uncommitted_events login_task \<noteq> []" using t(3) by auto
  have s1: "save_events ''t1'' (uncommitted_events login_task)
      (version (deref two_tasks 0) - int (length (uncommitted_events login_task))) ?d = (Inr (), d1)"
    using d1 t by simp
  have s2: "save_events ''t2'' (uncommitted_events (deref two_tasks 1))
      (version (deref two_tasks 1) - int (length (uncommitted_events (deref two_tasks 1)))) d1 = (Inl (ValueError m), d2)"
    using d2 t by simp
  have e: "uncommitted_events (deref two_tasks 0) = uncommitted_events login_task" using t by simp
  from commit_not_atomic [OF u e ne _ s1 s2] t show ?thesis by simp
qed

lemma repository_reports_conflict_witness:
  "repo_save 0 (Some 5) one_task = (Inl (TaskVersionConflictError ''t1'' 5 5), one_task)"
proof -
  have "uncommitted_events (deref one_task 0) \<noteq> []" "uuid_in (store one_task) (aggregate_id (deref one_task 0)) = Some ''t1''"
    "\<not> aborted (store one_task)" "max_version ''t1'' (rows (store one_task)) \<noteq> 5" "aggregate_id (deref one_task 0) = ''t1''"
    by (simp_all add: one_task_def idle_service_def deref_def login_task_def created_task_def empty_db_def max_version_def)
  then show ?thesis using repository_reports_conflict [of one_task 0 "''t1''" 5] by simp
qed

text \<open>A publisher that is always down.\<close>

lemma publish_retry_bound_witness:
  "let r = snd (publish_with_retry (\<lambda>p. (Inl (RuntimeError ''down''), p)) 3 \<lparr>publisher = (), calls = 0, pauses = []\<rparr>)
   in calls r = 3 \<and> pauses r = [1, 2]"
proof -
  let ?r = "publish_with_retry (\<lambda>p. (Inl (RuntimeError ''down''), p)) 3 \<lparr>publisher = (), calls = 0, pauses = []\<rparr>"
  have "fst ?r = Inl (RuntimeError ''down'')"
    by (simp add: publish_with_retry_def publish_attempt_def publish_pause_def upt_rec)
  then have r: "?r = (Inl (RuntimeError ''down''), snd ?r)" by (simp add: prod_eq_iff)
  have "(0::nat) < 3" by simp
  from publish_retry_bound [OF this r] show ?thesis by (simp add: upt_rec Let_def numeral_2_eq_2)
qed

section \<open>Loading and listing\<close>

text \<open>The task after one more command.\<close>

definition urgent_run :: "(string \<times> datetime \<times> task_command) list" where
  "urgent_run = [(''e3'', later, ChangePriority CRITICAL ''ada'')]"

definition urgent_event :: task_event where
  "urgent_event = (new_event ''e3'' later ''t1'' (TaskPriorityChangedEvent ''high'' ''critical'' ''ada''))\<lparr>ev_version := 2\<rparr>"

definition urgent_task :: task where
  "urgent_task = fst (run_commands Mutable urgent_run login_task)"

lemma urgent_run_ok: "run_commands Mutable urgent_run login_task = (urgent_task, None)"
proof -
  have "snd (run_commands Mutable urgent_run login_task) = None" by code_simp
  then show ?thesis by (simp add: urgent_task_def prod_eq_iff)
qed

lemma urgent_task_events: "uncommitted_events urgent_task = [login_created, urgent_event]"
  by code_simp

lemma urgent_task_live: "\<not> is_deleted urgent_task"
  by code_simp

lemma urgent_saved: "\<exists>d. save_events ''t1'' (uncommitted_events urgent_task) 0 empty_db = (Inr (), d)"
  unfolding urgent_task_events by (simp add: save_eval urgent_event_def)

lemma saved_task_reloads_witness:
  "\<exists>d u. let s = idle_service\<lparr>store := d\<rparr> in
    fst (get_by_id later ''t1'' s) = Inr (Some 0)
    \<and> deref (snd (get_by_id later ''t1'' s)) 0 = (mark_events_committed urgent_task)\<lparr>updated_at := u\<rparr>"
proof -
  obtain d where d: "save_events ''t1'' (uncommitted_events urgent_task) 0 empty_db = (Inr (), d)"
    using urgent_saved by blast
  have "\<forall>(eid, now, cmd) \<in> set urgent_run. valid_datetime now" using noon_valid by (simp add: urgent_run_def)
  moreover have "get_events EVENT_REGISTRY later ''t1'' 0 empty_db = (Inr [], empty_db)"
    by (simp add: get_events_def with_uuid_def empty_db_def List.map_filter_def)
  ultimately obtain u where "fst (get_by_id later ''t1'' (idle_service\<lparr>store := d\<rparr>)) = Inr (Some 0)"
    "deref (snd (get_by_id later ''t1'' (idle_service\<lparr>store := d\<rparr>))) 0 = (mark_events_committed urgent_task)\<lparr>updated_at := u\<rparr>"
    using saved_task_reloads [OF login_create_ok urgent_run_ok noon_valid(1) _ _ d, where svc = "idle_service\<lparr>store := d\<rparr>"]
      urgent_task_live by (auto simp: idle_service_def)
  then show ?thesis unfolding Let_def by blast
qed

lemma list_tasks_spec_witness:
  "\<exists>ts. list_tasks noon None (Some ''bob'') 1 0 (idle_service\<lparr>store := login_db\<rparr>)
     = (Inr ts, idle_service\<lparr>store := login_db\<rparr>) \<and> length ts \<le> 1"
proof -
  have "\<not> aborted (store (idle_service\<lparr>store := login_db\<rparr>))"
    using login_saved by (auto simp: login_db_def save_eval)
  from list_tasks_spec [OF this, of 1 noon None "Some ''bob''" 0] show ?thesis
    by (simp add: Let_def)
qed

end
