(* ===== verification/Saga.thy ===== *)
theory Saga
  imports Py_Time Json
begin

text \<open>
  \<open>libs/saga_framework/saga.py\<close>: saga steps with retries and compensation, the execution of a saga
  instance, and the interference of \<open>cancel_saga\<close> with it. The actions, compensations and callbacks of a
  step are Python callables: they are functions of the context and of the rest of the world \<open>'w\<close>
  (services, queues, the clock that decides about timeouts), which they may change. Calls of the
  logger are kept in a log, since they record what the framework did; durations are in microseconds.
\<close>

section \<open>Steps\<close>

type_synonym saga_context = "(string \<times> json) list"

text \<open>
  The outcome of \<open>await asyncio.wait_for(action(context), timeout)\<close>: a result (a dictionary or
  \<open>None\<close>), a timeout, or another exception. A compensation or callback returns or raises.
\<close>

datatype outcome = Returned "saga_context option" | TimedOut | Raised py_error

type_synonym 'w action = "saga_context \<Rightarrow> 'w \<Rightarrow> outcome \<times> saga_context \<times> 'w"

type_synonym 'w callback = "saga_context \<Rightarrow> 'w \<Rightarrow> py_error option \<times> saga_context \<times> 'w"

datatype saga_log =
    StepExecuting string
  | StepCompleted string nat
  | StepTimeout string nat
  | StepFailed string nat
  | Slept int
  | NoCompensation string
  | StepCompensating string
  | StepCompensated string
  | CompensationFailed string

record 'w saga_step =
  step_id :: string
  step_name :: string
  action :: "'w action"
  compensation :: "'w callback option"
  retry_count :: int
  retry_delay :: int
  timeout :: int
  is_compensatable :: bool

text \<open>What a running step sees and changes.\<close>

record 'w run =
  ctx :: saga_context
  world :: 'w
  log :: "saga_log list"

definition add_log :: "saga_log \<Rightarrow> ('w, 'm) run_scheme \<Rightarrow> ('w, 'm) run_scheme" where
  "add_log l r = r\<lparr>log := log r @ [l]\<rparr>"

text \<open>\<open>if attempt < self.retry_count: await asyncio.sleep(delay * 2 ** attempt)\<close>\<close>

definition backoff :: "'w saga_step \<Rightarrow> nat \<Rightarrow> ('w, 'm) run_scheme \<Rightarrow> ('w, 'm) run_scheme" where
  "backoff st attempt r = (if int attempt < retry_count st
     then add_log (Slept (retry_delay st * 2 ^ attempt)) r else r)"

text \<open>One pass of the loop body: the exception to remember, or the result.\<close>

definition attempt_step :: "'w saga_step \<Rightarrow> nat \<Rightarrow> ('w, 'm) run_scheme
    \<Rightarrow> saga_context result \<times> ('w, 'm) run_scheme" where
  "attempt_step st attempt r = (case action st (ctx r) (world r) of (out, c, w) \<Rightarrow>
     let r = r\<lparr>ctx := c, world := w\<rparr> in
     (case out of
        Returned res \<Rightarrow> (Inr (case res of None \<Rightarrow> [] | Some d \<Rightarrow> d),
          add_log (StepCompleted (step_name st) (attempt + 1)) r)
      | TimedOut \<Rightarrow> (Inl (TimeoutError (''Step '' @ [CHR 0x27] @ step_name st @ [CHR 0x27] @ '' timed out'')),
          add_log (StepTimeout (step_name st) (attempt + 1)) r)
      | Raised e \<Rightarrow> (Inl e, add_log (StepFailed (step_name st) (attempt + 1)) r)))"

fun try_attempts :: "'w saga_step \<Rightarrow> nat list \<Rightarrow> py_error option \<Rightarrow> ('w, 'm) run_scheme
    \<Rightarrow> saga_context result \<times> ('w, 'm) run_scheme" where
  "try_attempts st [] last_error r = (Inl (case last_error of Some e \<Rightarrow> e
     | None \<Rightarrow> RuntimeError (''Step '' @ [CHR 0x27] @ step_name st @ [CHR 0x27] @ '' failed after all retries'')), r)"
| "try_attempts st (i # is) last_error r = (case attempt_step st i r of
     (Inr d, r) \<Rightarrow> (Inr d, r)
   | (Inl e, r) \<Rightarrow> try_attempts st is (Some e) (backoff st i r))"

definition step_execute :: "'w saga_step \<Rightarrow> ('w, 'm) run_scheme
    \<Rightarrow> saga_context result \<times> ('w, 'm) run_scheme" where
  "step_execute st r = try_attempts st [0..<nat (retry_count st + 1)] None
     (add_log (StepExecuting (step_name st)) r)"

definition step_compensate :: "'w saga_step \<Rightarrow> ('w, 'm) run_scheme
    \<Rightarrow> py_error option \<times> ('w, 'm) run_scheme" where
  "step_compensate st r = (case compensation st of
     Some undo \<Rightarrow> if is_compensatable st then
         (case undo (ctx r) (world r) of (err, c, w) \<Rightarrow>
           let r = (add_log (StepCompensating (step_name st)) r)\<lparr>ctx := c, world := w\<rparr> in
           (case err of None \<Rightarrow> (None, add_log (StepCompensated (step_name st)) r)
            | Some e \<Rightarrow> (Some e, add_log (CompensationFailed (step_name st)) r)))
       else (None, add_log (NoCompensation (step_name st)) r)
   | None \<Rightarrow> (None, add_log (NoCompensation (step_name st)) r))"

section \<open>Definitions and instances\<close>

datatype saga_status = PENDING | RUNNING | COMPLETED | FAILED | COMPENSATING | COMPENSATED | CANCELLED

fun saga_status_value :: "saga_status \<Rightarrow> string" where
  "saga_status_value PENDING = ''pending''"
| "saga_status_value RUNNING = ''running''"
| "saga_status_value COMPLETED = ''completed''"
| "saga_status_value FAILED = ''failed''"
| "saga_status_value COMPENSATING = ''compensating''"
| "saga_status_value COMPENSATED = ''compensated''"
| "saga_status_value CANCELLED = ''cancelled''"

definition saga_status_members :: "saga_status list" where
  "saga_status_members = [PENDING, RUNNING, COMPLETED, FAILED, COMPENSATING, COMPENSATED, CANCELLED]"

interpretation saga_status: string_enum "''SagaStatus''" saga_status_value saga_status_members
proof unfold_locales
  show "set saga_status_members = UNIV"
    by (auto simp: saga_status_members_def intro: saga_status.exhaust)
  show "distinct (map saga_status_value saga_status_members)"
    by (simp add: saga_status_members_def)
qed

record 'w saga_definition =
  saga_id :: string
  saga_name :: string
  steps :: "'w saga_step list"
  on_success :: "'w callback option"
  on_failure :: "'w callback option"

definition add_step :: "'w saga_step \<Rightarrow> 'w saga_definition \<Rightarrow> 'w saga_definition" where
  "add_step st d = d\<lparr>steps := steps d @ [st]\<rparr>"

record 'w saga_instance = "'w run" +
  instance_id :: string
  definition_of :: "'w saga_definition"
  inst_status :: saga_status
  current_step_index :: nat
  completed_steps :: "'w saga_step list"
  failed_step :: "'w saga_step option"
  inst_error :: "py_error option"
  started_at :: "datetime option"
  completed_at :: "datetime option"

definition new_instance :: "string \<Rightarrow> 'w saga_definition \<Rightarrow> saga_context \<Rightarrow> 'w \<Rightarrow> 'w saga_instance" where
  "new_instance iid d c w = \<lparr>ctx = dict_set ''saga_instance_id'' (JStr iid) c, world = w, log = [],
     instance_id = iid, definition_of = d, inst_status = PENDING, current_step_index = 0,
     completed_steps = [], failed_step = None, inst_error = None, started_at = None, completed_at = None\<rparr>"

section \<open>Execution\<close>

text \<open>
  \<open>cancel_saga\<close> runs while \<open>execute\<close> awaits something and writes the status of the instance; \<open>cancel\<close>
  says at which of its awaits that happens. \<open>execute\<close> neither reads nor writes the status between the
  start and the end of an await, so the write can be placed at its end.
\<close>

datatype await_point = AwaitStep nat | AwaitCompensation nat | AwaitOnSuccess | AwaitOnFailure

definition interfere :: "(await_point \<Rightarrow> bool) \<Rightarrow> await_point \<Rightarrow> 'w saga_instance \<Rightarrow> 'w saga_instance" where
  "interfere cancel p inst = (if cancel p then inst\<lparr>inst_status := CANCELLED\<rparr> else inst)"

fun run_steps :: "(await_point \<Rightarrow> bool) \<Rightarrow> nat \<Rightarrow> 'w saga_step list \<Rightarrow> 'w saga_instance
    \<Rightarrow> py_error option \<times> 'w saga_instance" where
  "run_steps cancel i [] inst = (None, inst)"
| "run_steps cancel i (st # sts) inst =
     (case step_execute st (inst\<lparr>current_step_index := i,
         ctx := dict_set ''current_step'' (JStr (step_name st)) (ctx inst)\<rparr>) of
        (Inl e, inst) \<Rightarrow> (Some e, interfere cancel (AwaitStep i) inst)
      | (Inr res, inst) \<Rightarrow> let inst = interfere cancel (AwaitStep i) inst in
          run_steps cancel (Suc i) sts (inst\<lparr>ctx := dict_update (ctx inst) res,
            completed_steps := completed_steps inst @ [st]\<rparr>))"

definition run_callback :: "'w callback option \<Rightarrow> 'w saga_instance \<Rightarrow> py_error option \<times> 'w saga_instance" where
  "run_callback f inst = (case f of None \<Rightarrow> (None, inst)
     | Some f \<Rightarrow> (case f (ctx inst) (world inst) of (err, c, w) \<Rightarrow> (err, inst\<lparr>ctx := c, world := w\<rparr>)))"

definition interfere_callback :: "(await_point \<Rightarrow> bool) \<Rightarrow> await_point \<Rightarrow> 'w callback option
    \<Rightarrow> 'w saga_instance \<Rightarrow> 'w saga_instance" where
  "interfere_callback cancel p f inst = (if f = None then inst else interfere cancel p inst)"

text \<open>The compensation loop collects the steps whose compensation raised.\<close>

fun run_compensations :: "(await_point \<Rightarrow> bool) \<Rightarrow> nat \<Rightarrow> 'w saga_step list \<Rightarrow> 'w saga_instance
    \<Rightarrow> (string \<times> py_error) list \<times> 'w saga_instance" where
  "run_compensations cancel i [] inst = ([], inst)"
| "run_compensations cancel i (st # sts) inst =
     (case step_compensate st inst of (err, inst) \<Rightarrow>
       (case run_compensations cancel (Suc i) sts (interfere cancel (AwaitCompensation i) inst) of (errs, inst) \<Rightarrow>
         ((case err of None \<Rightarrow> [] | Some e \<Rightarrow> [(step_name st, e)]) @ errs, inst)))"

definition compensate_all :: "(await_point \<Rightarrow> bool) \<Rightarrow> 'w saga_instance \<Rightarrow> 'w saga_instance" where
  "compensate_all cancel inst =
     (case run_compensations cancel 0 (rev (completed_steps inst)) (inst\<lparr>inst_status := COMPENSATING\<rparr>) of
        (errs, inst) \<Rightarrow>
          let inst = inst\<lparr>inst_status := (if errs \<noteq> [] then FAILED else COMPENSATED)\<rparr> in
          interfere_callback cancel AwaitOnFailure (on_failure (definition_of inst))
            (snd (run_callback (on_failure (definition_of inst)) inst)))"

text \<open>
  The body of the \<open>try\<close>: the steps, then \<open>COMPLETED\<close>, then \<open>on_success\<close>.
\<close>

definition try_body :: "(await_point \<Rightarrow> bool) \<Rightarrow> 'w saga_instance \<Rightarrow> py_error option \<times> 'w saga_instance" where
  "try_body cancel inst =
     (case run_steps cancel 0 (steps (definition_of inst)) inst of
        (Some e, inst) \<Rightarrow> (Some e, inst)
      | (None, inst) \<Rightarrow>
          (case run_callback (on_success (definition_of inst)) (inst\<lparr>inst_status := COMPLETED\<rparr>) of
             (err, inst) \<Rightarrow> (err, interfere_callback cancel AwaitOnSuccess (on_success (definition_of inst)) inst)))"

text \<open>
  The \<open>except\<close> clause: \<open>self.definition.steps[self.current_step_index]\<close> raises \<open>IndexError\<close> when there is
  no step, and then nothing of the clause after it runs.
\<close>

definition except_body :: "(await_point \<Rightarrow> bool) \<Rightarrow> py_error \<Rightarrow> 'w saga_instance
    \<Rightarrow> py_error option \<times> 'w saga_instance" where
  "except_body cancel e inst =
     (let inst = inst\<lparr>inst_error := Some e\<rparr>; sts = steps (definition_of inst) in
      if current_step_index inst < length sts
      then (None, compensate_all cancel (inst\<lparr>failed_step := Some (sts ! current_step_index inst)\<rparr>))
      else (Some IndexError, inst))"

definition saga_execute :: "(await_point \<Rightarrow> bool) \<Rightarrow> datetime \<Rightarrow> datetime \<Rightarrow> 'w saga_instance
    \<Rightarrow> saga_status result \<times> 'w saga_instance" where
  "saga_execute cancel start_time end_time inst =
     (case (case try_body cancel (inst\<lparr>inst_status := RUNNING, started_at := Some start_time\<rparr>) of
              (None, inst) \<Rightarrow> (None, inst) | (Some e, inst) \<Rightarrow> except_body cancel e inst) of
        (err, inst) \<Rightarrow>
          let inst = inst\<lparr>completed_at := Some end_time,
                ctx := dict_set ''saga_duration_seconds'' (JSeconds (instant end_time - instant start_time)) (ctx inst)\<rparr> in
          (case err of Some x \<Rightarrow> (Inl x, inst) | None \<Rightarrow> (Inr (inst_status inst), inst)))"

text \<open>\<open>SagaInstance.to_dict\<close>; \<open>str_of_error\<close> is \<open>str(e)\<close> of the exception, a parameter for exceptions of other classes.\<close>

definition instance_to_dict :: "(py_error \<Rightarrow> string) \<Rightarrow> 'w saga_instance \<Rightarrow> saga_context" where
  "instance_to_dict str_of_error inst =
     [(''instance_id'', JStr (instance_id inst)), (''saga_name'', JStr (saga_name (definition_of inst))),
      (''status'', JStr (saga_status_value (inst_status inst))),
      (''current_step_index'', JInt (int (current_step_index inst))),
      (''completed_steps'', JInt (int (length (completed_steps inst)))),
      (''total_steps'', JInt (int (length (steps (definition_of inst))))),
      (''started_at'', json_of_opt (map_option isoformat (started_at inst))),
      (''completed_at'', json_of_opt (map_option isoformat (completed_at inst))),
      (''error'', json_of_opt (map_option str_of_error (inst_error inst)))]"

end
