(* ===== verification/Saga_Steps.thy ===== *)
theory Saga_Steps
  imports Saga Py_Text
begin

text \<open>
  The ready-made steps of \<open>libs/saga_framework/step.py\<close>. gRPC stubs, the Kafka publisher, the HTTP client
  and the conversion of protobuf messages are arguments; what they do is a function of the world. The
  steps that run other steps (\<open>ConditionalStep\<close>, \<open>ParallelStep\<close>) run them with the model's own
  \<open>step_execute\<close>; the log of an inner step is not part of the outer step's log, the outer time limit does
  not expire while an inner step runs, and the steps of a \<open>ParallelStep\<close> run one after the
  other, in the order of the list, each on its own copy of the context. \<open>Parallel_Threads\<close> has the other
  schedules and the time limit.
\<close>

section \<open>Building a step\<close>

text \<open>The keyword arguments that the constructors hand on to \<open>SagaStep\<close>, with its defaults.\<close>

record step_kwargs =
  kw_retry_count :: int
  kw_retry_delay :: int
  kw_timeout :: int
  kw_is_compensatable :: bool

definition default_kwargs :: step_kwargs where
  "default_kwargs = \<lparr>kw_retry_count = 3, kw_retry_delay = 1000000, kw_timeout = 30000000,
     kw_is_compensatable = True\<rparr>"

definition new_step :: "string \<Rightarrow> string \<Rightarrow> 'w action \<Rightarrow> 'w callback option \<Rightarrow> step_kwargs \<Rightarrow> 'w saga_step" where
  "new_step sid name act undo kw = \<lparr>step_id = sid, step_name = name, action = act, compensation = undo,
     retry_count = kw_retry_count kw, retry_delay = kw_retry_delay kw, timeout = kw_timeout kw,
     is_compensatable = kw_is_compensatable kw\<rparr>"

text \<open>A call to the outside: it answers, exceeds the time limit of the step, or raises.\<close>

datatype 'a call_outcome = Answer 'a | NoAnswer | CallRaised py_error

section \<open>Calls\<close>

text \<open>\<open>_response_to_dict\<close>; \<open>message_to_dict\<close> is protobuf's \<open>MessageToDict\<close>, \<open>str_response\<close> is \<open>str\<close> on a response.\<close>

definition response_to_dict :: "('resp \<Rightarrow> saga_context result) \<Rightarrow> ('resp \<Rightarrow> string) \<Rightarrow> 'resp \<Rightarrow> saga_context" where
  "response_to_dict message_to_dict str_response r = (case message_to_dict r of
     Inr d \<Rightarrow> d | Inl _ \<Rightarrow> [(''response'', JStr (str_response r))])"

definition call_action :: "(saga_context \<Rightarrow> 'req result) \<Rightarrow> ('req \<Rightarrow> 'w \<Rightarrow> 'resp call_outcome \<times> 'w)
    \<Rightarrow> ('resp \<Rightarrow> saga_context option) \<Rightarrow> 'w action" where
  "call_action request_factory stub convert c w = (case request_factory c of
     Inl e \<Rightarrow> (Raised e, c, w)
   | Inr q \<Rightarrow> (case stub q w of
         (Answer r, w) \<Rightarrow> (Returned (convert r), c, w)
       | (NoAnswer, w) \<Rightarrow> (TimedOut, c, w)
       | (CallRaised e, w) \<Rightarrow> (Raised e, c, w)))"

text \<open>A compensating call; a timeout of \<open>wait_for\<close> is an exception like any other there.\<close>

definition call_compensation :: "(saga_context \<Rightarrow> 'req result) \<Rightarrow> ('req \<Rightarrow> 'w \<Rightarrow> 'resp call_outcome \<times> 'w) \<Rightarrow> 'w callback" where
  "call_compensation request_factory stub c w = (case request_factory c of
     Inl e \<Rightarrow> (Some e, c, w)
   | Inr q \<Rightarrow> (case stub q w of
         (Answer r, w) \<Rightarrow> (None, c, w)
       | (NoAnswer, w) \<Rightarrow> (Some (TimeoutError ''''), c, w)
       | (CallRaised e, w) \<Rightarrow> (Some e, c, w)))"

definition GrpcStep :: "string \<Rightarrow> string \<Rightarrow> ('req \<Rightarrow> 'w \<Rightarrow> 'resp call_outcome \<times> 'w) \<Rightarrow> (saga_context \<Rightarrow> 'req result)
    \<Rightarrow> ('req \<Rightarrow> 'w \<Rightarrow> 'resp call_outcome \<times> 'w) option \<Rightarrow> (saga_context \<Rightarrow> 'req result) option
    \<Rightarrow> ('resp \<Rightarrow> saga_context result) \<Rightarrow> ('resp \<Rightarrow> string) \<Rightarrow> step_kwargs \<Rightarrow> 'w saga_step" where
  "GrpcStep sid name stub request_factory comp_stub comp_factory message_to_dict str_response kw =
     new_step sid name
       (call_action request_factory stub (\<lambda>r. Some (response_to_dict message_to_dict str_response r)))
       (map_option (\<lambda>cs. call_compensation (case comp_factory of Some f \<Rightarrow> f | None \<Rightarrow> request_factory) cs) comp_stub)
       kw"

text \<open>
  The HTTP client with the method, url, body and headers of a request; its answer is the JSON object of
  a response that \<open>raise_for_status\<close> let through. Without a body factory the body is the context.
\<close>

type_synonym 'w http_client = "string \<Rightarrow> string \<Rightarrow> saga_context \<Rightarrow> (string \<times> string) list \<Rightarrow> 'w
  \<Rightarrow> saga_context call_outcome \<times> 'w"

definition HttpStep :: "string \<Rightarrow> 'w http_client \<Rightarrow> string \<Rightarrow> string \<Rightarrow> string \<Rightarrow> (saga_context \<Rightarrow> saga_context result) option
    \<Rightarrow> (string \<times> string) list option \<Rightarrow> string option \<Rightarrow> string \<Rightarrow> step_kwargs \<Rightarrow> 'w saga_step" where
  "HttpStep sid http name url meth body_factory headers comp_url comp_meth kw =
     new_step sid name
       (call_action (case body_factory of Some f \<Rightarrow> f | None \<Rightarrow> Inr)
         (\<lambda>body. http meth url body (case headers of Some h \<Rightarrow> h | None \<Rightarrow> [])) Some)
       (if truthy comp_url then Some (call_compensation Inr (\<lambda>body. http comp_meth (the comp_url) body [])) else None)
       kw"

text \<open>
  The value an event factory returns: an event, or the coroutine object that calling an \<open>async\<close> function
  without awaiting it gives, which has no \<open>get\<close>.
\<close>

datatype built_event = Event saga_context | Coroutine

fun built_event_id :: "built_event \<Rightarrow> json result" where
  "built_event_id (Event d) = Inr (get_or d ''event_id'' JNull)"
| "built_event_id Coroutine = Inl (AttributeError (quoted ''coroutine'' @ '' object has no attribute '' @ quoted ''get''))"

definition no_publisher :: py_error where
  "no_publisher = AttributeError (quoted ''NoneType'' @ '' object has no attribute '' @ quoted ''publish'')"

definition kafka_action :: "string \<Rightarrow> (saga_context \<Rightarrow> built_event result)
    \<Rightarrow> (string \<Rightarrow> built_event \<Rightarrow> 'w \<Rightarrow> unit call_outcome \<times> 'w) option \<Rightarrow> 'w action" where
  "kafka_action topic event_factory event_publisher c w = (case event_factory c of
     Inl e \<Rightarrow> (Raised e, c, w)
   | Inr ev \<Rightarrow> (case event_publisher of
         None \<Rightarrow> (Raised no_publisher, c, w)
       | Some publish \<Rightarrow> (case publish topic ev w of
             (Answer _, w) \<Rightarrow> (case built_event_id ev of
                 Inl e \<Rightarrow> (Raised e, c, w)
               | Inr i \<Rightarrow> (Returned (Some [(''published_event'', i)]), c, w))
           | (NoAnswer, w) \<Rightarrow> (TimedOut, c, w)
           | (CallRaised e, w) \<Rightarrow> (Raised e, c, w))))"

definition KafkaPublishStep :: "string \<Rightarrow> string \<Rightarrow> string \<Rightarrow> (saga_context \<Rightarrow> built_event result)
    \<Rightarrow> (string \<Rightarrow> built_event \<Rightarrow> 'w \<Rightarrow> unit call_outcome \<times> 'w) option \<Rightarrow> step_kwargs \<Rightarrow> 'w saga_step" where
  "KafkaPublishStep sid name topic event_factory event_publisher kw =
     new_step sid name (kafka_action topic event_factory event_publisher) None (kw\<lparr>kw_is_compensatable := False\<rparr>)"

section \<open>Steps that run steps\<close>

text \<open>\<open>await step.execute(context)\<close> inside an action, on the action's own context.\<close>

definition inner_execute :: "'w saga_step \<Rightarrow> 'w action" where
  "inner_execute st c w = (case step_execute st \<lparr>ctx = c, world = w, log = []\<rparr> of
     (Inr d, r) \<Rightarrow> (Returned (Some d), ctx r, world r) | (Inl e, r) \<Rightarrow> (Raised e, ctx r, world r))"

definition ConditionalStep :: "string \<Rightarrow> string \<Rightarrow> (saga_context \<Rightarrow> bool result) \<Rightarrow> 'w saga_step \<Rightarrow> 'w saga_step option
    \<Rightarrow> step_kwargs \<Rightarrow> 'w saga_step" where
  "ConditionalStep sid name condition st else_step kw = new_step sid name
     (\<lambda>c w. case condition c of
        Inl e \<Rightarrow> (Raised e, c, w)
      | Inr True \<Rightarrow> inner_execute st c w
      | Inr False \<Rightarrow> (case else_step of Some e \<Rightarrow> inner_execute e c w | None \<Rightarrow> (Returned (Some []), c, w)))
     (if is_compensatable st then compensation st else None) kw"

text \<open>\<open>json.dumps\<close> of the list of errors.\<close>

definition json_char :: "char \<Rightarrow> string" where
  "json_char c = (let n = code_point c in
     if c = CHR 0x22 \<or> n = 92 then [CHR 0x5C, c]
     else if n = 10 then [CHR 0x5C, CHR ''n''] else if n = 13 then [CHR 0x5C, CHR ''r'']
     else if n = 9 then [CHR 0x5C, CHR ''t''] else if n = 8 then [CHR 0x5C, CHR ''b'']
     else if n = 12 then [CHR 0x5C, CHR ''f'']
     else if n < 32 \<or> 127 \<le> n then if n = 127 then [c]
       else [CHR 0x5C, CHR ''u'', CHR ''0'', CHR ''0'', hex_digit (n div 16), hex_digit (n mod 16)]
     else [c])"

definition json_text :: "string \<Rightarrow> string" where
  "json_text s = CHR 0x22 # concat (map json_char s) @ [CHR 0x22]"

definition dumps_errors :: "(string \<times> py_error) list \<Rightarrow> string" where
  "dumps_errors es = ''['' @ py_join '', '' (map (\<lambda>(n, e). ''{'' @ json_text ''step'' @ '': '' @ json_text n
     @ '', '' @ json_text ''error'' @ '': '' @ json_text (str_of_error e) @ ''}'') es) @ '']''"

text \<open>
  \<open>asyncio.gather(*tasks, return_exceptions=True)\<close> over the inner steps: the results in the order of the
  steps; changes of the context copies are lost.
\<close>

fun gather_steps :: "'w saga_step list \<Rightarrow> saga_context \<Rightarrow> 'w \<Rightarrow> (string \<times> saga_context result) list \<times> 'w" where
  "gather_steps [] c w = ([], w)"
| "gather_steps (st # sts) c w = (case step_execute st \<lparr>ctx = c, world = w, log = []\<rparr> of (res, r) \<Rightarrow>
     (case gather_steps sts c (world r) of (rs, w) \<Rightarrow> ((step_name st, res) # rs, w)))"

definition step_errors :: "(string \<times> saga_context result) list \<Rightarrow> (string \<times> py_error) list" where
  "step_errors rs = List.map_filter (\<lambda>(n, r). case r of Inl e \<Rightarrow> Some (n, e) | Inr _ \<Rightarrow> None) rs"

definition combined_result :: "(string \<times> saga_context result) list \<Rightarrow> saga_context" where
  "combined_result rs = foldl (\<lambda>d (_, r). case r of Inl _ \<Rightarrow> d | Inr x \<Rightarrow> dict_update d x) [] rs"

definition parallel_action :: "'w saga_step list \<Rightarrow> 'w action" where
  "parallel_action sts c w = (case gather_steps sts c w of (rs, w) \<Rightarrow>
     (if step_errors rs \<noteq> []
      then (Raised (RuntimeError (''Parallel step failed: '' @ dumps_errors (step_errors rs))), c, w)
      else (Returned (Some (combined_result rs)), c, w)))"

fun gather_compensations :: "'w saga_step list \<Rightarrow> saga_context \<Rightarrow> 'w \<Rightarrow> 'w" where
  "gather_compensations [] c w = w"
| "gather_compensations (st # sts) c w =
     (if is_compensatable st \<and> compensation st \<noteq> None
      then gather_compensations sts c (world (snd (step_compensate st \<lparr>ctx = c, world = w, log = []\<rparr>)))
      else gather_compensations sts c w)"

definition ParallelStep :: "string \<Rightarrow> string \<Rightarrow> 'w saga_step list \<Rightarrow> step_kwargs \<Rightarrow> 'w saga_step" where
  "ParallelStep sid name sts kw = new_step sid name (parallel_action sts)
     (Some (\<lambda>c w. (None, c, gather_compensations sts c w))) kw"

end
