(* ===== verification/Workflows.thy ===== *)
theory Workflows
  imports Saga_Steps
begin

text \<open>
  The three workflows of \<open>services/workflow_service/saga/workflows.py\<close>. Their actions call nothing outside,
  so they leave the world alone; \<open>uid\<close> supplies the generated step ids.
\<close>

section \<open>Dynamic values\<close>

fun type_name :: "json \<Rightarrow> string" where
  "type_name JNull = ''NoneType''"
| "type_name (JBool _) = ''bool''"
| "type_name (JInt _) = ''int''"
| "type_name (JSeconds _) = ''float''"
| "type_name (JStr _) = ''str''"
| "type_name (JArr _) = ''list''"
| "type_name (JObj _) = ''dict''"

text \<open>A value on which \<open>get\<close> is called.\<close>

fun getter :: "json \<Rightarrow> (string \<times> json) list result" where
  "getter (JObj d) = Inr d"
| "getter v = Inl (AttributeError (quoted (type_name v) @ '' object has no attribute '' @ quoted ''get''))"

definition action_of :: "(saga_context \<Rightarrow> saga_context result) \<Rightarrow> 'w action" where
  "action_of f c w = (case f c of Inl e \<Rightarrow> (Raised e, c, w) | Inr d \<Rightarrow> (Returned (Some d), c, w))"

definition callback_of :: "(saga_context \<Rightarrow> unit result) \<Rightarrow> 'w callback" where
  "callback_of f c w = ((case f c of Inl e \<Rightarrow> Some e | Inr _ \<Rightarrow> None), c, w)"

definition new_saga :: "string \<Rightarrow> string \<Rightarrow> 'w saga_definition" where
  "new_saga sid name = \<lparr>saga_id = sid, saga_name = name, steps = [], on_success = None, on_failure = None\<rparr>"

section \<open>Onboarding\<close>

definition onboarding_create_task :: "saga_context \<Rightarrow> saga_context result" where
  "onboarding_create_task c = Inr [(''task'', JObj
     [(''id'', get_or c ''task_id'' (JStr '''')), (''title'', get_or c ''title'' (JStr '''')),
      (''description'', get_or c ''description'' (JStr '''')), (''priority'', get_or c ''priority'' (JStr ''medium'')),
      (''status'', JStr ''backlog''), (''assignee_id'', get_or c ''assignee_id'' JNull),
      (''created_by'', get_or c ''created_by'' (JStr ''system'')), (''version'', JInt 1)])]"

definition notify_assignee :: "saga_context \<Rightarrow> saga_context result" where
  "notify_assignee c = (let assignee_id = get_or c ''assignee_id'' JNull in
     if \<not> py_bool assignee_id then Inr [(''notification_sent'', JBool False)]
     else bind_r (getter (get_or c ''task'' (JObj []))) (\<lambda>task.
       Inr [(''notification_sent'', JBool True), (''notification'', JObj
         [(''recipient_id'', assignee_id), (''type'', JStr ''task_assigned''),
          (''title'', JStr (''New task assigned: '' @ str_json (get_or task ''title'' (JStr ''Untitled'')))),
          (''body'', get_or task ''description'' (JStr '''')),
          (''priority'', get_or task ''priority'' (JStr ''medium''))])]))"

definition create_audit_log :: "saga_context \<Rightarrow> saga_context result" where
  "create_audit_log c = bind_r (getter (get_or c ''task'' (JObj []))) (\<lambda>task.
     Inr [(''audit_entry'', JObj
       [(''action'', JStr ''task_created''), (''entity_type'', JStr ''task''),
        (''entity_id'', get_or task ''id'' (JStr '''')), (''user_id'', get_or c ''created_by'' (JStr ''system'')),
        (''details'', JObj [(''title'', get_or task ''title'' JNull), (''priority'', get_or task ''priority'' JNull)])])])"

text \<open>
  The body of \<open>_build_task_created_event\<close>. The function is \<open>async\<close>, so calling it as an event factory
  does not run this body: it gives a coroutine.
\<close>

definition build_task_created_event :: "saga_context \<Rightarrow> saga_context result" where
  "build_task_created_event c = bind_r (getter (get_or c ''task'' (JObj []))) (\<lambda>task.
     Inr [(''event_id'', get_or c ''saga_instance_id'' (JStr '''')), (''event_type'', JStr ''task.created''),
       (''aggregate_id'', get_or task ''id'' (JStr '''')), (''version'', JInt 1),
       (''data'', JObj [(''title'', get_or task ''title'' (JStr '''')),
          (''description'', get_or task ''description'' (JStr '''')),
          (''priority'', get_or task ''priority'' (JStr ''medium'')),
          (''assignee_id'', get_or task ''assignee_id'' JNull),
          (''created_by'', get_or task ''created_by'' (JStr ''system''))])])"

definition call_async :: "(saga_context \<Rightarrow> saga_context result) \<Rightarrow> saga_context \<Rightarrow> built_event result" where
  "call_async f c = Inr Coroutine"

definition onboarding_delete_task :: "saga_context \<Rightarrow> unit result" where
  "onboarding_delete_task c = map_r (\<lambda>_. ()) (getter (get_or c ''task'' (JObj [])))"

definition log_only :: "saga_context \<Rightarrow> unit result" where
  "log_only c = Inr ()"

definition task_onboarding :: "(nat \<Rightarrow> string) \<Rightarrow> 'w saga_definition" where
  "task_onboarding uid =
     add_step (KafkaPublishStep (uid 4) ''publish_task_created_event'' ''task.events''
       (call_async build_task_created_event) None default_kwargs)
     (add_step (new_step (uid 3) ''create_audit_log'' (action_of create_audit_log) None
       (default_kwargs\<lparr>kw_is_compensatable := False, kw_retry_count := 1, kw_timeout := 10000000\<rparr>))
     (add_step (new_step (uid 2) ''notify_assignee'' (action_of notify_assignee) (Some (callback_of log_only))
       (default_kwargs\<lparr>kw_retry_count := 2, kw_timeout := 15000000\<rparr>))
     (add_step (new_step (uid 1) ''create_task'' (action_of onboarding_create_task)
       (Some (callback_of onboarding_delete_task)) (default_kwargs\<lparr>kw_retry_delay := 2000000\<rparr>))
     (new_saga (uid 0) ''task_onboarding''))))"

section \<open>Approval\<close>

definition submit_for_review :: "saga_context \<Rightarrow> saga_context result" where
  "submit_for_review c = Inr [(''review_submitted'', JBool True), (''submitted_at'', get_or c ''timestamp'' JNull)]"

definition process_approval :: "saga_context \<Rightarrow> saga_context result" where
  "process_approval c = (if \<not> py_bool (get_or c ''auto_approve'' (JBool True))
     then Inl (RuntimeError ''Task was rejected during approval'')
     else Inr [(''approved'', JBool True), (''approved_by'', get_or c ''reviewer_id'' (JStr ''system''))])"

definition update_to_approved :: "saga_context \<Rightarrow> saga_context result" where
  "update_to_approved c = Inr [(''status_updated'', JBool True), (''new_status'', JStr ''approved'')]"

definition notify_stakeholders :: "saga_context \<Rightarrow> saga_context result" where
  "notify_stakeholders c = Inr [(''stakeholders_notified'', JBool True)]"

definition task_approval :: "(nat \<Rightarrow> string) \<Rightarrow> 'w saga_definition" where
  "task_approval uid =
     add_step (new_step (uid 4) ''notify_stakeholders'' (action_of notify_stakeholders) None
       (default_kwargs\<lparr>kw_is_compensatable := False, kw_retry_count := 2, kw_timeout := 10000000\<rparr>))
     (add_step (new_step (uid 3) ''update_task_status'' (action_of update_to_approved) (Some (callback_of log_only))
       (default_kwargs\<lparr>kw_timeout := 15000000\<rparr>))
     (add_step (new_step (uid 2) ''process_approval'' (action_of process_approval) (Some (callback_of log_only))
       (default_kwargs\<lparr>kw_retry_count := 1, kw_timeout := 60000000\<rparr>))
     (add_step (new_step (uid 1) ''submit_for_review'' (action_of submit_for_review) (Some (callback_of log_only))
       (default_kwargs\<lparr>kw_timeout := 20000000\<rparr>))
     (new_saga (uid 0) ''task_approval''))))"

section \<open>Bulk operations\<close>

definition process_task :: "json \<Rightarrow> json \<Rightarrow> saga_context \<Rightarrow> saga_context result" where
  "process_task tid operation c = Inr [(''result_'' @ str_json tid, JObj
     (if operation = JStr ''archive'' then [(''task_id'', tid), (''archived'', JBool True)]
      else if operation = JStr ''delete'' then [(''task_id'', tid), (''deleted'', JBool True)]
      else if operation = JStr ''reassign'' then
        [(''task_id'', tid), (''reassigned'', JBool True), (''new_assignee'', get_or c ''new_assignee_id'' JNull)]
      else [(''task_id'', tid), (''processed'', JBool True)]))]"

text \<open>\<open>isinstance(r, dict) and r.get("processed", False) or r.get("archived", False) or r.get("deleted", False)\<close>\<close>

definition counts_as_success :: "json \<Rightarrow> bool result" where
  "counts_as_success r =
     (case r of JObj d \<Rightarrow> if py_bool (get_or d ''processed'' (JBool False)) then Inr True
        else Inr (py_bool (get_or d ''archived'' (JBool False)) \<or> py_bool (get_or d ''deleted'' (JBool False)))
      | _ \<Rightarrow> map_r (\<lambda>_. False) (getter r))"

definition generate_summary :: "saga_context \<Rightarrow> saga_context result" where
  "generate_summary c =
     (let results = filter (\<lambda>(k, _). prefix ''result_'' k) c in
      bind_r (traverse_r counts_as_success (map snd results)) (\<lambda>flags.
        Inr [(''batch_summary'', JObj [(''total_processed'', JInt (int (length results))),
          (''succeeded'', JInt (int (length (filter id flags)))), (''failed'', JInt 0)])]))"

definition process_step :: "string \<Rightarrow> json \<Rightarrow> json \<Rightarrow> 'w saga_step" where
  "process_step sid operation tid = new_step sid (''process_'' @ str_json tid)
     (action_of (process_task tid operation)) None (default_kwargs\<lparr>kw_retry_count := 2\<rparr>)"

definition task_bulk :: "(nat \<Rightarrow> string) \<Rightarrow> json list \<Rightarrow> json \<Rightarrow> 'w saga_definition" where
  "task_bulk uid task_ids operation =
     add_step (new_step (uid 2) ''generate_summary'' (action_of generate_summary) None
       (default_kwargs\<lparr>kw_retry_count := 1, kw_timeout := 10000000\<rparr>))
     (add_step (ParallelStep (uid 1) (''bulk_'' @ str_json operation)
       (map (\<lambda>(i, tid). process_step (uid (i + 3)) operation tid) (enumerate 0 task_ids)) default_kwargs)
     (new_saga (uid 0) (''task_bulk_'' @ str_json operation)))"

end
