(* ===== verification/Saga_Execution.thy ===== *)
theory Saga_Execution
  imports Saga_Facts
begin

text \<open>
  The execution of a whole saga: which steps completed, which compensations ran, the final status, and
  the effect of a cancellation.
\<close>

section \<open>What a step leaves alone\<close>

text \<open>The names in the compensation entries of a log, in order.\<close>

fun compensating_names :: "saga_log list \<Rightarrow> string list" where
  "compensating_names [] = []"
| "compensating_names (StepCompensating n # ls) = n # compensating_names ls"
| "compensating_names (_ # ls) = compensating_names ls"

lemma compensating_names_append [simp]:
  "compensating_names (xs @ ys) = compensating_names xs @ compensating_names ys"
  by (induction xs rule: compensating_names.induct) auto

text \<open>Some compensation raised.\<close>

fun compensation_failed :: "saga_log list \<Rightarrow> bool" where
  "compensation_failed [] = False"
| "compensation_failed (CompensationFailed n # ls) = True"
| "compensation_failed (_ # ls) = compensation_failed ls"

lemma compensation_failed_append [simp]:
  "compensation_failed (xs @ ys) \<longleftrightarrow> compensation_failed xs \<or> compensation_failed ys"
  by (induction xs rule: compensation_failed.induct) auto

text \<open>The fields of an instance that are not those of the run.\<close>

definition same_instance :: "'w saga_instance \<Rightarrow> 'w saga_instance \<Rightarrow> bool" where
  "same_instance a b = (run.more a = run.more b \<and> compensating_names (log a) = compensating_names (log b)
     \<and> compensation_failed (log a) = compensation_failed (log b))"

lemma same_instance_refl [simp]: "same_instance a a"
  by (simp add: same_instance_def)

lemma same_instance_trans: "same_instance a b \<Longrightarrow> same_instance b c \<Longrightarrow> same_instance a c"
  by (simp add: same_instance_def)

lemma same_instance_fields:
  assumes "same_instance a b"
  shows "instance_id a = instance_id b" "definition_of a = definition_of b" "inst_status a = inst_status b"
    "current_step_index a = current_step_index b" "completed_steps a = completed_steps b"
    "failed_step a = failed_step b" "inst_error a = inst_error b" "started_at a = started_at b"
    "completed_at a = completed_at b" "compensating_names (log a) = compensating_names (log b)"
    "compensation_failed (log a) = compensation_failed (log b)"
  using assms by (cases a; cases b; simp add: same_instance_def)+

lemma attempt_step_same: "attempt_step st i a = (v, b) \<Longrightarrow> same_instance b a"
  by (cases a) (auto simp: attempt_step_def same_instance_def add_log_def Let_def
      split: prod.splits outcome.splits)

lemma backoff_same: "same_instance (backoff st i a) a"
  by (cases a) (simp add: backoff_def same_instance_def add_log_def)

lemma try_attempts_same: "try_attempts st is l a = (v, b) \<Longrightarrow> same_instance b a"
proof (induction "is" arbitrary: l a)
  case (Cons i "is")
  obtain u a1 where a1: "attempt_step st i a = (u, a1)" by fastforce
  note s1 = attempt_step_same [OF a1]
  show ?case
  proof (cases u)
    case (Inr d)
    then show ?thesis using Cons.prems a1 s1 by simp
  next
    case (Inl e)
    then have "try_attempts st is (Some e) (backoff st i a1) = (v, b)" using Cons.prems a1 by simp
    from Cons.IH [OF this] show ?thesis
      using backoff_same s1 same_instance_trans by blast
  qed
qed simp

lemma step_execute_same: "step_execute st a = (v, b) \<Longrightarrow> same_instance b a"
proof -
  assume "step_execute st a = (v, b)"
  then have "same_instance b (add_log (StepExecuting (step_name st)) a)"
    unfolding step_execute_def by (rule try_attempts_same)
  moreover have "same_instance (add_log (StepExecuting (step_name st)) a) a"
    by (cases a) (simp add: same_instance_def add_log_def)
  ultimately show ?thesis by (rule same_instance_trans)
qed

section \<open>The steps\<close>

lemma interfere_fields [simp]:
  "definition_of (interfere cancel p a) = definition_of a"
  "current_step_index (interfere cancel p a) = current_step_index a"
  "completed_steps (interfere cancel p a) = completed_steps a"
  "failed_step (interfere cancel p a) = failed_step a" "inst_error (interfere cancel p a) = inst_error a"
  "log (interfere cancel p a) = log a" "ctx (interfere cancel p a) = ctx a"
  "world (interfere cancel p a) = world a"
  by (simp_all add: interfere_def)

text \<open>The steps that completed are a prefix; all of them if no exception ended the loop.\<close>

lemma run_steps_spec:
  assumes "run_steps cancel i sts a = (err, b)"
  shows "\<exists>k \<le> length sts. completed_steps b = completed_steps a @ take k sts
    \<and> (err = None \<longrightarrow> k = length sts) \<and> (err \<noteq> None \<longrightarrow> k < length sts \<and> current_step_index b = i + k)
    \<and> definition_of b = definition_of a \<and> inst_error b = inst_error a
    \<and> compensating_names (log b) = compensating_names (log a)
    \<and> compensation_failed (log b) = compensation_failed (log a)"
  using assms
proof (induction sts arbitrary: i a)
  case (Cons st sts)
  let ?a = "a\<lparr>current_step_index := i, ctx := dict_set ''current_step'' (JStr (step_name st)) (ctx a)\<rparr>"
  obtain res a1 where a1: "step_execute st ?a = (res, a1)" by fastforce
  note f = same_instance_fields [OF step_execute_same [OF a1]]
  show ?case
  proof (cases res)
    case (Inl e)
    then show ?thesis using Cons.prems a1 f by (intro exI [of _ 0]) auto
  next
    case (Inr d)
    let ?i = "interfere cancel (AwaitStep i) a1"
    let ?a1 = "?i\<lparr>ctx := dict_update (ctx ?i) d, completed_steps := completed_steps ?i @ [st]\<rparr>"
    have "run_steps cancel (Suc i) sts ?a1 = (err, b)"
      using Cons.prems a1 Inr by (simp add: Let_def)
    from Cons.IH [OF this] obtain k where k: "k \<le> length sts"
      "completed_steps b = completed_steps ?a1 @ take k sts" "err = None \<longrightarrow> k = length sts"
      "err \<noteq> None \<longrightarrow> k < length sts \<and> current_step_index b = Suc i + k"
      "definition_of b = definition_of ?a1" "inst_error b = inst_error ?a1"
      "compensating_names (log b) = compensating_names (log ?a1)"
      "compensation_failed (log b) = compensation_failed (log ?a1)" by blast
    have same: "completed_steps ?a1 = completed_steps a @ [st]" "definition_of ?a1 = definition_of a"
      "inst_error ?a1 = inst_error a" "compensating_names (log ?a1) = compensating_names (log a)"
      "compensation_failed (log ?a1) = compensation_failed (log a)"
      by (simp_all add: f)
    show ?thesis
      by (rule exI [of _ "Suc k"]) (use k(1,3,4) in \<open>simp add: k(2,5-8) [unfolded same]\<close>)
  qed
qed auto

text \<open>After a full run of the loop the index is that of the last step.\<close>

lemma run_steps_index:
  "run_steps cancel i sts a = (None, b) \<Longrightarrow>
     current_step_index b = (if sts = [] then current_step_index a else i + length sts - 1)"
proof (induction sts arbitrary: i a)
  case (Cons st sts)
  let ?a = "a\<lparr>current_step_index := i, ctx := dict_set ''current_step'' (JStr (step_name st)) (ctx a)\<rparr>"
  obtain res a1 where a1: "step_execute st ?a = (res, a1)" by fastforce
  have "current_step_index a1 = i"
    using same_instance_fields(4) [OF step_execute_same [OF a1]] by simp
  with Cons a1 show ?case by (cases res) (auto simp: Let_def)
qed simp

section \<open>The compensations\<close>

definition can_compensate :: "'w saga_step \<Rightarrow> bool" where
  "can_compensate st = (compensation st \<noteq> None \<and> is_compensatable st)"

lemma step_compensate_spec:
  assumes "step_compensate st a = (err, b)"
  shows "run.more b = run.more a"
    "compensating_names (log b) = compensating_names (log a) @ (if can_compensate st then [step_name st] else [])"
    "compensation_failed (log b) \<longleftrightarrow> compensation_failed (log a) \<or> err \<noteq> None"
  using assms
  by (cases a; auto simp: step_compensate_def can_compensate_def add_log_def Let_def
      split: option.splits prod.splits if_splits)+

lemma more_fields:
  assumes "run.more b = run.more (a :: 'w saga_instance)"
  shows "definition_of b = definition_of a" "completed_steps b = completed_steps a"
    "inst_error b = inst_error a" "current_step_index b = current_step_index a"
    "failed_step b = failed_step a"
  using assms by (cases a; cases b; simp)+

lemma run_compensations_spec:
  assumes "run_compensations cancel i sts a = (errs, b)"
  shows "compensating_names (log b)
      = compensating_names (log a) @ map step_name (filter can_compensate sts)
    \<and> (compensation_failed (log b) \<longleftrightarrow> compensation_failed (log a) \<or> errs \<noteq> [])
    \<and> definition_of b = definition_of a \<and> completed_steps b = completed_steps a
    \<and> inst_error b = inst_error a \<and> current_step_index b = current_step_index a
    \<and> failed_step b = failed_step a"
  using assms
proof (induction sts arbitrary: i a errs b)
  case (Cons st sts)
  obtain err a1 where a1: "step_compensate st a = (err, a1)" by fastforce
  obtain errs' a2 where a2: "run_compensations cancel (Suc i) sts
    (interfere cancel (AwaitCompensation i) a1) = (errs', a2)" by fastforce
  have "b = a2" using Cons.prems a1 a2 by simp
  moreover have "errs = (case err of None \<Rightarrow> [] | Some e \<Rightarrow> [(step_name st, e)]) @ errs'"
    using Cons.prems a1 a2 by simp
  ultimately show ?case
    using Cons.IH [OF a2] step_compensate_spec(2,3) [OF a1] more_fields [OF step_compensate_spec(1) [OF a1]]
    by (auto split: option.splits)
qed simp

lemma run_callback_fields:
  assumes "run_callback f a = (err, b)"
  shows "run.more b = run.more a" "log b = log a"
  using assms by (cases a; auto simp: run_callback_def split: option.splits prod.splits)+

lemma interfere_callback_fields [simp]:
  "definition_of (interfere_callback cancel p f a) = definition_of a"
  "completed_steps (interfere_callback cancel p f a) = completed_steps a"
  "inst_error (interfere_callback cancel p f a) = inst_error a"
  "current_step_index (interfere_callback cancel p f a) = current_step_index a"
  "log (interfere_callback cancel p f a) = log a"
  by (simp_all add: interfere_callback_def)

lemma interfere_callback_status [simp]:
  "inst_status (interfere_callback cancel p f a)
    = (if f \<noteq> None \<and> cancel p then CANCELLED else inst_status a)"
  by (simp add: interfere_callback_def interfere_def)

lemma more_status: "run.more b = run.more (a :: 'w saga_instance) \<Longrightarrow> inst_status b = inst_status a"
  by (cases a; cases b; simp)

lemma compensate_all_spec:
  fixes a :: "'w saga_instance"
  shows "compensating_names (log (compensate_all cancel a))
      = compensating_names (log a) @ map step_name (filter can_compensate (rev (completed_steps a)))
    \<and> completed_steps (compensate_all cancel a) = completed_steps a
    \<and> inst_error (compensate_all cancel a) = inst_error a
    \<and> definition_of (compensate_all cancel a) = definition_of a"
    and "\<not> compensation_failed (log a) \<Longrightarrow> inst_status (compensate_all cancel a)
      = (if on_failure (definition_of a) \<noteq> None \<and> cancel AwaitOnFailure then CANCELLED
         else if compensation_failed (log (compensate_all cancel a)) then FAILED else COMPENSATED)"
proof -
  obtain errs b where b: "run_compensations cancel 0 (rev (completed_steps a)) (a\<lparr>inst_status := COMPENSATING\<rparr>)
    = (errs, b)" by fastforce
  let ?b = "b\<lparr>inst_status := (if errs \<noteq> [] then FAILED else COMPENSATED)\<rparr>"
  obtain x c where c: "run_callback (on_failure (definition_of ?b)) ?b = (x, c)" by fastforce
  have all: "compensate_all cancel a
      = interfere_callback cancel AwaitOnFailure (on_failure (definition_of ?b)) c"
    using b c by (simp add: compensate_all_def Let_def)
  note c_more = run_callback_fields(1) [OF c] and c_log = run_callback_fields(2) [OF c]
  note facts = run_compensations_spec [OF b] more_fields [OF c_more] more_status [OF c_more] c_log
  show "compensating_names (log (compensate_all cancel a))
      = compensating_names (log a) @ map step_name (filter can_compensate (rev (completed_steps a)))
    \<and> completed_steps (compensate_all cancel a) = completed_steps a
    \<and> inst_error (compensate_all cancel a) = inst_error a
    \<and> definition_of (compensate_all cancel a) = definition_of a"
    using facts by (simp add: all)
  show "\<not> compensation_failed (log a) \<Longrightarrow> inst_status (compensate_all cancel a)
      = (if on_failure (definition_of a) \<noteq> None \<and> cancel AwaitOnFailure then CANCELLED
         else if compensation_failed (log (compensate_all cancel a)) then FAILED else COMPENSATED)"
    using facts by (simp add: all)
qed

section \<open>The whole execution\<close>

lemma try_body_spec:
  assumes "try_body cancel a = (err, b)" "completed_steps a = []"
  shows "\<exists>k \<le> length (steps (definition_of a)). completed_steps b = take k (steps (definition_of a))
    \<and> (err = None \<longrightarrow> k = length (steps (definition_of a)))
    \<and> (err \<noteq> None \<and> steps (definition_of a) \<noteq> [] \<longrightarrow> current_step_index b < length (steps (definition_of a)))
    \<and> definition_of b = definition_of a \<and> inst_error b = inst_error a
    \<and> compensating_names (log b) = compensating_names (log a)
    \<and> compensation_failed (log b) = compensation_failed (log a)
    \<and> (err = None \<longrightarrow> inst_status b = (if on_success (definition_of a) \<noteq> None \<and> cancel AwaitOnSuccess
        then CANCELLED else COMPLETED))"
proof -
  let ?sts = "steps (definition_of a)"
  obtain e a1 where a1: "run_steps cancel 0 ?sts a = (e, a1)" by fastforce
  from run_steps_spec [OF a1] obtain k where k: "k \<le> length ?sts"
    "completed_steps a1 = take k ?sts" "e = None \<longrightarrow> k = length ?sts"
    "e \<noteq> None \<longrightarrow> k < length ?sts \<and> current_step_index a1 = k"
    "definition_of a1 = definition_of a" "inst_error a1 = inst_error a"
    "compensating_names (log a1) = compensating_names (log a)"
    "compensation_failed (log a1) = compensation_failed (log a)"
    using assms(2) by auto
  show ?thesis
  proof (cases e)
    case (Some x)
    then have "b = a1" "err = Some x" using assms(1) a1 by (simp_all add: try_body_def)
    then show ?thesis using k Some by (intro exI [of _ k]) auto
  next
    case None
    obtain y c where c: "run_callback (on_success (definition_of a1)) (a1\<lparr>inst_status := COMPLETED\<rparr>) = (y, c)"
      by fastforce
    have b: "b = interfere_callback cancel AwaitOnSuccess (on_success (definition_of c)) c" "err = y"
      using assms(1) a1 None c by (simp_all add: try_body_def)
    note m = more_fields [OF run_callback_fields(1) [OF c]] run_callback_fields(2) [OF c]
      more_status [OF run_callback_fields(1) [OF c]]
    have "?sts \<noteq> [] \<Longrightarrow> current_step_index a1 < length ?sts"
      using run_steps_index [of cancel 0 ?sts a a1] a1 None by (cases ?sts) simp_all
    then show ?thesis
      using k None m by (intro exI [of _ k]) (simp add: b)
  qed
qed

lemma execute_returns_status: "saga_execute cancel t0 t1 a = (Inr st, b) \<Longrightarrow> inst_status b = st"
  by (auto simp: saga_execute_def Let_def split: prod.splits option.splits)

text \<open>What both exits of an execution share.\<close>

lemma execute_spec:
  assumes "saga_execute cancel t0 t1 (new_instance iid d c w) = (Inr st, inst)"
  shows "\<exists>k \<le> length (steps d). completed_steps inst = take k (steps d)
    \<and> (inst_error inst = None \<longrightarrow> k = length (steps d) \<and> compensating_names (log inst) = []
        \<and> st = (if on_success d \<noteq> None \<and> cancel AwaitOnSuccess then CANCELLED else COMPLETED))
    \<and> (inst_error inst \<noteq> None \<longrightarrow> compensating_names (log inst)
          = map step_name (filter can_compensate (rev (take k (steps d))))
        \<and> st = (if on_failure d \<noteq> None \<and> cancel AwaitOnFailure then CANCELLED
            else if compensation_failed (log inst) then FAILED else COMPENSATED))"
proof -
  let ?a = "(new_instance iid d c w)\<lparr>inst_status := RUNNING, started_at := Some t0\<rparr>"
  have a: "completed_steps ?a = []" "definition_of ?a = d" "inst_error ?a = None" "log ?a = []"
    by (simp_all add: new_instance_def)
  obtain err b where b: "try_body cancel ?a = (err, b)" by fastforce
  from try_body_spec [OF b a(1)] obtain k where k: "k \<le> length (steps d)" "completed_steps b = take k (steps d)"
    "err = None \<longrightarrow> k = length (steps d)" "definition_of b = d" "inst_error b = None"
    "compensating_names (log b) = []" "\<not> compensation_failed (log b)"
    "err = None \<longrightarrow> inst_status b = (if on_success d \<noteq> None \<and> cancel AwaitOnSuccess
        then CANCELLED else COMPLETED)"
    unfolding a(2,3,4) by auto
  show ?thesis
  proof (cases err)
    case None
    then have "completed_steps inst = completed_steps b" "inst_error inst = inst_error b" "log inst = log b"
      "st = inst_status b"
      using assms b by (auto simp: saga_execute_def Let_def)
    then show ?thesis using k None by auto
  next
    case (Some e)
    let ?b = "b\<lparr>inst_error := Some e, failed_step := Some (steps (definition_of b) ! current_step_index b)\<rparr>"
    have inst: "completed_steps inst = completed_steps (compensate_all cancel ?b)"
      "inst_error inst = inst_error (compensate_all cancel ?b)" "log inst = log (compensate_all cancel ?b)"
      "st = inst_status (compensate_all cancel ?b)"
      using assms b Some by (auto simp: saga_execute_def except_body_def Let_def split: if_splits)
    have c: "\<not> compensation_failed (log ?b)" using k by simp
    show ?thesis
      using compensate_all_spec(1) [of cancel ?b] compensate_all_spec(2) [OF c, of cancel] k
      by (intro exI [of _ k]) (simp add: inst)
  qed
qed

text \<open>C2: Compensation is complete and in reverse order. Run a new saga instance: the completed steps are
  the first \<open>k\<close> steps of its definition; if nothing raised, they are all the steps and no compensation
  ran; if a step raised, the compensations that ran are those of exactly the completed steps that have
  one and are compensatable, the last completed first, each once, whether or not some of them raised.\<close>

theorem saga_compensates_completed_steps:
  assumes "saga_execute cancel t0 t1 (new_instance iid d c w) = (Inr st, inst)"
  shows "\<exists>k \<le> length (steps d). completed_steps inst = take k (steps d)
    \<and> (inst_error inst = None \<longrightarrow> k = length (steps d) \<and> compensating_names (log inst) = [])
    \<and> (inst_error inst \<noteq> None \<longrightarrow> compensating_names (log inst)
        = map step_name (filter can_compensate (rev (take k (steps d)))))"
  by (rule ex_forward [OF execute_spec [OF assms]]) (elim conjE, intro conjI impI; simp)

text \<open>C18: The final status. With no exception the saga ends \<open>COMPLETED\<close>; otherwise it ends \<open>FAILED\<close> if
  some compensation raised and \<open>COMPENSATED\<close> if none did. A \<open>cancel_saga\<close> changes that only if it arrives
  while the final callback (\<open>on_success\<close>, resp. \<open>on_failure\<close>) runs: at any other await its \<open>CANCELLED\<close> is
  overwritten.\<close>

theorem saga_final_status:
  assumes "saga_execute cancel t0 t1 (new_instance iid d c w) = (Inr st, inst)"
  shows "st = (if inst_error inst = None
     then if on_success d \<noteq> None \<and> cancel AwaitOnSuccess then CANCELLED else COMPLETED
     else if on_failure d \<noteq> None \<and> cancel AwaitOnFailure then CANCELLED
     else if compensation_failed (log inst) then FAILED else COMPENSATED)"
proof -
  let ?ok = "if on_success d \<noteq> None \<and> cancel AwaitOnSuccess then CANCELLED else COMPLETED"
  let ?failed = "if on_failure d \<noteq> None \<and> cancel AwaitOnFailure then CANCELLED
    else if compensation_failed (log inst) then FAILED else COMPENSATED"
  have "inst_error inst = None \<longrightarrow> st = ?ok" "inst_error inst \<noteq> None \<longrightarrow> st = ?failed"
    using execute_spec [OF assms] by blast+
  then show ?thesis by (cases "inst_error inst = None") (simp_all only: simp_thms if_True if_False)
qed

section \<open>Cancellation\<close>

text \<open>Setting the status before a step runs is setting it afterwards.\<close>

lemma attempt_step_status:
  "attempt_step st i (a\<lparr>inst_status := s\<rparr>) = apsnd (\<lambda>b. b\<lparr>inst_status := s\<rparr>) (attempt_step st i a)"
  by (cases a) (simp add: attempt_step_def add_log_def Let_def split: prod.splits outcome.splits)

lemma backoff_status: "backoff st i (a\<lparr>inst_status := s\<rparr>) = (backoff st i a)\<lparr>inst_status := s\<rparr>"
  by (cases a) (simp add: backoff_def add_log_def)

lemma try_attempts_status:
  "try_attempts st is l (a\<lparr>inst_status := s\<rparr>) = apsnd (\<lambda>b. b\<lparr>inst_status := s\<rparr>) (try_attempts st is l a)"
proof (induction "is" arbitrary: l a)
  case (Cons i "is")
  obtain u a1 where a1: "attempt_step st i a = (u, a1)" by fastforce
  show ?case
  proof (cases u)
    case (Inl e)
    then show ?thesis using Cons.IH [of "Some e" "backoff st i a1"]
      by (simp add: attempt_step_status a1 backoff_status)
  next
    case (Inr d)
    then show ?thesis by (simp add: attempt_step_status a1)
  qed
qed simp

lemma step_execute_status:
  "step_execute st (a\<lparr>inst_status := s\<rparr>) = apsnd (\<lambda>b. b\<lparr>inst_status := s\<rparr>) (step_execute st a)"
proof -
  have "add_log l (a\<lparr>inst_status := s\<rparr>) = (add_log l a)\<lparr>inst_status := s\<rparr>" for l
    by (cases a) (simp add: add_log_def)
  then show ?thesis by (simp only: step_execute_def try_attempts_status)
qed

lemma step_compensate_status:
  "step_compensate st (a\<lparr>inst_status := s\<rparr>) = apsnd (\<lambda>b. b\<lparr>inst_status := s\<rparr>) (step_compensate st a)"
  by (cases a) (simp add: step_compensate_def add_log_def Let_def split: prod.splits option.splits)

lemma run_callback_status:
  "run_callback f (a\<lparr>inst_status := s\<rparr>) = apsnd (\<lambda>b. b\<lparr>inst_status := s\<rparr>) (run_callback f a)"
  by (cases a) (simp add: run_callback_def split: prod.splits option.splits)

text \<open>Instances that agree on everything but the status.\<close>

definition same_but_status :: "'w saga_instance \<Rightarrow> 'w saga_instance \<Rightarrow> bool" where
  "same_but_status a b = (\<exists>s. b = a\<lparr>inst_status := s\<rparr>)"

lemma same_but_statusI [intro]: "same_but_status a (a\<lparr>inst_status := s\<rparr>)"
  by (auto simp: same_but_status_def)

lemma same_but_status_cong:
  assumes "same_but_status a b" "\<And>s. f (a\<lparr>inst_status := s\<rparr>) = (f a)\<lparr>inst_status := s\<rparr>"
  shows "same_but_status (f a) (f b)"
  using assms by (auto simp: same_but_status_def)

lemma same_but_status_interfere:
  "same_but_status a b \<Longrightarrow> same_but_status (interfere c p a) (interfere c' p' b)"
  by (cases a; cases b) (auto simp: same_but_status_def interfere_def)

lemma same_but_status_interfere_callback:
  "same_but_status a b \<Longrightarrow> same_but_status (interfere_callback c p f a) (interfere_callback c' p f b)"
  by (simp add: interfere_callback_def same_but_status_interfere)

lemma same_but_status_set:
  "same_but_status a b \<Longrightarrow> same_but_status (a\<lparr>inst_status := s\<rparr>) (b\<lparr>inst_status := s'\<rparr>)"
  by (cases a; cases b) (auto simp: same_but_status_def)

text \<open>A cancellation during the loop only changes the status.\<close>

lemma run_steps_cancel:
  assumes "same_but_status a b"
  shows "fst (run_steps c i sts a) = fst (run_steps c' i sts b)
    \<and> same_but_status (snd (run_steps c i sts a)) (snd (run_steps c' i sts b))"
  using assms
proof (induction sts arbitrary: i a b)
  case (Cons st sts)
  let ?set = "\<lambda>x. x\<lparr>current_step_index := i, ctx := dict_set ''current_step'' (JStr (step_name st)) (ctx x)\<rparr>"
  obtain s where s: "b = a\<lparr>inst_status := s\<rparr>" using Cons.prems by (auto simp: same_but_status_def)
  have "?set b = (?set a)\<lparr>inst_status := s\<rparr>" by (simp add: s)
  then have b1: "step_execute st (?set b) = apsnd (\<lambda>b. b\<lparr>inst_status := s\<rparr>) (step_execute st (?set a))"
    by (simp only: step_execute_status)
  obtain u a1 where a1: "step_execute st (?set a) = (u, a1)" by fastforce
  let ?i = "interfere c (AwaitStep i) a1" and ?j = "interfere c' (AwaitStep i) (a1\<lparr>inst_status := s\<rparr>)"
  have ij: "same_but_status ?i ?j" by (rule same_but_status_interfere) blast
  show ?case
  proof (cases u)
    case (Inl e)
    then show ?thesis using ij by (simp add: a1 b1)
  next
    case (Inr d)
    let ?upd = "\<lambda>x. x\<lparr>ctx := dict_update (ctx x) d, completed_steps := completed_steps x @ [st]\<rparr>"
    have "same_but_status (?upd ?i) (?upd ?j)" by (rule same_but_status_cong [OF ij]) simp
    from Cons.IH [OF this, of "Suc i"] show ?thesis by (simp add: a1 b1 Inr Let_def)
  qed
qed simp

lemma run_compensations_cancel:
  assumes "same_but_status a b"
  shows "fst (run_compensations c i sts a) = fst (run_compensations c' i sts b)
    \<and> same_but_status (snd (run_compensations c i sts a)) (snd (run_compensations c' i sts b))"
  using assms
proof (induction sts arbitrary: i a b)
  case (Cons st sts)
  obtain s where s: "b = a\<lparr>inst_status := s\<rparr>" using Cons.prems by (auto simp: same_but_status_def)
  obtain e a1 where a1: "step_compensate st a = (e, a1)" by fastforce
  have b1: "step_compensate st b = (e, a1\<lparr>inst_status := s\<rparr>)" by (simp add: s step_compensate_status a1)
  have "same_but_status (interfere c (AwaitCompensation i) a1)
      (interfere c' (AwaitCompensation i) (a1\<lparr>inst_status := s\<rparr>))"
    by (rule same_but_status_interfere) blast
  from Cons.IH [OF this, of "Suc i"] show ?case
    by (auto simp: a1 b1 split: prod.splits)
qed simp

lemma run_callback_cancel:
  assumes "same_but_status a b"
  shows "fst (run_callback f a) = fst (run_callback f b)
    \<and> same_but_status (snd (run_callback f a)) (snd (run_callback f b))"
  using assms by (auto simp: same_but_status_def run_callback_status)

lemma same_but_status_definition: "same_but_status a b \<Longrightarrow> definition_of b = definition_of a"
  by (auto simp: same_but_status_def)

lemma compensate_all_cancel:
  assumes "same_but_status a b"
  shows "same_but_status (compensate_all c a) (compensate_all c' b)"
proof -
  have cs: "completed_steps b = completed_steps a" using assms by (auto simp: same_but_status_def)
  obtain ea a1 where a1: "run_compensations c 0 (rev (completed_steps a)) (a\<lparr>inst_status := COMPENSATING\<rparr>)
    = (ea, a1)" by fastforce
  obtain eb b1 where b1: "run_compensations c' 0 (rev (completed_steps a)) (b\<lparr>inst_status := COMPENSATING\<rparr>)
    = (eb, b1)" by fastforce
  let ?fin = "if ea \<noteq> [] then FAILED else COMPENSATED"
  have r: "ea = eb" "same_but_status a1 b1"
    using run_compensations_cancel [OF same_but_status_set [OF assms], of c 0 _ COMPENSATING c' COMPENSATING]
      a1 b1 by (metis fst_conv, metis snd_conv)
  note f = same_but_status_set [OF r(2), of ?fin ?fin]
  have d: "definition_of b1 = definition_of a1" using r(2) by (rule same_but_status_definition)
  show ?thesis
    using run_callback_cancel [OF f, of "on_failure (definition_of a1)"]
    by (simp add: compensate_all_def a1 b1 cs d r(1) [symmetric] Let_def same_but_status_interfere_callback)
qed

lemma try_body_cancel:
  assumes "same_but_status a b"
  shows "fst (try_body c a) = fst (try_body c' b) \<and> same_but_status (snd (try_body c a)) (snd (try_body c' b))"
proof -
  obtain e a1 where a1: "run_steps c 0 (steps (definition_of a)) a = (e, a1)" by fastforce
  obtain e' b1 where b1: "run_steps c' 0 (steps (definition_of a)) b = (e', b1)" by fastforce
  have r: "e = e'" "same_but_status a1 b1"
    using run_steps_cancel [OF assms, of c 0 "steps (definition_of a)" c'] a1 b1 by simp_all
  note f = same_but_status_set [OF r(2), of COMPLETED COMPLETED]
  obtain x a2 where a2: "run_callback (on_success (definition_of a1)) (a1\<lparr>inst_status := COMPLETED\<rparr>) = (x, a2)"
    by fastforce
  obtain y b2 where b2: "run_callback (on_success (definition_of a1)) (b1\<lparr>inst_status := COMPLETED\<rparr>) = (y, b2)"
    by fastforce
  have xy: "x = y" "same_but_status a2 b2"
    using run_callback_cancel [OF f, of "on_success (definition_of a1)"] a2 b2 by simp_all
  note defs = same_but_status_definition [OF assms] same_but_status_definition [OF r(2)]
    same_but_status_definition [OF xy(2)]
  show ?thesis
    using xy r(2) same_but_status_interfere_callback [OF xy(2)]
    by (cases e) (simp_all add: try_body_def a1 b1 a2 b2 defs r(1) [symmetric])
qed

lemma except_body_cancel:
  assumes "same_but_status a b"
  shows "fst (except_body c e a) = fst (except_body c' e b)
    \<and> same_but_status (snd (except_body c e a)) (snd (except_body c' e b))"
proof -
  obtain s where s: "b = a\<lparr>inst_status := s\<rparr>" using assms by (auto simp: same_but_status_def)
  let ?upd = "\<lambda>x. x\<lparr>inst_error := Some e, failed_step := Some (steps (definition_of a) ! current_step_index a)\<rparr>"
  have "same_but_status (?upd a) (?upd b)" by (rule same_but_status_cong [OF assms]) simp
  from compensate_all_cancel [OF this, of c c']
  have "same_but_status (compensate_all c (?upd a)) (compensate_all c' (?upd b))" .
  moreover have "same_but_status (a\<lparr>inst_error := Some e\<rparr>) (b\<lparr>inst_error := Some e\<rparr>)"
    by (rule same_but_status_cong [OF assms]) simp
  ultimately show ?thesis by (simp add: except_body_def Let_def s)
qed

text \<open>C24: \<open>cancel_saga\<close> does not stop a running saga. Whenever it is called, and however often, the steps,
  retries and compensations that run, what they do to the context and to the world, the completed steps,
  the recorded error and whether \<open>execute\<close> raises are those of an execution without it: the two final
  instances differ at most in their status.\<close>

theorem cancel_saga_does_not_stop_execution:
  "(snd (saga_execute cancel t0 t1 inst))\<lparr>inst_status := PENDING\<rparr>
     = (snd (saga_execute (\<lambda>_. False) t0 t1 inst))\<lparr>inst_status := PENDING\<rparr>
   \<and> isl (fst (saga_execute cancel t0 t1 inst)) = isl (fst (saga_execute (\<lambda>_. False) t0 t1 inst))"
proof -
  let ?n = "\<lambda>_. False" and ?a = "inst\<lparr>inst_status := RUNNING, started_at := Some t0\<rparr>"
  let ?body = "\<lambda>c. case try_body c ?a of (None, i) \<Rightarrow> (None, i) | (Some e, i) \<Rightarrow> except_body c e i"
  obtain e a1 where a1: "try_body cancel ?a = (e, a1)" by fastforce
  obtain e' b1 where b1: "try_body ?n ?a = (e', b1)" by fastforce
  have "same_but_status ?a ?a" by (cases inst) (auto simp: same_but_status_def)
  from try_body_cancel [OF this, of cancel ?n] have r: "e = e'" "same_but_status a1 b1"
    using a1 b1 by simp_all
  obtain x a2 where a2: "?body cancel = (x, a2)" by fastforce
  obtain y b2 where b2: "?body ?n = (y, b2)" by fastforce
  have "x = y \<and> same_but_status a2 b2"
  proof (cases e)
    case None
    then show ?thesis using r a1 b1 a2 b2 by simp
  next
    case (Some u)
    then show ?thesis using except_body_cancel [OF r(2), of cancel u ?n] r(1) a1 b1 a2 b2 by simp
  qed
  then obtain s where "x = y" "b2 = a2\<lparr>inst_status := s\<rparr>" by (auto simp: same_but_status_def)
  then show ?thesis
    unfolding saga_execute_def a2 b2 by (simp add: Let_def split: option.splits)
qed

text \<open>When \<open>execute\<close> itself raises. It does so exactly if the definition has no step and \<open>on_success\<close>
  raises: the \<open>except\<close> clause then indexes the empty list of steps, the \<open>IndexError\<close> escapes, and
  \<open>on_failure\<close> is never called. A failing step or compensation never makes it raise.\<close>

theorem execute_raises_iff:
  "fst (saga_execute cancel t0 t1 (new_instance iid d c w)) = Inl e
     \<longleftrightarrow> e = IndexError \<and> steps d = []
       \<and> fst (run_callback (on_success d) (new_instance iid d c w)) \<noteq> None"
proof -
  let ?i = "new_instance iid d c w"
  let ?a = "?i\<lparr>inst_status := RUNNING, started_at := Some t0\<rparr>"
  have a: "completed_steps ?a = []" "definition_of ?a = d" by (simp_all add: new_instance_def)
  obtain err b where b: "try_body cancel ?a = (err, b)" by fastforce
  have raises: "fst (saga_execute cancel t0 t1 ?i) = Inl e
      \<longleftrightarrow> err \<noteq> None \<and> fst (except_body cancel (the err) b) = Some e"
    by (auto simp: saga_execute_def b Let_def split: option.splits prod.splits)
  have index: "fst (except_body cancel u b) = Some e \<longleftrightarrow>
      \<not> current_step_index b < length (steps d) \<and> e = IndexError" if "definition_of b = d" for u
    using that by (auto simp: except_body_def Let_def)
  show ?thesis
  proof (cases "steps d = []")
    case True
    have "fst (try_body cancel ?a) = fst (run_callback (on_success d) (?a\<lparr>inst_status := COMPLETED\<rparr>))"
      by (simp add: try_body_def a True split: prod.split)
    also have "\<dots> = fst (run_callback (on_success d) ?i)"
      by (simp add: run_callback_def split: option.split prod.split)
    finally have e: "err = fst (run_callback (on_success d) ?i)" using b by simp
    have "definition_of b = d" using try_body_spec [OF b a(1)] a(2) by auto
    from index [OF this] show ?thesis using raises e True by auto
  next
    case False
    with try_body_spec [OF b a(1)] a(2) have i: "err \<noteq> None \<longrightarrow> current_step_index b < length (steps d)"
      and d: "definition_of b = d" by auto
    from index [OF d] i show ?thesis using raises False by auto
  qed
qed

end
