(* ===== verification/Workflow_Facts.thy ===== *)
theory Workflow_Facts
  imports Workflows Saga_Execution
begin

text \<open>What the three workflows end in, for every initial context and whenever they are cancelled.\<close>

section \<open>Steps whose action does not depend on the world\<close>

text \<open>The action returns at the first attempt, or raises at every attempt.\<close>

lemma step_execute_ok:
  assumes "action st (ctx r) (world r) = (Returned (Some d), ctx r, world r)" "0 \<le> retry_count st"
  shows "step_execute st r
    = (Inr d, r\<lparr>log := log r @ [StepExecuting (step_name st), StepCompleted (step_name st) 1]\<rparr>)"
proof -
  have "[0..<nat (retry_count st + 1)] = 0 # [1..<nat (retry_count st + 1)]"
    using assms(2) by (simp add: upt_conv_Cons)
  then show ?thesis using assms(1)
    by (simp add: step_execute_def attempt_step_def add_log_def)
qed

lemma try_attempts_raise:
  assumes "action st (ctx r) (world r) = (Raised e, ctx r, world r)" "is \<noteq> []"
  shows "\<exists>ls. try_attempts st is l r = (Inl e, r\<lparr>log := log r @ ls\<rparr>)"
  using assms
proof (induction "is" arbitrary: l r)
  case (Cons i "is")
  have "backoff st i (add_log (StepFailed (step_name st) (i + 1)) r) = r\<lparr>log := log r @
      StepFailed (step_name st) (i + 1) # (if int i < retry_count st then [Slept (retry_delay st * 2 ^ i)] else [])\<rparr>"
    by (simp add: backoff_def add_log_def)
  then obtain ls where ls: "backoff st i (add_log (StepFailed (step_name st) (i + 1)) r) = r\<lparr>log := log r @ ls\<rparr>"
    by blast
  have a: "attempt_step st i r = (Inl e, add_log (StepFailed (step_name st) (i + 1)) r)"
    using Cons.prems(1) by (simp add: attempt_step_def)
  show ?case
  proof (cases "is = []")
    case True
    then show ?thesis using a ls by auto
  next
    case False
    obtain ls' where "try_attempts st is (Some e) (r\<lparr>log := log r @ ls\<rparr>)
        = (Inl e, (r\<lparr>log := log r @ ls\<rparr>)\<lparr>log := log (r\<lparr>log := log r @ ls\<rparr>) @ ls'\<rparr>)"
      using Cons.IH [of "r\<lparr>log := log r @ ls\<rparr>" "Some e"] Cons.prems(1) False by auto
    then show ?thesis using a ls by auto
  qed
qed simp

lemma step_execute_raise:
  assumes "action st (ctx r) (world r) = (Raised e, ctx r, world r)" "0 \<le> retry_count st"
  shows "\<exists>ls. step_execute st r = (Inl e, r\<lparr>log := log r @ ls\<rparr>)"
proof -
  have "[0..<nat (retry_count st + 1)] \<noteq> []" using assms(2) by simp
  from try_attempts_raise [OF _ this, of st "add_log (StepExecuting (step_name st)) r" e None] assms(1)
  show ?thesis by (auto simp: step_execute_def add_log_def)
qed

lemma new_step_fields [simp]:
  "step_name (new_step sid n a c kw) = n" "action (new_step sid n a c kw) = a"
  "compensation (new_step sid n a c kw) = c" "retry_count (new_step sid n a c kw) = kw_retry_count kw"
  "is_compensatable (new_step sid n a c kw) = kw_is_compensatable kw"
  by (simp_all add: new_step_def)

lemma add_step_fields [simp]:
  "steps (add_step st d) = steps d @ [st]" "on_success (add_step st d) = on_success d"
  "on_failure (add_step st d) = on_failure d"
  by (simp_all add: add_step_def)

lemma new_saga_fields [simp]:
  "steps (new_saga i n) = []" "on_success (new_saga i n) = None" "on_failure (new_saga i n) = None"
  by (simp_all add: new_saga_def)

lemma get_or_set: "get_or (dict_set k v d) k' x = (if k' = k then v else get_or d k' x)"
  by (simp add: get_or_def dict_get_set)

text \<open>One step of the loop, when the action is a function of the context.\<close>

lemma run_steps_pure:
  assumes "action st = action_of f" "0 \<le> retry_count st"
    and "f (dict_set ''current_step'' (JStr (step_name st)) (ctx a)) = Inr d"
  obtains b where "run_steps cancel i (st # sts) a = run_steps cancel (Suc i) sts b"
    "ctx b = dict_update (dict_set ''current_step'' (JStr (step_name st)) (ctx a)) d" "world b = world a"
    "completed_steps b = completed_steps a @ [st]" "definition_of b = definition_of a"
proof -
  let ?a = "a\<lparr>current_step_index := i, ctx := dict_set ''current_step'' (JStr (step_name st)) (ctx a)\<rparr>"
  let ?b = "interfere cancel (AwaitStep i) (?a\<lparr>log := log a @ [StepExecuting (step_name st), StepCompleted (step_name st) 1]\<rparr>)"
  have "step_execute st ?a = (Inr d, ?a\<lparr>log := log a @ [StepExecuting (step_name st), StepCompleted (step_name st) 1]\<rparr>)"
    using step_execute_ok [of st ?a d] assms by (simp add: action_of_def)
  then have "run_steps cancel i (st # sts) a = run_steps cancel (Suc i) sts
      (?b\<lparr>ctx := dict_update (ctx ?b) d, completed_steps := completed_steps ?b @ [st]\<rparr>)"
    by (simp add: Let_def)
  then show ?thesis by (rule that) simp_all
qed

lemma run_steps_raise:
  assumes "action st (dict_set ''current_step'' (JStr (step_name st)) (ctx a)) (world a)
      = (Raised e, dict_set ''current_step'' (JStr (step_name st)) (ctx a), world a)" "0 \<le> retry_count st"
  shows "\<exists>ls. run_steps cancel i (st # sts) a = (Some e, (interfere cancel (AwaitStep i) a)\<lparr>current_step_index := i,
    ctx := dict_set ''current_step'' (JStr (step_name st)) (ctx a), log := log a @ ls\<rparr>)"
proof -
  let ?a = "a\<lparr>current_step_index := i, ctx := dict_set ''current_step'' (JStr (step_name st)) (ctx a)\<rparr>"
  obtain ls where "step_execute st ?a = (Inl e, ?a\<lparr>log := log a @ ls\<rparr>)"
    using step_execute_raise [of st ?a e] assms by auto
  then show ?thesis by (intro exI [of _ ls]) (cases a; simp add: interfere_def)
qed

section \<open>Onboarding\<close>

lemma onboarding_steps:
  "steps (task_onboarding uid) =
    [new_step (uid 1) ''create_task'' (action_of onboarding_create_task)
       (Some (callback_of onboarding_delete_task)) (default_kwargs\<lparr>kw_retry_delay := 2000000\<rparr>),
     new_step (uid 2) ''notify_assignee'' (action_of notify_assignee) (Some (callback_of log_only))
       (default_kwargs\<lparr>kw_retry_count := 2, kw_timeout := 15000000\<rparr>),
     new_step (uid 3) ''create_audit_log'' (action_of create_audit_log) None
       (default_kwargs\<lparr>kw_is_compensatable := False, kw_retry_count := 1, kw_timeout := 10000000\<rparr>),
     KafkaPublishStep (uid 4) ''publish_task_created_event'' ''task.events''
       (call_async build_task_created_event) None default_kwargs]"
  by (simp add: task_onboarding_def)

lemma default_retry [simp]: "kw_retry_count default_kwargs = 3" "kw_is_compensatable default_kwargs"
  by (simp_all add: default_kwargs_def)

lemma onboarding_run:
  fixes a :: "'w saga_instance"
  shows "\<exists>b t. run_steps cancel 0 (steps (task_onboarding uid)) a = (Some no_publisher, b)
     \<and> completed_steps b = completed_steps a @ take 3 (steps (task_onboarding uid))
     \<and> get_or (ctx b) ''task'' (JObj []) = JObj t"
proof -
  let ?cur = "\<lambda>n a. dict_set ''current_step'' (JStr n) (ctx a)"
  obtain t where t: "onboarding_create_task (?cur ''create_task'' a) = Inr [(''task'', JObj t)]"
    by (simp add: onboarding_create_task_def)
  obtain a1 where a1: "run_steps cancel 0 (steps (task_onboarding uid)) a
      = run_steps cancel (Suc 0) (tl (steps (task_onboarding uid))) a1"
    "ctx a1 = dict_set ''task'' (JObj t) (?cur ''create_task'' a)"
    "completed_steps a1 = completed_steps a @ take 1 (steps (task_onboarding uid))"
    by (rule run_steps_pure [where st = "hd (steps (task_onboarding uid))" and f = onboarding_create_task
        and a = a and sts = "tl (steps (task_onboarding uid))" and d = "[(''task'', JObj t)]" and i = 0 and cancel = cancel])
      (use t in \<open>auto simp: onboarding_steps\<close>)
  have task1: "get_or (?cur ''notify_assignee'' a1) ''task'' (JObj []) = JObj t" by (simp add: a1(2) get_or_set)
  obtain d where d: "notify_assignee (?cur ''notify_assignee'' a1) = Inr d" "dict_get d ''task'' = None"
    using task1 by (cases "py_bool (get_or (?cur ''notify_assignee'' a1) ''assignee_id'' JNull)")
      (auto simp: notify_assignee_def Let_def)
  obtain a2 where a2: "run_steps cancel (Suc 0) (tl (steps (task_onboarding uid))) a1
      = run_steps cancel (Suc (Suc 0)) (tl (tl (steps (task_onboarding uid)))) a2"
    "ctx a2 = dict_update (?cur ''notify_assignee'' a1) d"
    "completed_steps a2 = completed_steps a @ take 2 (steps (task_onboarding uid))"
    by (rule run_steps_pure [where st = "hd (tl (steps (task_onboarding uid)))" and f = notify_assignee
        and a = a1 and sts = "tl (tl (steps (task_onboarding uid)))" and d = d and i = "Suc 0" and cancel = cancel])
      (use d a1(3) in \<open>auto simp: onboarding_steps\<close>)
  have task2: "get_or (?cur ''create_audit_log'' a2) ''task'' (JObj []) = JObj t"
    using task1 d(2) by (simp add: a2(2) get_or_set) (simp add: get_or_def dict_get_update_None dict_get_set)
  obtain e where e: "create_audit_log (?cur ''create_audit_log'' a2) = Inr [(''audit_entry'', e)]"
    using task2 by (simp add: create_audit_log_def)
  obtain a3 where a3: "run_steps cancel (Suc (Suc 0)) (tl (tl (steps (task_onboarding uid)))) a2
      = run_steps cancel 3 (drop 3 (steps (task_onboarding uid))) a3"
    "ctx a3 = dict_set ''audit_entry'' e (?cur ''create_audit_log'' a2)"
    "completed_steps a3 = completed_steps a @ take 3 (steps (task_onboarding uid))"
    by (rule run_steps_pure [where st = "hd (tl (tl (steps (task_onboarding uid))))" and f = create_audit_log
        and a = a2 and sts = "drop 3 (steps (task_onboarding uid))" and d = "[(''audit_entry'', e)]"
        and i = "Suc (Suc 0)" and cancel = cancel])
      (use e a2(3) in \<open>auto simp: onboarding_steps numeral_3_eq_3\<close>)
  let ?kafka = "KafkaPublishStep (uid 4) ''publish_task_created_event'' ''task.events''
    (call_async build_task_created_event) None default_kwargs :: 'w saga_step"
  have last: "drop 3 (steps (task_onboarding uid)) = [?kafka]" by (simp add: onboarding_steps)
  have "action ?kafka c w = (Raised no_publisher, c, w)" for c w
    by (simp add: KafkaPublishStep_def kafka_action_def call_async_def)
  moreover have "0 \<le> retry_count ?kafka" by (simp add: KafkaPublishStep_def)
  ultimately obtain ls where ls: "run_steps cancel 3 [?kafka] a3
      = (Some no_publisher, (interfere cancel (AwaitStep 3) a3)\<lparr>current_step_index := 3,
         ctx := ?cur (step_name ?kafka) a3, log := log a3 @ ls\<rparr>)"
    using run_steps_raise [of ?kafka a3 no_publisher cancel 3 "[]"] by blast
  have "get_or (?cur (step_name ?kafka) a3) ''task'' (JObj []) = JObj t"
    using task2 by (simp add: a3(2) get_or_set)
  then show ?thesis using ls last a1 a2 a3 by simp
qed

lemma onboarding_compensation:
  fixes a :: "'w saga_instance"
  assumes "completed_steps a = take 3 (steps (task_onboarding uid))" "get_or (ctx a) ''task'' (JObj []) = JObj t"
    and "on_failure (definition_of a) = None"
  shows "inst_status (compensate_all cancel a) = COMPENSATED"
    "compensating_names (log (compensate_all cancel a))
      = compensating_names (log a) @ [''notify_assignee'', ''create_task'']"
    "inst_error (compensate_all cancel a) = inst_error a"
    "completed_steps (compensate_all cancel a) = completed_steps a"
proof -
  have spec: "compensating_names (log (compensate_all cancel a))
      = compensating_names (log a) @ map step_name (filter can_compensate (rev (completed_steps a)))"
    using compensate_all_spec(1) [of cancel a] by blast
  show "compensating_names (log (compensate_all cancel a))
      = compensating_names (log a) @ [''notify_assignee'', ''create_task'']"
    unfolding spec assms(1) by (simp add: onboarding_steps can_compensate_def)
  show "inst_error (compensate_all cancel a) = inst_error a"
    "completed_steps (compensate_all cancel a) = completed_steps a"
    using compensate_all_spec(1) [of cancel a] by blast+
  have "step_compensate (new_step i n f None kw) b = (None, add_log (NoCompensation n) b)"
    for i n f kw and b :: "'w saga_instance"
    by (simp add: step_compensate_def)
  moreover have "step_compensate (new_step i n f (Some (callback_of log_only)) kw) b
      = (None, add_log (StepCompensated n) (add_log (StepCompensating n) b))"
    if "kw_is_compensatable kw" for i n f kw and b :: "'w saga_instance"
    using that by (cases b) (simp add: step_compensate_def callback_of_def log_only_def add_log_def)
  moreover have "step_compensate (new_step i n f (Some (callback_of onboarding_delete_task)) kw) b
      = (None, add_log (StepCompensated n) (add_log (StepCompensating n) b))"
    if "kw_is_compensatable kw" "get_or (ctx b) ''task'' (JObj []) = JObj t" for i n f kw and b :: "'w saga_instance"
    using that by (cases b) (simp add: step_compensate_def callback_of_def onboarding_delete_task_def add_log_def)
  ultimately have "fst (run_compensations cancel 0 (rev (take 3 (steps (task_onboarding uid))))
      (a\<lparr>inst_status := COMPENSATING\<rparr>)) = []"
    using assms(2) by (simp add: onboarding_steps numeral_3_eq_3)
  then have "fst (run_compensations cancel 0 (rev (completed_steps a)) (a\<lparr>inst_status := COMPENSATING\<rparr>)) = []"
    by (simp only: assms(1))
  moreover obtain errs b where b: "run_compensations cancel 0 (rev (completed_steps a)) (a\<lparr>inst_status := COMPENSATING\<rparr>)
      = (errs, b)" by fastforce
  moreover have "definition_of b = definition_of a" using run_compensations_spec [OF b] by simp
  ultimately show "inst_status (compensate_all cancel a) = COMPENSATED"
    using assms(3) by (simp add: compensate_all_def run_callback_def Let_def)
qed

lemma onboarding_outcome:
  "let (res, inst) = saga_execute cancel t0 t1 (new_instance iid (task_onboarding uid) c w) in
     res = Inr COMPENSATED \<and> inst_error inst = Some no_publisher
     \<and> map step_name (completed_steps inst) = [''create_task'', ''notify_assignee'', ''create_audit_log'']
     \<and> compensating_names (log inst) = [''notify_assignee'', ''create_task'']"
proof -
  let ?d = "task_onboarding uid :: 'a saga_definition"
  let ?a = "(new_instance iid ?d c w)\<lparr>inst_status := RUNNING, started_at := Some t0\<rparr>"
  have a: "definition_of ?a = ?d" "completed_steps ?a = []" "log ?a = []" by (simp_all add: new_instance_def)
  obtain b t where b: "run_steps cancel 0 (steps ?d) ?a = (Some no_publisher, b)"
    "completed_steps b = take 3 (steps ?d)" "get_or (ctx b) ''task'' (JObj []) = JObj t"
    using onboarding_run [of cancel uid ?a] a(2) by auto
  from run_steps_spec [OF b(1)] a have spec: "current_step_index b < length (steps ?d)" "definition_of b = ?d"
    "compensating_names (log b) = []" by auto
  let ?b = "b\<lparr>inst_error := Some no_publisher, failed_step := Some (steps ?d ! current_step_index b)\<rparr>"
  have f: "on_failure (definition_of ?b) = None" using spec(2) by (simp add: task_onboarding_def)
  have c: "completed_steps ?b = take 3 (steps ?d)" "get_or (ctx ?b) ''task'' (JObj []) = JObj t" using b by simp_all
  note comp = onboarding_compensation [OF c f, of cancel]
  have "try_body cancel ?a = (Some no_publisher, b)" using b(1) a(1) by (simp add: try_body_def)
  then show ?thesis using comp spec b(2)
    by (simp add: saga_execute_def except_body_def Let_def onboarding_steps numeral_3_eq_3)
qed

text \<open>The onboarding workflow never completes. For every initial context and whatever cancellations,
  its last step fails at every attempt, since no publisher is ever set; the three steps before it have
  completed, the notification and the task are compensated in this order, and the saga ends
  \<open>COMPENSATED\<close> with an \<open>AttributeError\<close>.\<close>

theorem onboarding_always_compensated:
  "let (res, inst) = saga_execute cancel t0 t1 (new_instance iid (task_onboarding uid) c w) in
     res = Inr COMPENSATED \<and> inst_error inst = Some no_publisher
     \<and> map step_name (completed_steps inst) = [''create_task'', ''notify_assignee'', ''create_audit_log'']
     \<and> compensating_names (log inst) = [''notify_assignee'', ''create_task'']"
  by (rule onboarding_outcome)

section \<open>Workflows of pure actions\<close>

text \<open>What a sequence of actions that are functions of the context computes, and how many complete.\<close>

fun pure_run :: "(string \<times> (saga_context \<Rightarrow> saga_context result)) list \<Rightarrow> saga_context
    \<Rightarrow> py_error option \<times> saga_context \<times> nat" where
  "pure_run [] c = (None, c, 0)"
| "pure_run ((n, f) # ps) c = (let c = dict_set ''current_step'' (JStr n) c in
     case f c of Inl e \<Rightarrow> (Some e, c, 0)
     | Inr d \<Rightarrow> (case pure_run ps (dict_update c d) of (err, c, k) \<Rightarrow> (err, c, Suc k)))"

definition pure_step :: "string \<times> (saga_context \<Rightarrow> saga_context result) \<Rightarrow> 'w saga_step \<Rightarrow> bool" where
  "pure_step p st = (step_name st = fst p \<and> action st = action_of (snd p) \<and> 0 \<le> retry_count st)"

lemma run_steps_pure_run:
  assumes "list_all2 pure_step ps sts" "pure_run ps (ctx a) = (err, c, k)"
  shows "\<exists>b. run_steps cancel i sts a = (err, b) \<and> ctx b = c \<and> completed_steps b = completed_steps a @ take k sts"
  using assms
proof (induction ps sts arbitrary: i a k rule: list_all2_induct)
  case Nil
  then show ?case by auto
next
  case (Cons p ps st sts)
  obtain n f where p: "p = (n, f)" by (cases p)
  have st: "step_name st = n" "action st = action_of f" "0 \<le> retry_count st"
    using Cons.hyps(1) by (simp_all add: pure_step_def p)
  let ?c = "dict_set ''current_step'' (JStr n) (ctx a)"
  show ?case
  proof (cases "f ?c")
    case (Inl e)
    have "action st ?c (world a) = (Raised e, ?c, world a)" using st(2) Inl by (simp add: action_of_def)
    with run_steps_raise [of st a e cancel i sts] st(1,3) obtain ls where
      "run_steps cancel i (st # sts) a = (Some e, (interfere cancel (AwaitStep i) a)\<lparr>current_step_index := i,
         ctx := ?c, log := log a @ ls\<rparr>)" by auto
    then show ?thesis using Cons.prems Inl by (simp add: p Let_def)
  next
    case (Inr d)
    obtain err' c' k' where r: "pure_run ps (dict_update ?c d) = (err', c', k')" by (metis prod.collapse)
    have k: "err = err'" "c = c'" "k = Suc k'" using Cons.prems Inr r by (simp_all add: p Let_def)
    obtain b where b: "run_steps cancel i (st # sts) a = run_steps cancel (Suc i) sts b"
      "ctx b = dict_update ?c d" "completed_steps b = completed_steps a @ [st]"
      using run_steps_pure [OF st(2,3), of a d cancel i sts] Inr st(1) by metis
    from Cons.IH [of b k' "Suc i"] r k b show ?thesis by auto
  qed
qed

text \<open>The outcome of a saga of such steps without callbacks, whose compensations do nothing.\<close>

definition silent :: "'w saga_step \<Rightarrow> bool" where
  "silent st = (compensation st \<in> {None, Some (callback_of log_only)} \<or> \<not> is_compensatable st)"

lemma silent_compensations:
  "list_all silent sts \<Longrightarrow> fst (run_compensations cancel i sts a) = []"
proof (induction sts arbitrary: i a)
  case (Cons st sts)
  have "fst (step_compensate st a) = None"
    using Cons.prems by (auto simp: silent_def step_compensate_def callback_of_def log_only_def Let_def split: option.splits)
  then show ?case using Cons by (auto split: prod.splits) (metis fst_conv)
qed simp

lemma pure_saga_outcome:
  fixes d :: "'w saga_definition"
  assumes "list_all2 pure_step ps (steps d)" "list_all silent (steps d)"
    and "on_success d = None" "on_failure d = None"
    and "pure_run ps (dict_set ''saga_instance_id'' (JStr iid) c) = (err, c', k)"
    and "saga_execute cancel t0 t1 (new_instance iid d c w) = (res, inst)"
  shows "res = Inr (if err = None then COMPLETED else COMPENSATED)" "inst_error inst = err"
    "completed_steps inst = take k (steps d)"
    "err = None \<Longrightarrow> k' \<noteq> ''saga_duration_seconds'' \<Longrightarrow> get_or (ctx inst) k' x = get_or c' k' x"
proof -
  let ?a = "(new_instance iid d c w)\<lparr>inst_status := RUNNING, started_at := Some t0\<rparr>"
  have a: "definition_of ?a = d" "completed_steps ?a = []" "inst_error ?a = None" "log ?a = []"
    "ctx ?a = dict_set ''saga_instance_id'' (JStr iid) c" by (simp_all add: new_instance_def)
  have run: "pure_run ps (ctx ?a) = (err, c', k)" using assms(5) a(5) by simp
  from run_steps_pure_run [OF assms(1) run, of cancel 0] obtain b where
    b: "run_steps cancel 0 (steps d) ?a = (err, b)" "ctx b = c'" "completed_steps b = take k (steps d)"
    using a(2) by auto
  from run_steps_spec [OF b(1)] a have spec: "err \<noteq> None \<longrightarrow> current_step_index b < length (steps d)"
    "definition_of b = d" "inst_error b = None" by auto
  have res: "res = Inr (if err = None then COMPLETED else COMPENSATED) \<and> inst_error inst = err
    \<and> completed_steps inst = take k (steps d)
    \<and> (err = None \<longrightarrow> k' \<noteq> ''saga_duration_seconds'' \<longrightarrow> get_or (ctx inst) k' x = get_or c' k' x)"
  proof (cases err)
    case None
    then have "try_body cancel ?a = (None, b\<lparr>inst_status := COMPLETED\<rparr>)"
      using b(1) a(1) spec(2) assms(3) by (simp add: try_body_def run_callback_def interfere_callback_def)
    then show ?thesis using None assms(6) b(2,3) spec(3)
      by (auto simp: saga_execute_def Let_def get_or_set)
  next
    case (Some e)
    let ?b = "b\<lparr>inst_error := Some e, failed_step := Some (steps d ! current_step_index b)\<rparr>"
    have body: "try_body cancel ?a = (Some e, b)" using b(1) a(1) Some by (simp add: try_body_def)
    have "list_all silent (rev (completed_steps ?b))"
      using assms(2) b(3) by (auto simp: list_all_iff dest: in_set_takeD)
    from silent_compensations [OF this]
    have "inst_status (compensate_all cancel ?b) = COMPENSATED"
    proof -
      obtain errs x where x: "run_compensations cancel 0 (rev (completed_steps ?b)) (?b\<lparr>inst_status := COMPENSATING\<rparr>)
        = (errs, x)" by fastforce
      then have "errs = []" using silent_compensations [OF \<open>list_all silent (rev (completed_steps ?b))\<close>] by (metis fst_conv)
      moreover have "definition_of x = d" using run_compensations_spec [OF x] spec(2) by simp
      ultimately show ?thesis using x assms(4)
        by (simp add: compensate_all_def run_callback_def interfere_callback_def Let_def)
    qed
    then show ?thesis using body Some assms(6) spec b(3) compensate_all_spec(1) [of cancel ?b]
      by (auto simp: saga_execute_def except_body_def Let_def)
  qed
  then show "res = Inr (if err = None then COMPLETED else COMPENSATED)" "inst_error inst = err"
    "completed_steps inst = take k (steps d)"
    "err = None \<Longrightarrow> k' \<noteq> ''saga_duration_seconds'' \<Longrightarrow> get_or (ctx inst) k' x = get_or c' k' x" by auto
qed

section \<open>Approval\<close>

lemma approval_steps:
  "steps (task_approval uid) =
    [new_step (uid 1) ''submit_for_review'' (action_of submit_for_review) (Some (callback_of log_only))
       (default_kwargs\<lparr>kw_timeout := 20000000\<rparr>),
     new_step (uid 2) ''process_approval'' (action_of process_approval) (Some (callback_of log_only))
       (default_kwargs\<lparr>kw_retry_count := 1, kw_timeout := 60000000\<rparr>),
     new_step (uid 3) ''update_task_status'' (action_of update_to_approved) (Some (callback_of log_only))
       (default_kwargs\<lparr>kw_timeout := 15000000\<rparr>),
     new_step (uid 4) ''notify_stakeholders'' (action_of notify_stakeholders) None
       (default_kwargs\<lparr>kw_is_compensatable := False, kw_retry_count := 2, kw_timeout := 10000000\<rparr>)]"
  by (simp add: task_approval_def)

text \<open>C40: The approval workflow decides by \<open>auto_approve\<close> alone: if it is missing or true the saga ends
  \<open>COMPLETED\<close> with the new status in its context; otherwise it ends \<open>COMPENSATED\<close> with only the submission
  completed. Neither depends on the rest of the context or on cancellations.\<close>

theorem approval_outcome:
  "let (res, inst) = saga_execute cancel t0 t1 (new_instance iid (task_approval uid) c w) in
     if py_bool (get_or c ''auto_approve'' (JBool True))
     then res = Inr COMPLETED \<and> inst_error inst = None
       \<and> get_or (ctx inst) ''new_status'' JNull = JStr ''approved''
       \<and> get_or (ctx inst) ''approved_by'' JNull = get_or c ''reviewer_id'' (JStr ''system'')
     else res = Inr COMPENSATED \<and> inst_error inst = Some (RuntimeError ''Task was rejected during approval'')
       \<and> map step_name (completed_steps inst) = [''submit_for_review'']"
proof -
  let ?d = "task_approval uid :: 'a saga_definition"
  let ?ps = "[(''submit_for_review'', submit_for_review), (''process_approval'', process_approval),
    (''update_task_status'', update_to_approved), (''notify_stakeholders'', notify_stakeholders)]"
  obtain res inst where e: "saga_execute cancel t0 t1 (new_instance iid ?d c w) = (res, inst)" by fastforce
  obtain err c' k where r: "pure_run ?ps (dict_set ''saga_instance_id'' (JStr iid) c) = (err, c', k)"
    by (metis prod.collapse)
  have ps: "list_all2 pure_step ?ps (steps ?d)" by (simp add: approval_steps pure_step_def)
  have silent: "list_all silent (steps ?d)" by (simp add: approval_steps silent_def)
  have cb: "on_success ?d = None" "on_failure ?d = None" by (simp_all add: task_approval_def)
  note out = pure_saga_outcome [OF ps silent cb r e]
  note defs = submit_for_review_def process_approval_def update_to_approved_def notify_stakeholders_def
  show ?thesis
  proof (cases "py_bool (get_or c ''auto_approve'' (JBool True))")
    case True
    then have "err = None" "get_or c' ''new_status'' JNull = JStr ''approved''"
      "get_or c' ''approved_by'' JNull = get_or c ''reviewer_id'' (JStr ''system'')"
      using r by (auto simp: defs get_or_set Let_def)
    then show ?thesis using out(1,2) out(4) [of "''new_status''" JNull] out(4) [of "''approved_by''" JNull] True e
      by simp
  next
    case False
    then have "err = Some (RuntimeError ''Task was rejected during approval'')" "k = 1"
      using r by (auto simp: defs get_or_set Let_def)
    then show ?thesis using out(1-3) False e by (simp add: approval_steps)
  qed
qed

section \<open>Bulk operations\<close>

definition result_key :: "json \<Rightarrow> string" where
  "result_key tid = ''result_'' @ str_json tid"

definition task_result :: "json \<Rightarrow> saga_context \<Rightarrow> json \<Rightarrow> json" where
  "task_result operation c tid = (case process_task tid operation c of Inr [(_, v)] \<Rightarrow> v | _ \<Rightarrow> JNull)"

lemma process_task_result: "process_task tid operation c = Inr [(result_key tid, task_result operation c tid)]"
  by (simp add: process_task_def task_result_def result_key_def)

lemma counts_task_result: "counts_as_success (task_result operation c tid) = Inr (operation \<noteq> JStr ''reassign'')"
  by (simp add: task_result_def process_task_def counts_as_success_def)

text \<open>The parallel step over the tasks is a pure action too.\<close>

definition bulk_results :: "json \<Rightarrow> json list \<Rightarrow> saga_context \<Rightarrow> saga_context" where
  "bulk_results operation ids c = foldl (\<lambda>d tid. dict_set (result_key tid) (task_result operation c tid) d) [] ids"

lemma gather_process_steps:
  fixes w :: 'w
  shows "gather_steps (map (\<lambda>(i, tid). process_step (u i) operation tid) its) c w
    = (map (\<lambda>(i, tid). (''process_'' @ str_json tid, Inr [(result_key tid, task_result operation c tid)])) its, w)"
proof (induction its)
  case (Cons x its)
  obtain i tid where x: "x = (i, tid)" by (cases x)
  let ?st = "process_step (u i) operation tid :: 'w saga_step" and ?r = "\<lparr>ctx = c, world = w, log = []\<rparr>"
  have "action ?st (ctx ?r) (world ?r) = (Returned (Some [(result_key tid, task_result operation c tid)]), ctx ?r, world ?r)"
    by (simp add: process_step_def action_of_def process_task_result)
  from step_execute_ok [OF this] have "step_execute ?st ?r = (Inr [(result_key tid, task_result operation c tid)],
      ?r\<lparr>log := [StepExecuting (step_name ?st), StepCompleted (step_name ?st) 1]\<rparr>)"
    by (simp add: process_step_def)
  then show ?case using Cons.IH by (simp add: x process_step_def)
qed simp

lemma combined_foldl:
  "foldl (\<lambda>d (_, r). case r of Inl _ \<Rightarrow> d | Inr x \<Rightarrow> dict_update d x) d0
     (map (\<lambda>(i, tid). (n tid, Inr [(result_key tid, v tid)])) (enumerate k ids))
   = foldl (\<lambda>d tid. dict_set (result_key tid) (v tid) d) d0 ids"
  by (induction ids arbitrary: k d0) auto

lemma parallel_process_steps:
  "parallel_action (map (\<lambda>(i, tid). process_step (u i) operation tid) (enumerate 0 ids)) c w
     = action_of (\<lambda>c. Inr (bulk_results operation ids c)) c w"
proof -
  have "step_errors (map (\<lambda>(i, tid). (n tid, Inr [(result_key tid, v tid)])) its) = []"
    for n v and its :: "(nat \<times> json) list"
    by (induction its) (auto simp: step_errors_def)
  then show ?thesis
    by (simp add: parallel_action_def gather_process_steps action_of_def combined_result_def combined_foldl bulk_results_def)
qed

lemma bulk_results_spec:
  "distinct (map fst (bulk_results operation ids c)) \<and> set (map fst (bulk_results operation ids c)) = result_key ` set ids
   \<and> (\<forall>v \<in> snd ` set (bulk_results operation ids c). v \<in> range (task_result operation c))"
proof -
  have "distinct (map fst (foldl (\<lambda>d tid. dict_set (result_key tid) (task_result operation c tid) d) d0 ids))
     \<and> fst ` set (foldl (\<lambda>d tid. dict_set (result_key tid) (task_result operation c tid) d) d0 ids) = fst ` set d0 \<union> result_key ` set ids
     \<and> snd ` set (foldl (\<lambda>d tid. dict_set (result_key tid) (task_result operation c tid) d) d0 ids) \<subseteq> range (task_result operation c)"
    if "distinct (map fst d0)" "snd ` set d0 \<subseteq> range (task_result operation c)" for d0
    using that
  proof (induction ids arbitrary: d0)
    case (Cons tid ids)
    let ?d = "dict_set (result_key tid) (task_result operation c tid) d0"
    have "distinct (map fst ?d)" using Cons.prems(1) by (rule distinct_update)
    moreover have "snd ` set ?d \<subseteq> range (task_result operation c)"
      using Cons.prems(2) by (induction d0) auto
    moreover have "fst ` set ?d = insert (result_key tid) (fst ` set d0)"
      using dom_update [of "result_key tid" "task_result operation c tid" d0] by simp
    ultimately show ?case using Cons.IH [of ?d] by auto
  qed simp
  from this [of "[]"] show ?thesis by (auto simp: bulk_results_def)
qed

lemma filter_dict_set:
  "filter (\<lambda>(k, _). P k) (dict_set k v d) = (if P k then dict_set k v (filter (\<lambda>(k, _). P k) d) else filter (\<lambda>(k, _). P k) d)"
  by (induction d) auto

lemma dict_set_new: "k \<notin> fst ` set d \<Longrightarrow> dict_set k v d = d @ [(k, v)]"
  by (induction d) auto

lemma dict_update_new:
  "distinct (map fst e) \<Longrightarrow> fst ` set d \<inter> fst ` set e = {} \<Longrightarrow> dict_update d e = d @ e"
proof (induction d e rule: dict_update.induct)
  case (2 d k v e)
  then show ?case using dict_set_new [of k d v] by auto
qed simp

lemma filter_dict_update:
  "filter (\<lambda>(k, _). P k) (dict_update d e) = dict_update (filter (\<lambda>(k, _). P k) d) (filter (\<lambda>(k, _). P k) e)"
  by (induction d e rule: dict_update.induct) (auto simp: filter_dict_set)

lemma traverse_const: "\<forall>x \<in> set xs. f x = Inr b \<Longrightarrow> traverse_r f xs = Inr (replicate (length xs) b)"
  by (induction xs) auto

lemma summary_of_results:
  assumes "\<forall>k \<in> fst ` set c. \<not> prefix ''result_'' k"
  shows "generate_summary (dict_update c (bulk_results operation ids c0)) = (let n = int (card (str_json ` set ids)) in
     Inr [(''batch_summary'', JObj [(''total_processed'', JInt n),
       (''succeeded'', JInt (if operation = JStr ''reassign'' then 0 else n)), (''failed'', JInt 0)])])"
proof -
  let ?d = "bulk_results operation ids c0" and ?p = "\<lambda>(k, _). prefix ''result_'' k"
  note spec = bulk_results_spec [of operation ids c0]
  have "filter ?p c = []" using assms by (auto simp: filter_empty_conv)
  moreover have "filter ?p ?d = ?d"
  proof (rule filter_True)
    have "prefix ''result_'' k" if "k \<in> set (map fst ?d)" for k
      using that spec by (auto simp: result_key_def)
    then show "\<forall>x \<in> set ?d. ?p x" by (force simp: case_prod_beta simp del: prefix_code)
  qed
  ultimately have results: "filter ?p (dict_update c ?d) = ?d"
    using filter_dict_update [of "prefix ''result_''" c ?d] dict_update_new [of ?d "[]"] spec by simp
  have "length ?d = card (result_key ` set ids)"
    using spec distinct_card [of "map fst ?d"] by simp
  also have "result_key ` set ids = (@) ''result_'' ` str_json ` set ids" by (auto simp: result_key_def)
  also have "card \<dots> = card (str_json ` set ids)" by (rule card_image) (simp add: inj_on_def)
  finally have len: "length ?d = card (str_json ` set ids)" .
  have "\<forall>x \<in> set (map snd ?d). counts_as_success x = Inr (operation \<noteq> JStr ''reassign'')"
    using spec by (auto simp: counts_task_result)
  from traverse_const [OF this] show ?thesis
    by (simp add: generate_summary_def results len Let_def)
qed

text \<open>What a bulk operation reports. If no key of the initial context starts with \<open>result_\<close>, the saga
  completes and its summary counts the distinct task ids as processed; it counts all of them as
  succeeded, except for the operation \<open>reassign\<close>, where it counts none, although every task was processed.\<close>

theorem bulk_summary:
  assumes "\<forall>k \<in> fst ` set c. \<not> prefix ''result_'' k"
  shows "let (res, inst) = saga_execute cancel t0 t1 (new_instance iid (task_bulk uid ids operation) c w);
      n = int (card (str_json ` set ids)) in
    res = Inr COMPLETED \<and> get_or (ctx inst) ''batch_summary'' JNull = JObj [(''total_processed'', JInt n),
      (''succeeded'', JInt (if operation = JStr ''reassign'' then 0 else n)), (''failed'', JInt 0)]"
proof -
  let ?d = "task_bulk uid ids operation :: 'a saga_definition"
  let ?name = "''bulk_'' @ str_json operation"
  let ?ps = "[(?name, \<lambda>c. Inr (bulk_results operation ids c)), (''generate_summary'', generate_summary)]"
  obtain res inst where e: "saga_execute cancel t0 t1 (new_instance iid ?d c w) = (res, inst)" by fastforce
  have par: "parallel_action (map (\<lambda>(i, tid). process_step (uid (i + 3)) operation tid) (enumerate 0 ids))
      = (action_of (\<lambda>c. Inr (bulk_results operation ids c)) :: 'a action)"
    by (intro ext) (rule parallel_process_steps [of "\<lambda>i. uid (i + 3)"])
  have ps: "list_all2 pure_step ?ps (steps ?d)"
    by (simp add: task_bulk_def ParallelStep_def pure_step_def par)
  let ?c1 = "dict_set ''current_step'' (JStr ?name) (dict_set ''saga_instance_id'' (JStr iid) c)"
  let ?c2 = "dict_update ?c1 (bulk_results operation ids ?c1)"
  have keys: "\<forall>k \<in> fst ` set ?c1. \<not> prefix ''result_'' k"
    using assms dom_update [of "''current_step''" "JStr ?name" "dict_set ''saga_instance_id'' (JStr iid) c"]
      dom_update [of "''saga_instance_id''" "JStr iid" c] by auto
  have "gather_compensations (map (\<lambda>(i, tid). process_step (uid (i + 3)) operation tid) its) c w = w"
    for its c and w :: 'a
    by (induction its) (auto simp: process_step_def)
  then have comp: "(\<lambda>c w. (None, c, gather_compensations (map (\<lambda>(i, tid). process_step (uid (i + 3)) operation tid)
      (enumerate 0 ids)) c w)) = (callback_of log_only :: 'a callback)"
    by (intro ext) (simp add: callback_of_def log_only_def)
  have silent: "list_all silent (steps ?d)"
    by (simp add: task_bulk_def ParallelStep_def silent_def comp)
  have cb: "on_success ?d = None" "on_failure ?d = None" by (simp_all add: task_bulk_def)
  have same: "generate_summary (dict_set ''current_step'' v x) = generate_summary x" for v x
    by (simp add: generate_summary_def filter_dict_set)
  let ?n = "int (card (str_json ` set ids))"
  let ?s = "JObj [(''total_processed'', JInt ?n), (''succeeded'', JInt (if operation = JStr ''reassign'' then 0 else ?n)),
    (''failed'', JInt 0)]"
  let ?c3 = "dict_set ''batch_summary'' ?s (dict_set ''current_step'' (JStr ''generate_summary'') ?c2)"
  have "generate_summary (dict_set ''current_step'' (JStr ''generate_summary'') ?c2) = Inr [(''batch_summary'', ?s)]"
    unfolding same using summary_of_results [OF keys] by (simp add: Let_def)
  then have r: "pure_run ?ps (dict_set ''saga_instance_id'' (JStr iid) c) = (None, ?c3, 2)"
    by (simp add: Let_def)
  note out = pure_saga_outcome [OF ps silent cb r e]
  show ?thesis using out(1) out(4) [of "''batch_summary''" JNull] e by (simp add: get_or_set Let_def)
qed

end
