(* ===== verification/Saga_Scenario.thy ===== *)
theory Saga_Scenario
  imports Saga_Execution
begin

text \<open>
  The theorems on the saga framework at work: a step that fails twice before it succeeds, one that
  always fails, and a saga of three steps whose last one fails. The world is the number of calls so far.
\<close>

definition flaky_step :: "nat saga_step" where
  "flaky_step = \<lparr>step_id = ''s1'', step_name = ''flaky'',
     action = (\<lambda>c n. (if n < 2 then Raised (RuntimeError ''busy'') else Returned (Some [(''k'', JInt 1)]), c, n + 1)),
     compensation = Some (\<lambda>c n. (None, c, n)), retry_count = 3, retry_delay = 1000000, timeout = 30000000,
     is_compensatable = True\<rparr>"

definition broken_step :: "nat saga_step" where
  "broken_step = flaky_step\<lparr>step_name := ''broken'', retry_count := 2,
     action := (\<lambda>c n. (TimedOut, c, n + 1))\<rparr>"

definition charge_step :: "nat saga_step" where
  "charge_step = flaky_step\<lparr>step_name := ''charge'', action := (\<lambda>c n. (Returned None, c, n + 1))\<rparr>"

definition audit_step :: "nat saga_step" where
  "audit_step = charge_step\<lparr>step_name := ''audit'', compensation := None, is_compensatable := False\<rparr>"

definition start_run :: "nat run" where
  "start_run = \<lparr>ctx = [], world = 0, log = []\<rparr>"

lemmas saga_scenario_defs = flaky_step_def broken_step_def charge_step_def audit_step_def start_run_def

lemma step_attempt_bound_witness:
  "let r' = snd (step_execute flaky_step start_run); k = attempts_of r' in 0 < k \<and> k \<le> 4 \<and> k = 3"
proof -
  have "attempts_of (snd (step_execute flaky_step start_run)) = 3" "attempts_of start_run = 0" by code_simp+
  then show ?thesis
    using step_attempt_bound [of flaky_step start_run "fst (step_execute flaky_step start_run)"
        "snd (step_execute flaky_step start_run)"]
    by (simp add: flaky_step_def Let_def)
qed

lemma step_backoff_total_witness:
  "slept (log (snd (step_execute broken_step start_run))) = 3000000"
proof -
  have "fst (step_execute broken_step start_run) = Inl (TimeoutError (''Step '' @ [CHR 0x27] @ ''broken''
      @ [CHR 0x27] @ '' timed out''))" by code_simp
  then have "step_execute broken_step start_run = (Inl (TimeoutError (''Step '' @ [CHR 0x27] @ ''broken''
      @ [CHR 0x27] @ '' timed out'')), snd (step_execute broken_step start_run))"
    by (simp add: prod_eq_iff)
  from step_backoff_total [OF this] show ?thesis by (simp add: saga_scenario_defs)
qed

definition order_saga :: "nat saga_definition" where
  "order_saga = \<lparr>saga_id = ''d'', saga_name = ''order'', steps = [charge_step, audit_step, broken_step, flaky_step],
     on_success = None, on_failure = None\<rparr>"

definition clock :: datetime where
  "clock = \<lparr>dt_year = 1, dt_month = 1, dt_day = 1, dt_hour = 0, dt_minute = 0, dt_second = 0,
     dt_micro = 0, dt_offset = None\<rparr>"

definition order_run :: "saga_status result \<times> nat saga_instance" where
  "order_run = saga_execute (\<lambda>_. True) clock clock (new_instance ''i'' order_saga [] 0)"

lemma order_run_values:
  "fst order_run = Inr COMPENSATED" "inst_error (snd order_run) \<noteq> None"
  "map step_name (completed_steps (snd order_run)) = [''charge'', ''audit'']"
  "\<not> compensation_failed (log (snd order_run))"
  by (simp_all add: order_run_def saga_execute_def try_body_def except_body_def compensate_all_def
      step_execute_def attempt_step_def backoff_def step_compensate_def add_log_def run_callback_def
      interfere_def interfere_callback_def new_instance_def order_saga_def saga_scenario_defs
      Let_def upt_rec numeral_2_eq_2)

lemma order_run_eq:
  "saga_execute (\<lambda>_. True) clock clock (new_instance ''i'' order_saga [] 0) = (Inr COMPENSATED, snd order_run)"
  using order_run_values(1) by (simp add: order_run_def prod_eq_iff)

lemma saga_compensates_completed_steps_witness:
  "compensating_names (log (snd order_run)) = [''charge'']"
proof -
  from saga_compensates_completed_steps [OF order_run_eq] order_run_values(2)
  obtain k where k: "k \<le> length (steps order_saga)" "completed_steps (snd order_run) = take k (steps order_saga)"
    "compensating_names (log (snd order_run)) = map step_name (filter can_compensate (rev (take k (steps order_saga))))"
    by blast
  have "length (completed_steps (snd order_run)) = 2"
    using arg_cong [OF order_run_values(3), of length] by simp
  with k have "k = 2" by simp
  with k(3) show ?thesis by (simp add: order_saga_def can_compensate_def flaky_step_def charge_step_def audit_step_def)
qed

lemma saga_final_status_witness:
  "COMPENSATED = (if inst_error (snd order_run) = None then COMPLETED
     else if compensation_failed (log (snd order_run)) then FAILED else COMPENSATED)
   \<and> inst_error (snd order_run) \<noteq> None"
  using saga_final_status [OF order_run_eq] order_run_values(2) by (simp add: order_saga_def)

end
