(* ===== verification/Workflow_Scenario.thy ===== *)
theory Workflow_Scenario
  imports Workflow_Facts Saga_Scenario
begin

text \<open>The theorems on the workflows at concrete inputs.\<close>

lemma bulk_summary_witness:
  "let (res, inst) = saga_execute (\<lambda>_. False) clock clock
      (new_instance ''i'' (task_bulk (\<lambda>_. ''s'') [JStr ''a'', JStr ''b'', JStr ''a''] (JStr ''reassign''))
        [(''new_assignee_id'', JStr ''bob'')] (0::nat)) in
    res = Inr COMPLETED \<and> get_or (ctx inst) ''batch_summary'' JNull = JObj [(''total_processed'', JInt 2),
      (''succeeded'', JInt 0), (''failed'', JInt 0)]"
proof -
  have "\<forall>k \<in> fst ` set [(''new_assignee_id'', JStr ''bob'')]. \<not> prefix ''result_'' k" by simp
  from bulk_summary [OF this, of "\<lambda>_. False" clock clock "''i''" "\<lambda>_. ''s''" "[JStr ''a'', JStr ''b'', JStr ''a'']"
      "JStr ''reassign''" "0::nat"]
  moreover have "card (str_json ` set [JStr ''a'', JStr ''b'', JStr ''a'']) = 2" by (simp add: insert_commute)
  ultimately show ?thesis by (simp add: case_prod_beta Let_def insert_commute)
qed

end
