(* ===== verification/Saga_Machine.thy ===== *)
theory Saga_Machine
  imports Saga
begin

text \<open>
  The execution of a saga instance one await at a time. \<open>SagaInstance.execute\<close> runs as an asyncio task:
  between two of its awaits other tasks run, and \<open>cancel_saga\<close> is one of them. A thread is an instance
  with the await it stands at; a tick lets the awaited call end and runs the code up to the next await.
  The pause after a failed attempt belongs to the tick of that attempt.
\<close>

datatype 'w point =
    Created
  | InStep nat "nat list"
  | InOnSuccess
  | InCompensation nat "'w saga_step list" "(string \<times> py_error) list"
  | InOnFailure
  | Ended "saga_status result"

type_synonym 'w thread = "'w saga_instance \<times> 'w point"

fun ended :: "'w thread \<Rightarrow> bool" where
  "ended (a, Ended _) = True"
| "ended _ = False"

text \<open>The \<open>finally\<close> clause, and returning or raising after it.\<close>

definition conclude :: "datetime \<Rightarrow> py_error option \<Rightarrow> 'w saga_instance \<Rightarrow> saga_status result \<times> 'w saga_instance" where
  "conclude now err inst =
     (let inst = inst\<lparr>completed_at := Some now, ctx := dict_set ''saga_duration_seconds''
            (JSeconds (instant now - instant (the (started_at inst)))) (ctx inst)\<rparr>
      in ((case err of Some x \<Rightarrow> Inl x | None \<Rightarrow> Inr (inst_status inst)), inst))"

definition to_end :: "datetime \<Rightarrow> py_error option \<Rightarrow> 'w saga_instance \<Rightarrow> 'w thread" where
  "to_end now err inst = (case conclude now err inst of (res, inst) \<Rightarrow> (inst, Ended res))"

text \<open>
  The compensation loop: a step without a compensation awaits nothing. After it comes the status and the
  await of \<open>on_failure\<close>, if there is one.
\<close>

fun to_compensation :: "datetime \<Rightarrow> nat \<Rightarrow> 'w saga_step list \<Rightarrow> (string \<times> py_error) list \<Rightarrow> 'w saga_instance
    \<Rightarrow> 'w thread" where
  "to_compensation now j [] errs inst =
     (let inst = inst\<lparr>inst_status := (if errs \<noteq> [] then FAILED else COMPENSATED)\<rparr> in
      if on_failure (definition_of inst) = None then to_end now None inst else (inst, InOnFailure))"
| "to_compensation now j (st # sts) errs inst =
     (if compensation st \<noteq> None \<and> is_compensatable st then (inst, InCompensation j (st # sts) errs)
      else to_compensation now (Suc j) sts errs (snd (step_compensate st inst)))"

text \<open>The \<open>except\<close> clause.\<close>

definition to_except :: "datetime \<Rightarrow> py_error \<Rightarrow> 'w saga_instance \<Rightarrow> 'w thread" where
  "to_except now e inst =
     (let inst = inst\<lparr>inst_error := Some e\<rparr>; sts = steps (definition_of inst) in
      if current_step_index inst < length sts
      then to_compensation now 0 (rev (completed_steps inst)) []
        (inst\<lparr>failed_step := Some (sts ! current_step_index inst), inst_status := COMPENSATING\<rparr>)
      else to_end now (Some IndexError) inst)"

text \<open>The head of the loop over the steps, and what follows the loop.\<close>

definition to_step :: "datetime \<Rightarrow> nat \<Rightarrow> 'w saga_instance \<Rightarrow> 'w thread" where
  "to_step now i inst = (let sts = steps (definition_of inst) in
     if i < length sts
     then (let st = sts ! i; attempts = [0..<nat (retry_count st + 1)];
         inst = add_log (StepExecuting (step_name st)) (inst\<lparr>current_step_index := i,
           ctx := dict_set ''current_step'' (JStr (step_name st)) (ctx inst)\<rparr>)
       in if attempts = []
          then to_except now (RuntimeError (''Step '' @ [CHR 0x27] @ step_name st @ [CHR 0x27]
            @ '' failed after all retries'')) inst
          else (inst, InStep i attempts))
     else (let inst = inst\<lparr>inst_status := COMPLETED\<rparr> in
       if on_success (definition_of inst) = None then to_end now None inst else (inst, InOnSuccess)))"

fun tick :: "datetime \<Rightarrow> 'w thread \<Rightarrow> 'w thread" where
  "tick now (inst, Created) = to_step now 0 (inst\<lparr>inst_status := RUNNING, started_at := Some now\<rparr>)"
| "tick now (inst, InStep i []) = (inst, InStep i [])"
| "tick now (inst, InStep i (k # ks)) = (let st = steps (definition_of inst) ! i in
     (case attempt_step st k inst of
        (Inr d, inst) \<Rightarrow> to_step now (Suc i) (inst\<lparr>ctx := dict_update (ctx inst) d,
           completed_steps := completed_steps inst @ [st]\<rparr>)
      | (Inl e, inst) \<Rightarrow> (let inst = backoff st k inst in
           if ks = [] then to_except now e inst else (inst, InStep i ks))))"
| "tick now (inst, InOnSuccess) = (case run_callback (on_success (definition_of inst)) inst of
     (None, inst) \<Rightarrow> to_end now None inst | (Some e, inst) \<Rightarrow> to_except now e inst)"
| "tick now (inst, InCompensation j [] errs) = to_compensation now j [] errs inst"
| "tick now (inst, InCompensation j (st # sts) errs) = (case step_compensate st inst of
     (err, inst) \<Rightarrow> to_compensation now (Suc j) sts
       (errs @ (case err of None \<Rightarrow> [] | Some e \<Rightarrow> [(step_name st, e)])) inst)"
| "tick now (inst, InOnFailure) = to_end now None (snd (run_callback (on_failure (definition_of inst)) inst))"
| "tick now (inst, Ended res) = (inst, Ended res)"

text \<open>\<open>cancel_saga\<close> on this instance; it finds only instances that have not ended.\<close>

fun cancel_thread :: "'w thread \<Rightarrow> 'w thread" where
  "cancel_thread (inst, Ended res) = (inst, Ended res)"
| "cancel_thread (inst, p) = (inst\<lparr>inst_status := CANCELLED\<rparr>, p)"

datatype thread_event = Tick datetime | Cancel

fun thread_step :: "thread_event \<Rightarrow> 'w thread \<Rightarrow> 'w thread" where
  "thread_step (Tick now) th = tick now th"
| "thread_step Cancel th = cancel_thread th"

fun run_thread :: "thread_event list \<Rightarrow> 'w thread \<Rightarrow> 'w thread" where
  "run_thread [] th = th"
| "run_thread (e # es) th = run_thread es (thread_step e th)"

section \<open>Termination\<close>

text \<open>
  An upper bound of the ticks that are left: the attempts of the step at hand and of the steps after it,
  a compensation of every completed step and of those that may still complete, and the two callbacks.
\<close>

definition attempts :: "'w saga_step \<Rightarrow> nat" where
  "attempts st = nat (retry_count st + 1)"

fun work :: "'w thread \<Rightarrow> nat" where
  "work (a, Created) = (\<Sum>st \<leftarrow> steps (definition_of a). attempts st + 1) + length (completed_steps a) + 3"
| "work (a, InStep i ks) = length ks + (\<Sum>st \<leftarrow> drop (Suc i) (steps (definition_of a)). attempts st + 1)
     + length (completed_steps a) + 3"
| "work (a, InOnSuccess) = length (completed_steps a) + 2"
| "work (a, InCompensation j sts errs) = length sts + 1"
| "work (a, InOnFailure) = 1"
| "work (a, Ended res) = 0"

text \<open>An instance at an await has attempts left there.\<close>

fun at_await :: "'w thread \<Rightarrow> bool" where
  "at_await (a, InStep i ks) = (ks \<noteq> [] \<and> i < length (steps (definition_of a)) \<and> current_step_index a = i)"
| "at_await (a, InOnSuccess) = (on_success (definition_of a) \<noteq> None)"
| "at_await (a, InCompensation j sts errs) = (sts \<noteq> [])"
| "at_await (a, InOnFailure) = (on_failure (definition_of a) \<noteq> None)"
| "at_await (a, p) = True"

end
