(* ===== verification/Orchestrator.thy ===== *)
theory Orchestrator
  imports Saga_Machine Py_Text
begin

text \<open>
  \<open>SagaOrchestrator\<close>, \<open>libs/saga_framework/saga.py\<close>: the registry of running and completed saga instances
  and the background tasks that execute them. The instances are objects shared between the registry and
  the tasks, so they are kept in a list and referred to by position. Between two steps of a task any other
  task or call may run; all of them act on the same outside world. The lock of the registry is never held
  across an await, so taking it never waits and it needs no state.
\<close>

record 'w orchestrator =
  objects :: "'w thread list"
  running_instances :: "(string, nat) dict"
  completed_instances :: "(string, nat) dict"
  outside :: 'w

definition new_orchestrator :: "'w \<Rightarrow> 'w orchestrator" where
  "new_orchestrator w = \<lparr>objects = [], running_instances = [], completed_instances = [], outside = w\<rparr>"

definition instance_at :: "'w orchestrator \<Rightarrow> nat \<Rightarrow> 'w saga_instance" where
  "instance_at orch r = fst (objects orch ! r)"

text \<open>\<open>iid\<close> is the \<open>uuid4\<close> of the new instance. The task is created, and has not run yet.\<close>

definition start_saga :: "string \<Rightarrow> 'w saga_definition \<Rightarrow> saga_context \<Rightarrow> 'w orchestrator \<Rightarrow> nat \<times> 'w orchestrator" where
  "start_saga iid d c orch = (let r = length (objects orch) in
     (r, orch\<lparr>objects := objects orch @ [(new_instance iid d c (outside orch), Created)],
           running_instances := dict_set iid r (running_instances orch)\<rparr>))"

text \<open>
  \<open>_execute_and_cleanup\<close>, one await further: the tick acts on the world as it is now, and when \<open>execute\<close>
  has returned or raised, the \<open>finally\<close> clause moves the instance to the completed ones.
\<close>

definition resume :: "datetime \<Rightarrow> nat \<Rightarrow> 'w orchestrator \<Rightarrow> 'w orchestrator" where
  "resume now r orch = (case objects orch ! r of (inst, p) \<Rightarrow>
     if ended (inst, p) then orch
     else (let th = tick now (inst\<lparr>world := outside orch\<rparr>, p);
           orch = orch\<lparr>objects := (objects orch)[r := th], outside := world (fst th)\<rparr>
       in if ended th
          then orch\<lparr>running_instances := dict_pop (instance_id inst) (running_instances orch),
            completed_instances := dict_set (instance_id inst) r (completed_instances orch)\<rparr>
          else orch))"

definition get_instance :: "string \<Rightarrow> 'w orchestrator \<Rightarrow> nat option" where
  "get_instance iid orch = (case dict_get (running_instances orch) iid of
     Some r \<Rightarrow> Some r | None \<Rightarrow> dict_get (completed_instances orch) iid)"

definition cancel_saga :: "string \<Rightarrow> 'w orchestrator \<Rightarrow> bool \<times> 'w orchestrator" where
  "cancel_saga iid orch = (case dict_get (running_instances orch) iid of
     Some r \<Rightarrow> (True, orch\<lparr>objects := (objects orch)[r := cancel_thread (objects orch ! r)]\<rparr>)
   | None \<Rightarrow> (False, orch))"

definition get_active_sagas :: "'w orchestrator \<Rightarrow> saga_context list" where
  "get_active_sagas orch = map (\<lambda>(_, r). instance_to_dict str_of_error (instance_at orch r)) (running_instances orch)"

text \<open>\<open>xs[k:]\<close>\<close>

definition slice_from :: "int \<Rightarrow> 'a list \<Rightarrow> 'a list" where
  "slice_from k xs = drop (nat (if k < 0 then int (length xs) + k else k)) xs"

definition get_saga_history :: "int \<Rightarrow> 'w orchestrator \<Rightarrow> saga_context list" where
  "get_saga_history limit orch =
     map (\<lambda>(_, r). instance_to_dict str_of_error (instance_at orch r)) (slice_from (- limit) (completed_instances orch))"

section \<open>Runs\<close>

datatype 'w orch_event =
    Start string "'w saga_definition" saga_context
  | Run datetime nat
  | CancelSaga string

text \<open>
  The runs of an orchestrator: sagas are started, under fresh ids, their tasks run, one await at a time and
  in any order, and any id may be cancelled at any time.
\<close>

inductive orch_run :: "'w orchestrator \<Rightarrow> 'w orch_event list \<Rightarrow> 'w orchestrator \<Rightarrow> bool" where
  stop: "orch_run orch [] orch"
| start: "iid \<notin> set (map (\<lambda>th. instance_id (fst th)) (objects orch))
    \<Longrightarrow> orch_run (snd (start_saga iid d c orch)) es orch' \<Longrightarrow> orch_run orch (Start iid d c # es) orch'"
| run: "r < length (objects orch) \<Longrightarrow> orch_run (resume now r orch) es orch'
    \<Longrightarrow> orch_run orch (Run now r # es) orch'"
| cancel: "orch_run (snd (cancel_saga iid orch)) es orch' \<Longrightarrow> orch_run orch (CancelSaga iid # es) orch'"

inductive_cases orch_run_Nil: "orch_run orch [] orch'"
inductive_cases orch_run_Cons: "orch_run orch (e # es) orch'"

end
