(* ===== verification/Workflow_Service.thy ===== *)
theory Workflow_Service
  imports Workflows Orchestrator
begin

text \<open>
  \<open>WorkflowServiceApp\<close>, \<open>services/workflow_service/main.py\<close>: the registry of workflows, and starting,
  inspecting and cancelling them through the orchestrator. The context of a request is a JSON object; what
  Python's \<open>for\<close> makes of a \<open>task_ids\<close> that is no list is written out.
\<close>

datatype workflow_class = TaskOnboardingWorkflow | TaskApprovalWorkflow | TaskBulkOperationWorkflow

definition workflow_registry :: "(string, workflow_class) dict" where
  "workflow_registry = [(''task_onboarding'', TaskOnboardingWorkflow), (''task_approval'', TaskApprovalWorkflow),
     (''task_bulk'', TaskBulkOperationWorkflow)]"

text \<open>\<open>for x in v\<close>\<close>

fun iterate :: "json \<Rightarrow> json list result" where
  "iterate (JArr xs) = Inr xs"
| "iterate (JStr s) = Inr (map (\<lambda>c. JStr [c]) s)"
| "iterate (JObj d) = Inr (map (\<lambda>(k, _). JStr k) d)"
| "iterate v = Inl (TypeError (quoted (type_name v) @ '' object is not iterable''))"

definition build_workflow :: "(nat \<Rightarrow> string) \<Rightarrow> string \<Rightarrow> saga_context \<Rightarrow> 'w saga_definition result" where
  "build_workflow uid name c = (case dict_get workflow_registry name of
     None \<Rightarrow> Inl (ValueError (''Unknown workflow: '' @ name))
   | Some TaskBulkOperationWorkflow \<Rightarrow> bind_r (iterate (get_or c ''task_ids'' (JArr []))) (\<lambda>ids.
       Inr (task_bulk uid ids (get_or c ''operation'' (JStr ''archive''))))
   | Some TaskOnboardingWorkflow \<Rightarrow> Inr (task_onboarding uid)
   | Some TaskApprovalWorkflow \<Rightarrow> Inr (task_approval uid))"

definition start_workflow :: "(nat \<Rightarrow> string) \<Rightarrow> string \<Rightarrow> string \<Rightarrow> saga_context \<Rightarrow> 'w orchestrator
    \<Rightarrow> nat result \<times> 'w orchestrator" where
  "start_workflow uid iid name c orch = (case build_workflow uid name c of
     Inl e \<Rightarrow> (Inl e, orch)
   | Inr d \<Rightarrow> (case start_saga iid d c orch of (r, orch) \<Rightarrow> (Inr r, orch)))"

definition get_workflow_status :: "string \<Rightarrow> 'w orchestrator \<Rightarrow> saga_context option" where
  "get_workflow_status iid orch = (case get_instance iid orch of
     Some r \<Rightarrow> Some (instance_to_dict str_of_error (instance_at orch r)) | None \<Rightarrow> None)"

definition cancel_workflow :: "string \<Rightarrow> 'w orchestrator \<Rightarrow> bool \<times> 'w orchestrator" where
  "cancel_workflow iid orch = cancel_saga iid orch"

definition list_active_workflows :: "'w orchestrator \<Rightarrow> saga_context list" where
  "list_active_workflows orch = get_active_sagas orch"

end
