(* ===== verification/Saga_Machine_Run.thy ===== *)
theory Saga_Machine_Run
  imports Saga_Machine_Facts
begin

text \<open>
  The small-step execution computes what \<open>saga_execute\<close> computes. The proof says what is left to do at
  each await in terms of the functions of the big-step model, and that neither a tick nor a cancellation
  changes it, but for a cancellation during one of the two callbacks.
\<close>

section \<open>What is left to do\<close>

definition only :: "bool \<Rightarrow> bool \<Rightarrow> await_point \<Rightarrow> bool" where
  "only s f p = (p = AwaitOnSuccess \<and> s \<or> p = AwaitOnFailure \<and> f)"

lemma interfere_only [simp]:
  "interfere (only s f) (AwaitStep i) a = a" "interfere (only s f) (AwaitCompensation i) a = a"
  by (simp_all add: interfere_def only_def)

definition except_rest :: "bool \<Rightarrow> datetime \<Rightarrow> py_error option \<times> 'w saga_instance \<Rightarrow> saga_status result \<times> 'w saga_instance" where
  "except_rest f now r = (case r of (None, a) \<Rightarrow> conclude now None a
     | (Some e, a) \<Rightarrow> (case except_body (only False f) e a of (err, a) \<Rightarrow> conclude now err a))"

definition success_rest :: "bool \<Rightarrow> 'w saga_instance \<Rightarrow> py_error option \<times> 'w saga_instance" where
  "success_rest s a = (case run_callback (on_success (definition_of a)) a of
     (err, b) \<Rightarrow> (err, interfere_callback (only s False) AwaitOnSuccess (on_success (definition_of b)) b))"

definition steps_rest :: "bool \<Rightarrow> py_error option \<times> 'w saga_instance \<Rightarrow> py_error option \<times> 'w saga_instance" where
  "steps_rest s r = (case r of (Some e, a) \<Rightarrow> (Some e, a)
     | (None, a) \<Rightarrow> success_rest s (a\<lparr>inst_status := COMPLETED\<rparr>))"

definition compensation_rest :: "bool \<Rightarrow> (string \<times> py_error) list \<Rightarrow> (string \<times> py_error) list \<times> 'w saga_instance
    \<Rightarrow> 'w saga_instance" where
  "compensation_rest f errs r = (case r of (errs', a) \<Rightarrow>
     let a = a\<lparr>inst_status := (if errs @ errs' \<noteq> [] then FAILED else COMPENSATED)\<rparr> in
     interfere_callback (only False f) AwaitOnFailure (on_failure (definition_of a))
       (snd (run_callback (on_failure (definition_of a)) a)))"

fun rest :: "bool \<Rightarrow> bool \<Rightarrow> datetime \<Rightarrow> datetime \<Rightarrow> 'w thread \<Rightarrow> saga_status result \<times> 'w saga_instance" where
  "rest s f t0 t1 (a, Created) = saga_execute (only s f) t0 t1 a"
| "rest s f t0 t1 (a, InStep i ks) = (let sts = steps (definition_of a) in
     except_rest f t1 (steps_rest s (case try_attempts (sts ! i) ks None a of
         (Inl e, b) \<Rightarrow> (Some e, b)
       | (Inr d, b) \<Rightarrow> run_steps (only s f) (Suc i) (drop (Suc i) sts)
           (b\<lparr>ctx := dict_update (ctx b) d, completed_steps := completed_steps b @ [sts ! i]\<rparr>))))"
| "rest s f t0 t1 (a, InOnSuccess) = except_rest f t1 (success_rest s a)"
| "rest s f t0 t1 (a, InCompensation j sts errs) =
     conclude t1 None (compensation_rest f errs (run_compensations (only False f) j sts a))"
| "rest s f t0 t1 (a, InOnFailure) = conclude t1 None
     (interfere_callback (only False f) AwaitOnFailure (on_failure (definition_of a))
       (snd (run_callback (on_failure (definition_of a)) a)))"
| "rest s f t0 t1 (a, Ended res) = (res, a)"

text \<open>Only the cancellation during the callback that a function awaits matters to it.\<close>

lemma run_steps_only: "run_steps (only s f) i sts a = run_steps (only s' f') i sts a"
  by (induction sts arbitrary: i a) (auto simp: Let_def split: prod.splits sum.splits)

lemma run_compensations_only: "run_compensations (only s f) i sts a = run_compensations (only s' f') i sts a"
  by (induction sts arbitrary: i a) (auto split: prod.splits)

lemma interfere_callback_only:
  "interfere_callback (only s f) AwaitOnSuccess g a = interfere_callback (only s f') AwaitOnSuccess g a"
  "interfere_callback (only s f) AwaitOnFailure g a = interfere_callback (only s' f) AwaitOnFailure g a"
  by (simp_all add: interfere_callback_def interfere_def only_def)

lemma compensate_all_rest:
  "compensate_all (only s f) a
     = compensation_rest f [] (run_compensations (only False f) 0 (rev (completed_steps a)) (a\<lparr>inst_status := COMPENSATING\<rparr>))"
  unfolding compensate_all_def compensation_rest_def run_compensations_only [of s f _ _ _ False f]
    interfere_callback_only(2) [of s f _ _ False]
  by (simp add: Let_def split: prod.split)

lemma except_body_only: "except_body (only s f) e a = except_body (only s' f) e a"
  by (simp add: except_body_def compensate_all_rest Let_def)

lemma try_body_rest: "try_body (only s f) a = steps_rest s (run_steps (only s f) 0 (steps (definition_of a)) a)"
  unfolding try_body_def steps_rest_def success_rest_def interfere_callback_only(1) [of s f _ _ False]
  by (auto split: prod.splits option.splits)

section \<open>The start time\<close>

lemma run_steps_started: "run_steps cancel i sts a = (err, b) \<Longrightarrow> started_at b = started_at a"
proof (induction sts arbitrary: i a)
  case (Cons st sts)
  let ?a = "a\<lparr>current_step_index := i, ctx := dict_set ''current_step'' (JStr (step_name st)) (ctx a)\<rparr>"
  obtain res a1 where a1: "step_execute st ?a = (res, a1)" by fastforce
  have "started_at a1 = started_at a" using same_instance_fields(8) [OF step_execute_same [OF a1]] by simp
  then have "started_at (interfere cancel p a1) = started_at a" for p by (simp add: interfere_def)
  then show ?case using Cons a1 by (cases res) (auto simp: Let_def)
qed simp

lemma more_started: "run.more b = run.more (a :: 'w saga_instance) \<Longrightarrow> started_at b = started_at a"
  by (cases a; cases b; simp)

lemma interfere_callback_started: "started_at (interfere_callback cancel p g a) = started_at a"
  by (simp add: interfere_callback_def interfere_def)

lemma run_callback_started: "started_at (snd (run_callback g a)) = started_at a"
  using more_started [OF run_callback_fields(1) [OF prod.collapse [symmetric]]] .

lemma run_compensations_started: "run_compensations cancel i sts a = (errs, b) \<Longrightarrow> started_at b = started_at a"
proof (induction sts arbitrary: i a errs b)
  case (Cons st sts)
  obtain err a1 where a1: "step_compensate st a = (err, a1)" by fastforce
  have "started_at (interfere cancel p a1) = started_at a" for p
    using more_started [OF step_compensate_spec(1) [OF a1]] by (simp add: interfere_def)
  then show ?case using Cons a1 by (auto split: prod.splits)
qed simp

lemma except_body_started:
  assumes "except_body cancel e a = (err, b)" shows "started_at b = started_at a"
proof -
  let ?c = "a\<lparr>inst_error := Some e, failed_step := Some (steps (definition_of a) ! current_step_index a),
    inst_status := COMPENSATING\<rparr>"
  obtain errs c where c: "run_compensations cancel 0 (rev (completed_steps a)) ?c = (errs, c)" by fastforce
  have "started_at c = started_at a" using run_compensations_started [OF c] by simp
  then show ?thesis
    using assms c
    by (auto simp: except_body_def compensate_all_def Let_def interfere_callback_started run_callback_started split: if_splits)
qed

lemma try_body_started:
  assumes "try_body cancel a = (err, b)" shows "started_at b = started_at a"
proof -
  obtain e c where c: "run_steps cancel 0 (steps (definition_of a)) a = (e, c)" by fastforce
  have "started_at (snd (run_callback g (c\<lparr>inst_status := st\<rparr>))) = started_at a" for g st
    using run_steps_started [OF c] by (simp add: run_callback_started)
  then show ?thesis
    using assms c run_steps_started [OF c]
    by (cases e) (auto simp: try_body_def interfere_callback_started split: prod.splits, metis snd_conv)
qed

lemma saga_execute_rest:
  "saga_execute (only s f) t0 t1 a
     = except_rest f t1 (try_body (only s f) (a\<lparr>inst_status := RUNNING, started_at := Some t0\<rparr>))"
proof -
  let ?a = "a\<lparr>inst_status := RUNNING, started_at := Some t0\<rparr>"
  obtain err b where b: "try_body (only s f) ?a = (err, b)" by fastforce
  have t: "started_at b = Some t0" using try_body_started [OF b] by simp
  show ?thesis
  proof (cases err)
    case None
    then show ?thesis using t by (simp add: saga_execute_def except_rest_def conclude_def b Let_def)
  next
    case (Some e)
    obtain x c where c: "except_body (only False f) e b = (x, c)" by fastforce
    have "started_at c = Some t0" using except_body_started [OF c] t by simp
    then show ?thesis
      using Some by (simp add: saga_execute_def except_rest_def conclude_def b c except_body_only [of s f _ _ False]
        Let_def split: option.split)
  qed
qed

section \<open>A tick changes nothing about what is left\<close>

lemma rest_to_end: "rest s f t0 t1 (to_end now err a) = conclude now err a"
  by (simp add: to_end_def split: prod.split)

lemma rest_to_compensation:
  "(ended (to_compensation now j sts errs a) \<longrightarrow> now = t1) \<Longrightarrow>
   rest s f t0 t1 (to_compensation now j sts errs a)
     = conclude t1 None (compensation_rest f errs (run_compensations (only False f) j sts a))"
proof (induction now j sts errs a rule: to_compensation.induct)
  case (1 now j errs a)
  then show ?case
    by (auto simp: rest_to_end to_end_Ended compensation_rest_def Let_def run_callback_def interfere_callback_def)
next
  case (2 now j st sts errs a)
  show ?case
  proof (cases "compensation st \<noteq> None \<and> is_compensatable st")
    case True
    then show ?thesis by (simp del: run_compensations.simps)
  next
    case False
    then obtain b where b: "step_compensate st a = (None, b)" by (cases "compensation st") (auto simp: step_compensate_def)
    have "to_compensation now j (st # sts) errs a = to_compensation now (Suc j) sts errs b" using False b by auto
    with 2 False b show ?thesis by (auto simp: compensation_rest_def split: prod.split)
  qed
qed

lemma rest_to_except:
  assumes "ended (to_except now e a) \<longrightarrow> now = t1"
  shows "rest s f t0 t1 (to_except now e a) = except_rest f t1 (Some e, a)"
  using assms
  by (simp add: to_except_def except_rest_def except_body_def compensate_all_rest rest_to_compensation
      rest_to_end to_end_Ended Let_def)

lemma rest_to_step:
  assumes "ended (to_step now i a) \<longrightarrow> now = t1"
  shows "rest s f t0 t1 (to_step now i a)
    = except_rest f t1 (steps_rest s (run_steps (only s f) i (drop i (steps (definition_of a))) a))"
proof (cases "i < length (steps (definition_of a))")
  case True
  let ?st = "steps (definition_of a) ! i"
  let ?a = "add_log (StepExecuting (step_name ?st)) (a\<lparr>current_step_index := i,
    ctx := dict_set ''current_step'' (JStr (step_name ?st)) (ctx a)\<rparr>)"
  have d: "drop i (steps (definition_of a)) = ?st # drop (Suc i) (steps (definition_of a))"
    using True by (simp add: Cons_nth_drop_Suc)
  have def_a: "definition_of ?a = definition_of a" by (simp add: add_log_def)
  show ?thesis
  proof (cases "[0..<nat (retry_count ?st + 1)] = []")
    case none: True
    then show ?thesis using assms True
      by (simp add: to_step_def d rest_to_except step_execute_def steps_rest_def Let_def)
  next
    case False
    then have "to_step now i a = (?a, InStep i [0..<nat (retry_count ?st + 1)])"
      using True by (simp add: to_step_def Let_def)
    then show ?thesis by (simp add: d def_a step_execute_def Let_def split: prod.split sum.split)
  qed
next
  case False
  then show ?thesis using assms
    by (auto simp: to_step_def steps_rest_def success_rest_def except_rest_def rest_to_end to_end_Ended
        run_callback_def interfere_callback_def Let_def)
qed

text \<open>The callback that a tick runs has not been cancelled.\<close>

fun forget_success :: "'w thread \<Rightarrow> bool \<Rightarrow> bool" where
  "forget_success (a, InOnSuccess) s = False"
| "forget_success th s = s"

fun forget_failure :: "'w thread \<Rightarrow> bool \<Rightarrow> bool" where
  "forget_failure (a, InOnFailure) f = False"
| "forget_failure th f = f"

lemma rest_tick:
  assumes "at_await th" "\<not> ended th" "ended (tick now th) \<longrightarrow> now = t1"
  shows "rest (forget_success th s) (forget_failure th f) now t1 th = rest s f t0 t1 (tick now th)"
proof (cases "(now, th)" rule: tick.cases)
  case (1 now' a)
  then show ?thesis using assms(3) by (simp add: saga_execute_rest try_body_rest rest_to_step)
next
  case (3 now' a i k ks)
  let ?st = "steps (definition_of a) ! i"
  obtain v b where b: "attempt_step ?st k a = (v, b)" by fastforce
  note fb = same_instance_fields [OF attempt_step_same [OF b]]
  show ?thesis
  proof (cases v)
    case (Inr d)
    then show ?thesis using 3 b fb assms(3) by (simp add: rest_to_step Let_def)
  next
    case (Inl e)
    note g = same_instance_fields [OF backoff_same [of ?st k b]]
    show ?thesis
    proof (cases "ks = []")
      case True
      then show ?thesis using 3 b Inl assms(3) by (simp add: rest_to_except steps_rest_def Let_def)
    next
      case False
      then have "try_attempts ?st ks (Some e) r = try_attempts ?st ks None r" for r :: "'a saga_instance"
        by (rule try_attempts_last)
      then show ?thesis using 3 b Inl False fb g by (simp add: Let_def)
    qed
  qed
next
  case (4 now' a)
  obtain err b where b: "run_callback (on_success (definition_of a)) a = (err, b)" by fastforce
  have i: "interfere_callback (only False False) AwaitOnSuccess g c = c" for g and c :: "'a saga_instance"
    by (simp add: interfere_callback_def interfere_def only_def)
  show ?thesis using 4 b assms(3)
    by (cases err) (auto simp: success_rest_def i except_rest_def rest_to_end to_end_Ended rest_to_except)
next
  case (6 now' a j st sts errs)
  then show ?thesis using assms(3)
    by (auto simp: rest_to_compensation compensation_rest_def split: prod.split)
next
  case (7 now' a)
  have "interfere_callback (only False False) AwaitOnFailure g c = c" for g and c :: "'a saga_instance"
    by (simp add: interfere_callback_def interfere_def only_def)
  then show ?thesis using 7 assms(3) by (simp add: rest_to_end to_end_Ended)
qed (use assms in auto)

section \<open>A cancellation\<close>

text \<open>The clauses after the loop overwrite the status.\<close>

lemma steps_rest_status:
  assumes "same_but_status a b" "err \<noteq> None \<longrightarrow> current_step_index a < length (steps (definition_of a))"
  shows "except_rest f now (steps_rest s (err, a)) = except_rest f now (steps_rest s (err, b))"
proof -
  obtain x where b: "b = a\<lparr>inst_status := x\<rparr>" using assms(1) by (auto simp: same_but_status_def)
  show ?thesis
  proof (cases err)
    case None
    then show ?thesis by (simp add: steps_rest_def b)
  next
    case (Some e)
    have "except_body (only False f) e b = except_body (only False f) e a"
      using assms(2) Some by (cases a) (simp add: b except_body_def compensate_all_rest Let_def)
    then show ?thesis by (simp add: Some steps_rest_def except_rest_def)
  qed
qed

lemma rest_cancel_step:
  assumes "at_await (a, InStep i ks)"
  shows "rest s f t0 t1 (a\<lparr>inst_status := CANCELLED\<rparr>, InStep i ks) = rest s f t0 t1 (a, InStep i ks)"
proof -
  let ?sts = "steps (definition_of a)" and ?st = "steps (definition_of a) ! i"
  obtain v b where b: "try_attempts ?st ks None a = (v, b)" by fastforce
  note fb = same_instance_fields [OF try_attempts_same [OF b]]
  have b': "try_attempts ?st ks None (a\<lparr>inst_status := CANCELLED\<rparr>) = (v, b\<lparr>inst_status := CANCELLED\<rparr>)"
    by (simp add: try_attempts_status b)
  show ?thesis
  proof (cases v)
    case (Inl e)
    have "except_rest f t1 (steps_rest s (Some e, b))
        = except_rest f t1 (steps_rest s (Some e, b\<lparr>inst_status := CANCELLED\<rparr>))"
      by (rule steps_rest_status) (use assms fb in \<open>auto simp: same_but_status_def\<close>)
    then show ?thesis by (simp add: b b' Inl Let_def)
  next
    case (Inr d)
    let ?u = "\<lambda>b. b\<lparr>ctx := dict_update (ctx b) d, completed_steps := completed_steps b @ [?st]\<rparr>"
    let ?run = "\<lambda>b. run_steps (only s f) (Suc i) (drop (Suc i) ?sts) (?u b)"
    have "same_but_status (?u b) (?u (b\<lparr>inst_status := CANCELLED\<rparr>))"
      unfolding same_but_status_def by (rule exI [of _ CANCELLED]) simp
    from run_steps_cancel [OF this, of "only s f" "Suc i" "drop (Suc i) ?sts" "only s f"]
    obtain err c c' where c: "?run b = (err, c)" "?run (b\<lparr>inst_status := CANCELLED\<rparr>) = (err, c')" "same_but_status c c'"
      by (metis prod.collapse)
    have "definition_of (?u b) = definition_of a" using fb by simp
    then have "err \<noteq> None \<longrightarrow> current_step_index c < length (steps (definition_of c))"
      using run_steps_spec [OF c(1)] by auto
    from steps_rest_status [OF c(3) this, of f t1 s] c(1,2) show ?thesis by (simp add: b b' Inr Let_def)
  qed
qed

fun note_success :: "'w thread \<Rightarrow> bool \<Rightarrow> bool" where
  "note_success (a, InOnSuccess) s = True"
| "note_success th s = s"

fun note_failure :: "'w thread \<Rightarrow> bool \<Rightarrow> bool" where
  "note_failure (a, InOnFailure) f = True"
| "note_failure th f = f"

lemma rest_cancel:
  assumes "at_await th"
  shows "rest (note_success th s) (note_failure th f) t0 t1 th = rest s f t0 t1 (cancel_thread th)"
proof (cases th rule: work.cases)
  case (1 a)
  have "a\<lparr>inst_status := CANCELLED, inst_status := RUNNING\<rparr> = a\<lparr>inst_status := RUNNING\<rparr>" by simp
  then show ?thesis by (simp add: 1 saga_execute_def)
next
  case (2 a i ks)
  then show ?thesis using rest_cancel_step [of a i ks s f t0 t1] assms by simp
next
  case (3 a)
  then have g: "on_success (definition_of a) \<noteq> None" using assms by simp
  obtain err b where b: "run_callback (on_success (definition_of a)) a = (err, b)" by fastforce
  have "success_rest True a = success_rest s (a\<lparr>inst_status := CANCELLED\<rparr>)"
    using g more_fields(1) [OF run_callback_fields(1) [OF b]]
    by (simp del: not_None_eq add: success_rest_def run_callback_status b interfere_callback_def interfere_def only_def)
  then show ?thesis using 3 by simp
next
  case (4 a j sts errs)
  have "same_but_status a (a\<lparr>inst_status := CANCELLED\<rparr>)" by blast
  from run_compensations_cancel [OF this, of "only False f" j sts "only False f"]
  obtain errs' b b' where b: "run_compensations (only False f) j sts a = (errs', b)"
    "run_compensations (only False f) j sts (a\<lparr>inst_status := CANCELLED\<rparr>) = (errs', b')" "same_but_status b b'"
    by (metis prod.collapse)
  have "compensation_rest f errs (errs', b) = compensation_rest f errs (errs', b')"
    using b(3) by (auto simp: compensation_rest_def same_but_status_def Let_def)
  then show ?thesis by (simp add: 4 b(1,2))
next
  case (5 a)
  then have g: "on_failure (definition_of a) \<noteq> None" using assms by simp
  show ?thesis using g
    by (simp del: not_None_eq add: 5 run_callback_status interfere_callback_def interfere_def only_def)
next
  case (6 a res)
  then show ?thesis by simp
qed

section \<open>Equivalence\<close>

lemma rest_start_irrelevant: "snd th \<noteq> Created \<Longrightarrow> rest s f t0 t1 th = rest s f t0' t1 th"
  by (cases th rule: work.cases) auto

lemma not_created_again:
  "snd (to_end now err a) \<noteq> Created" "snd (to_compensation now j sts errs a) \<noteq> Created"
  "snd (to_except now e a) \<noteq> Created" "snd (to_step now i a) \<noteq> Created"
proof -
  have e: "snd (to_end now err a) \<noteq> Created" for now err and a :: "'x saga_instance"
    by (simp add: to_end_def split: prod.split)
  have c: "snd (to_compensation now j sts errs a) \<noteq> Created" for now j sts errs and a :: "'x saga_instance"
    by (induction now j sts errs a rule: to_compensation.induct) (auto simp: e Let_def)
  have x: "snd (to_except now e a) \<noteq> Created" for now e and a :: "'x saga_instance"
    by (simp add: to_except_def c e Let_def)
  have s: "snd (to_step now i a) \<noteq> Created" for now i and a :: "'x saga_instance"
    by (simp add: to_step_def x e Let_def)
  show "snd (to_end now err a) \<noteq> Created" "snd (to_compensation now j sts errs a) \<noteq> Created"
    "snd (to_except now e a) \<noteq> Created" "snd (to_step now i a) \<noteq> Created"
    by (rule e c x s)+
qed

lemma tick_not_created: "snd (tick now th) \<noteq> Created"
  by (cases "(now, th)" rule: tick.cases)
    (auto simp: not_created_again Let_def split: prod.split sum.split option.split)

lemma run_thread_rest:
  "at_await th \<Longrightarrow> \<not> ended th \<Longrightarrow> run_thread es th = (inst, Ended res)
     \<Longrightarrow> \<exists>s f t0 t1. rest s f t0 t1 th = (res, inst)"
proof (induction es arbitrary: th)
  case (Cons e es)
  show ?case
  proof (cases e)
    case Cancel
    then obtain s f t0 t1 where "rest s f t0 t1 (cancel_thread th) = (res, inst)"
      using Cons.IH [of "cancel_thread th"] Cons.prems cancel_thread_work [of th] by auto
    then show ?thesis using rest_cancel [OF Cons.prems(1)] by metis
  next
    case (Tick now)
    then have run: "run_thread es (tick now th) = (inst, Ended res)" using Cons.prems(3) by simp
    show ?thesis
    proof (cases "ended (tick now th)")
      case True
      then have "tick now th = (inst, Ended res)" using run ended_stays by metis
      then have "rest False False now now (tick now th) = (res, inst)" by simp
      then show ?thesis using rest_tick [OF Cons.prems(1,2), of now now] by metis
    next
      case False
      then obtain s f t0 t1 where "rest s f t0 t1 (tick now th) = (res, inst)"
        using Cons.IH [OF _ False run] tick_progress [OF Cons.prems(1,2)] by blast
      then have "rest s f now t1 (tick now th) = (res, inst)"
        using rest_start_irrelevant [OF tick_not_created] by metis
      then show ?thesis using rest_tick [OF Cons.prems(1,2), of now t1 s f now] False by metis
    qed
  qed
qed auto

lemma run_thread_execute:
  assumes "run_thread es (new_instance iid d c w, Created) = (inst, Ended res)"
  shows "\<exists>cancel t0 t1. saga_execute cancel t0 t1 (new_instance iid d c w) = (res, inst)"
  using run_thread_rest [OF _ _ assms] by auto

text \<open>C8: The execution that is interleaved with other tasks refines the sequential one. However the ticks of
  a saga and the calls of \<open>cancel_saga\<close> are ordered, when it has ended its instance and its result are
  those of \<open>saga_execute\<close> for some start time, end time and moments of cancellation.\<close>

theorem interleaved_execution_refines:
  assumes "run_thread es (new_instance iid d c w, Created) = (inst, Ended res)"
  shows "\<exists>cancel t0 t1. saga_execute cancel t0 t1 (new_instance iid d c w) = (res, inst)"
  using assms by (rule run_thread_execute)

end
