(* ===== verification/Orchestrator_Facts.thy ===== *)
theory Orchestrator_Facts
  imports Orchestrator Saga_Machine_Run
begin

text \<open>
  What the registry of an orchestrator says in every run, and that every saga it starts is executed to
  its end, however its task is interleaved with others and with cancellations.
\<close>

section \<open>A tick keeps the identity of an instance\<close>

text \<open>The fields that nothing writes after the instance has been made.\<close>

definition identity :: "'w saga_instance \<Rightarrow> string \<times> 'w saga_definition" where
  "identity a = (instance_id a, definition_of a)"

lemma identity_upd [simp]:
  "identity (a\<lparr>inst_status := s\<rparr>) = identity a" "identity (a\<lparr>inst_error := e\<rparr>) = identity a"
  "identity (a\<lparr>failed_step := f\<rparr>) = identity a" "identity (a\<lparr>completed_at := t\<rparr>) = identity a"
  "identity (a\<lparr>started_at := t\<rparr>) = identity a" "identity (a\<lparr>ctx := c\<rparr>) = identity a"
  "identity (a\<lparr>world := w\<rparr>) = identity a" "identity (a\<lparr>current_step_index := i\<rparr>) = identity a"
  "identity (a\<lparr>completed_steps := cs\<rparr>) = identity a" "identity (add_log l a) = identity a"
  by (simp_all add: identity_def add_log_def)

lemma identity_eq: "identity a = identity b \<longleftrightarrow> instance_id a = instance_id b \<and> definition_of a = definition_of b"
  by (simp add: identity_def)

lemma identity_more: "run.more a = run.more (b :: 'w saga_instance) \<Longrightarrow> identity a = identity b"
  by (cases a; cases b) (simp add: identity_def)

lemma identity_calls:
  "attempt_step st k a = (v, b) \<Longrightarrow> identity b = identity a"
  "step_compensate st a = (err, b) \<Longrightarrow> identity b = identity a"
  "run_callback f a = (err, b) \<Longrightarrow> identity b = identity a"
  "identity (backoff st k a) = identity a"
  "identity (snd (run_callback f a)) = identity a"
proof -
  show "identity b = identity a" if "attempt_step st k a = (v, b)"
    using same_instance_fields(1,2) [OF attempt_step_same [OF that]] by (simp add: identity_eq)
  show "identity b = identity a" if "step_compensate st a = (err, b)"
    using step_compensate_spec(1) [OF that] by (rule identity_more)
  show "identity b = identity a" if "run_callback f a = (err, b)"
    using run_callback_fields(1) [OF that] by (rule identity_more)
  show "identity (backoff st k a) = identity a"
    using same_instance_fields(1,2) [OF backoff_same, of st k a] by (simp add: identity_eq)
  show "identity (snd (run_callback f a)) = identity a"
    using run_callback_fields(1) [OF prod.collapse [symmetric]] by (rule identity_more)
qed

lemma to_end_identity [simp]: "identity (fst (to_end now err a)) = identity a"
  by (simp add: to_end_def conclude_def Let_def)

lemma to_compensation_identity [simp]: "identity (fst (to_compensation now j sts errs a)) = identity a"
proof (induction now j sts errs a rule: to_compensation.induct)
  case (2 now j st sts errs a)
  have "identity (snd (step_compensate st a)) = identity a"
    by (rule identity_calls(2)) (rule prod.collapse [symmetric])
  with 2 show ?case by simp
qed (simp add: Let_def)

lemma to_except_identity [simp]: "identity (fst (to_except now e a)) = identity a"
  by (simp add: to_except_def Let_def)

lemma to_step_identity [simp]: "identity (fst (to_step now i a)) = identity a"
  by (simp add: to_step_def Let_def)

lemma tick_identity: "identity (fst (tick now th)) = identity (fst th)"
  by (cases "(now, th)" rule: tick.cases)
    (auto simp: identity_calls Let_def split: prod.split sum.split option.split)

lemma cancel_thread_identity: "identity (fst (cancel_thread th)) = identity (fst th)"
  by (cases th rule: cancel_thread.cases) auto

lemma run_thread_identity: "identity (fst (run_thread es th)) = identity (fst th)"
proof (induction es arbitrary: th)
  case (Cons e es)
  then show ?case by (cases e) (simp_all add: tick_identity cancel_thread_identity)
qed simp

lemma world_irrelevant:
  "work (a\<lparr>world := w\<rparr>, p) = work (a, p)" "at_await (a\<lparr>world := w\<rparr>, p) = at_await (a, p)"
  "ended (a\<lparr>world := w\<rparr>, p) = ended (a, p)"
  by (cases p; simp)+

section \<open>The registry\<close>

abbreviation id_at :: "'w orchestrator \<Rightarrow> nat \<Rightarrow> string" where
  "id_at orch r \<equiv> instance_id (instance_at orch r)"

text \<open>
  The running map holds exactly the started instances that have not ended, under their ids, and the
  completed map exactly those that have; and each task has at most as many ticks left as its definition
  allows.
\<close>

definition orch_ok :: "'w orchestrator \<Rightarrow> bool" where
  "orch_ok orch = (
     (\<forall>r < length (objects orch). \<forall>r' < length (objects orch). id_at orch r = id_at orch r' \<longrightarrow> r = r')
     \<and> (\<forall>iid r. dict_get (running_instances orch) iid = Some r
          \<longleftrightarrow> r < length (objects orch) \<and> id_at orch r = iid \<and> \<not> ended (objects orch ! r))
     \<and> (\<forall>iid r. dict_get (completed_instances orch) iid = Some r
          \<longleftrightarrow> r < length (objects orch) \<and> id_at orch r = iid \<and> ended (objects orch ! r))
     \<and> (\<forall>r < length (objects orch). at_await (objects orch ! r)
          \<and> work (objects orch ! r) \<le> tick_bound (definition_of (instance_at orch r))))"

lemma orch_ok_maps:
  assumes "orch_ok orch"
  shows "dict_get (running_instances orch) iid = Some r
      \<longleftrightarrow> r < length (objects orch) \<and> id_at orch r = iid \<and> \<not> ended (objects orch ! r)"
    "dict_get (completed_instances orch) iid = Some r
      \<longleftrightarrow> r < length (objects orch) \<and> id_at orch r = iid \<and> ended (objects orch ! r)"
  using assms by (simp_all add: orch_ok_def)

lemma orch_ok_not_both:
  assumes "orch_ok orch"
  shows "dict_get (running_instances orch) iid = None \<or> dict_get (completed_instances orch) iid = None"
proof (rule ccontr)
  assume "\<not> ?thesis"
  then obtain r r' where r: "dict_get (running_instances orch) iid = Some r"
    "dict_get (completed_instances orch) iid = Some r'" by auto
  then have "r = r'" using assms unfolding orch_ok_maps [OF assms] by (auto simp: orch_ok_def)
  then show False using r unfolding orch_ok_maps [OF assms] by simp
qed

lemma new_orchestrator_ok: "orch_ok (new_orchestrator w)"
  by (simp add: orch_ok_def new_orchestrator_def)

lemma start_saga_ok:
  assumes "orch_ok orch" "iid \<notin> set (map (\<lambda>th. instance_id (fst th)) (objects orch))"
  shows "orch_ok (snd (start_saga iid d c orch))"
proof -
  have new: "instance_id (new_instance iid d c (outside orch)) = iid"
    "definition_of (new_instance iid d c (outside orch)) = d"
    "completed_steps (new_instance iid d c (outside orch)) = []" by (simp_all add: new_instance_def)
  have fresh: "r < length (objects orch) \<Longrightarrow> instance_id (fst (objects orch ! r)) \<noteq> iid" for r
    using assms(2) by (metis (mono_tags, lifting) image_eqI list.set_map nth_mem)
  have "dict_get (running_instances orch) iid = None" "dict_get (completed_instances orch) iid = None"
    using assms(1) fresh unfolding orch_ok_def instance_at_def by (metis not_None_eq)+
  then show ?thesis
    using assms(1) fresh
    by (auto simp: orch_ok_def start_saga_def instance_at_def dict_get_set nth_append less_Suc_eq new
        tick_bound_def attempts_def Let_def)
qed

text \<open>An object is replaced by a later state of itself.\<close>

definition later_object :: "'w orchestrator \<Rightarrow> nat \<Rightarrow> 'w thread \<Rightarrow> bool" where
  "later_object orch r th = (r < length (objects orch) \<and> identity (fst th) = identity (instance_at orch r)
     \<and> at_await th \<and> work th \<le> work (objects orch ! r))"

lemma later_object_fields:
  assumes "later_object orch r th"
  shows "id_at (orch\<lparr>objects := (objects orch)[r := th], outside := w\<rparr>) r' = id_at orch r'"
    "definition_of (instance_at (orch\<lparr>objects := (objects orch)[r := th], outside := w\<rparr>) r') = definition_of (instance_at orch r')"
  using assms by (cases "r' = r"; simp add: later_object_def instance_at_def identity_eq)+

lemma later_object_progress:
  assumes "orch_ok orch" "later_object orch r th" "r' < length (objects orch)"
  shows "at_await ((objects orch)[r := th] ! r') \<and> work ((objects orch)[r := th] ! r') \<le> tick_bound (definition_of (instance_at orch r'))"
  using assms by (cases "r' = r") (auto simp: later_object_def orch_ok_def)

lemma later_object_ok:
  assumes "orch_ok orch" "later_object orch r th" "ended th = ended (objects orch ! r)"
  shows "orch_ok (orch\<lparr>objects := (objects orch)[r := th], outside := w\<rparr>)"
proof -
  have e: "ended ((objects orch)[r := th] ! r') = ended (objects orch ! r')" if "r' < length (objects orch)" for r'
    using that assms(3) by (cases "r' = r") auto
  have "\<forall>r' < length (objects orch). at_await ((objects orch)[r := th] ! r')
      \<and> work ((objects orch)[r := th] ! r') \<le> tick_bound (definition_of (instance_at orch r'))"
    using later_object_progress [OF assms(1,2)] by blast
  with assms(1) show ?thesis
    unfolding orch_ok_def later_object_fields [OF assms(2)] by (simp add: e cong: conj_cong)
qed

lemma ended_object_ok:
  assumes ok: "orch_ok orch" and th: "later_object orch r th" "ended th" and run: "\<not> ended (objects orch ! r)"
  shows "orch_ok (orch\<lparr>objects := (objects orch)[r := th], outside := w,
    running_instances := dict_pop (id_at orch r) (running_instances orch),
    completed_instances := dict_set (id_at orch r) r (completed_instances orch)\<rparr>)"
proof -
  let ?o = "orch\<lparr>objects := (objects orch)[r := th], outside := w,
    running_instances := dict_pop (id_at orch r) (running_instances orch),
    completed_instances := dict_set (id_at orch r) r (completed_instances orch)\<rparr>"
  have r: "r < length (objects orch)" using th(1) by (simp add: later_object_def)
  have ids: "id_at ?o r' = id_at orch r'" "definition_of (instance_at ?o r') = definition_of (instance_at orch r')" for r'
    using later_object_fields [OF th(1)] by (simp_all add: instance_at_def)
  have e: "ended ((objects orch)[r := th] ! r') \<longleftrightarrow> r' = r \<or> ended (objects orch ! r')" if "r' < length (objects orch)" for r'
    using that th(2) by (cases "r' = r") auto
  have same: "id_at orch r' = id_at orch r \<longleftrightarrow> r' = r" if "r' < length (objects orch)" for r'
    using ok that r unfolding orch_ok_def by metis
  have "dict_get (running_instances ?o) iid = Some r'
      \<longleftrightarrow> r' < length (objects ?o) \<and> id_at ?o r' = iid \<and> \<not> ended (objects ?o ! r')" for iid r'
    using ok e same unfolding orch_ok_def ids by (auto simp: delete_conv')
  moreover have "dict_get (completed_instances ?o) iid = Some r'
      \<longleftrightarrow> r' < length (objects ?o) \<and> id_at ?o r' = iid \<and> ended (objects ?o ! r')" for iid r'
    using ok e same r unfolding orch_ok_def ids by (auto simp: dict_get_set)
  moreover have "\<forall>r < length (objects ?o). \<forall>r' < length (objects ?o). id_at ?o r = id_at ?o r' \<longrightarrow> r = r'"
    using ok unfolding orch_ok_def ids by simp
  moreover have "\<forall>r' < length (objects ?o). at_await (objects ?o ! r')
      \<and> work (objects ?o ! r') \<le> tick_bound (definition_of (instance_at ?o r'))"
    using later_object_progress [OF ok th(1)] unfolding ids by simp
  ultimately show ?thesis unfolding orch_ok_def by blast
qed

lemma resume_cases:
  assumes "orch_ok orch" "r < length (objects orch)"
  obtains (idle) "ended (objects orch ! r)" "resume now r orch = orch"
  | (step) a p th where "objects orch ! r = (a, p)" "\<not> ended (a, p)" "th = tick now (a\<lparr>world := outside orch\<rparr>, p)"
      "later_object orch r th" "work th < work (a, p)"
      "resume now r orch = (if ended th then orch\<lparr>objects := (objects orch)[r := th], outside := world (fst th),
           running_instances := dict_pop (id_at orch r) (running_instances orch),
           completed_instances := dict_set (id_at orch r) r (completed_instances orch)\<rparr>
         else orch\<lparr>objects := (objects orch)[r := th], outside := world (fst th)\<rparr>)"
proof -
  obtain a p where o: "objects orch ! r = (a, p)" by fastforce
  let ?th = "tick now (a\<lparr>world := outside orch\<rparr>, p)"
  show ?thesis
  proof (cases "ended (a, p)")
    case True
    then show ?thesis using o by (intro idle) (simp_all add: resume_def)
  next
    case False
    have "at_await (a, p)" using assms o by (auto simp: orch_ok_def)
    then have th: "at_await ?th" "work ?th < work (a, p)"
      using tick_progress [of "(a\<lparr>world := outside orch\<rparr>, p)" now] False by (simp_all add: world_irrelevant)
    have "identity (fst ?th) = identity a" by (simp add: tick_identity)
    then have "later_object orch r ?th" using th o assms(2) by (simp add: later_object_def instance_at_def)
    from o False refl this th(2) show ?thesis
      by (rule step) (simp add: resume_def o False instance_at_def Let_def)
  qed
qed

lemma resume_ok:
  assumes "orch_ok orch" "r < length (objects orch)"
  shows "orch_ok (resume now r orch)"
  using assms
proof (cases rule: resume_cases [where now = now])
  case (step a p th)
  show ?thesis
  proof (cases "ended th")
    case True
    then show ?thesis using ended_object_ok [OF assms(1) step(4) True] step by simp
  next
    case False
    then show ?thesis using later_object_ok [OF assms(1) step(4)] step by simp
  qed
qed (use assms in simp)

lemma cancel_cases:
  assumes "orch_ok orch"
  obtains (none) "dict_get (running_instances orch) iid = None" "cancel_saga iid orch = (False, orch)"
  | (some) r where "dict_get (running_instances orch) iid = Some r" "later_object orch r (cancel_thread (objects orch ! r))"
      "cancel_saga iid orch = (True, orch\<lparr>objects := (objects orch)[r := cancel_thread (objects orch ! r)], outside := outside orch\<rparr>)"
proof (cases "dict_get (running_instances orch) iid")
  case None
  then show ?thesis by (intro none) (simp_all add: cancel_saga_def)
next
  case (Some r)
  have "later_object orch r (cancel_thread (objects orch ! r))"
    using assms Some by (auto simp: later_object_def orch_ok_def instance_at_def cancel_thread_identity cancel_thread_work)
  from Some this show ?thesis by (rule some) (simp add: cancel_saga_def Some)
qed

lemma cancel_saga_ok:
  assumes "orch_ok orch" shows "orch_ok (snd (cancel_saga iid orch))"
  using assms
proof (cases rule: cancel_cases [where iid = iid])
  case (some r)
  then show ?thesis using later_object_ok [OF assms some(2), of "outside orch"] by (simp add: cancel_thread_work)
qed (use assms in simp)

lemma orch_run_ok: "orch_run orch es orch' \<Longrightarrow> orch_ok orch \<Longrightarrow> orch_ok orch'"
  by (induction rule: orch_run.induct) (simp_all add: start_saga_ok resume_ok cancel_saga_ok)

text \<open>C17: The registry is right in every run. Every saga ever started is found under its id; it is among the
  running ones while its execution goes on and among the completed ones afterwards, never in both and never
  in neither; \<open>cancel_saga\<close> succeeds exactly for the running ones.\<close>

theorem registry_tracks_every_saga:
  assumes "orch_run (new_orchestrator w) es orch"
  shows "(\<forall>r < length (objects orch). get_instance (id_at orch r) orch = Some r
      \<and> (dict_get (running_instances orch) (id_at orch r) = Some r \<longleftrightarrow> \<not> ended (objects orch ! r))
      \<and> (dict_get (completed_instances orch) (id_at orch r) = Some r \<longleftrightarrow> ended (objects orch ! r)))
    \<and> (\<forall>iid. (dict_get (running_instances orch) iid = None \<or> dict_get (completed_instances orch) iid = None)
        \<and> (fst (cancel_saga iid orch) \<longleftrightarrow> dict_get (running_instances orch) iid \<noteq> None))"
proof -
  note ok = orch_run_ok [OF assms new_orchestrator_ok]
  note maps = orch_ok_maps [OF ok]
  have "get_instance (id_at orch r) orch = Some r" if "r < length (objects orch)" for r
  proof (cases "ended (objects orch ! r)")
    case True
    then have c: "dict_get (completed_instances orch) (id_at orch r) = Some r" using that by (simp add: maps(2))
    then have "dict_get (running_instances orch) (id_at orch r) = None"
      using orch_ok_not_both [OF ok, of "id_at orch r"] by auto
    then show ?thesis using c by (simp add: get_instance_def)
  next
    case False
    then have "dict_get (running_instances orch) (id_at orch r) = Some r" using that by (simp add: maps(1))
    then show ?thesis by (simp add: get_instance_def)
  qed
  moreover have "fst (cancel_saga iid orch) \<longleftrightarrow> dict_get (running_instances orch) iid \<noteq> None" for iid
    by (auto simp: cancel_saga_def split: option.split)
  ultimately show ?thesis using orch_ok_not_both [OF ok] by (simp add: maps)
qed

section \<open>Every saga is completed\<close>

definition is_run :: "nat \<Rightarrow> 'w orch_event \<Rightarrow> bool" where
  "is_run r e = (case e of Run _ r' \<Rightarrow> r' = r | _ \<Rightarrow> False)"

lemma is_run_simps [simp]:
  "is_run r (Run now r') = (r' = r)" "\<not> is_run r (Start iid d c)" "\<not> is_run r (CancelSaga iid)"
  by (simp_all add: is_run_def)

lemma orch_run_ends:
  "orch_run orch es orch' \<Longrightarrow> orch_ok orch \<Longrightarrow> r < length (objects orch)
     \<Longrightarrow> ended (objects orch ! r) \<or> work (objects orch ! r) \<le> length (filter (is_run r) es)
     \<Longrightarrow> ended (objects orch' ! r) \<and> r < length (objects orch') \<and> id_at orch' r = id_at orch r"
proof (induction rule: orch_run.induct)
  case (stop orch)
  then have "ended (objects orch ! r)"
    using work.simps by (cases "objects orch ! r" rule: work.cases) auto
  then show ?case using stop by simp
next
  case (start iid orch d c es orch')
  have "objects (snd (start_saga iid d c orch)) ! r = objects orch ! r"
    "r < length (objects (snd (start_saga iid d c orch)))"
    using start.prems(2) by (simp_all add: start_saga_def nth_append Let_def)
  then show ?case using start start_saga_ok [OF start.prems(1) start.hyps(1)] by (simp add: instance_at_def)
next
  case (run r' orch now es orch')
  note IH = run.IH [OF resume_ok [OF run.prems(1) run.hyps(1)]]
  from run.prems(1) run.hyps(1) show ?case
  proof (cases rule: resume_cases [where now = now])
    case idle
    then show ?thesis using IH run.prems by (cases "r' = r") auto
  next
    case (step a p th)
    let ?o = "resume now r' orch"
    have o: "objects ?o = (objects orch)[r' := th]" using step(6) by simp
    have id: "id_at ?o r = id_at orch r"
      using later_object_fields(1) [OF step(4), of _ r] by (simp add: instance_at_def o)
    have "ended (objects ?o ! r) \<or> work (objects ?o ! r) \<le> length (filter (is_run r) es)"
    proof (cases "r' = r")
      case True
      then have "objects ?o ! r = th" using o run.prems(2) by simp
      then show ?thesis using run.prems(3) step(1,2,5) True by simp
    next
      case False
      then show ?thesis using run.prems(3) o by simp
    qed
    then show ?thesis using IH run.prems(2) id by (simp add: o)
  qed
next
  case (cancel iid orch es orch')
  note IH = cancel.IH [OF cancel_saga_ok [OF cancel.prems(1)]]
  from cancel.prems(1) show ?case
  proof (cases rule: cancel_cases [where iid = iid])
    case none
    then show ?thesis using IH cancel.prems by simp
  next
    case (some r')
    let ?o = "snd (cancel_saga iid orch)"
    have o: "objects ?o = (objects orch)[r' := cancel_thread (objects orch ! r')]" using some(3) by simp
    have id: "id_at ?o r = id_at orch r"
      using later_object_fields(1) [OF some(2), of _ r] by (simp add: instance_at_def o)
    have "ended (objects ?o ! r) = ended (objects orch ! r)" "work (objects ?o ! r) = work (objects orch ! r)"
      using cancel.prems(2) by (cases "r' = r"; simp add: o cancel_thread_work)+
    then show ?thesis using IH cancel.prems(2,3) id by (simp add: o)
  qed
qed

text \<open>C4: Every started saga is completed. However its task is interleaved with those of other sagas, with
  new sagas and with cancellations, once a running saga has been resumed as often as its definition
  bounds, it has left the running instances for good and is among the completed ones.\<close>

theorem started_saga_completes:
  assumes "orch_run (new_orchestrator w) es0 orch" and "orch_run orch es orch'"
    and "dict_get (running_instances orch) iid = Some r"
    and "tick_bound (definition_of (instance_at orch r)) \<le> length (filter (is_run r) es)"
  shows "dict_get (completed_instances orch') iid = Some r \<and> dict_get (running_instances orch') iid = None
    \<and> (\<exists>inst res. objects orch' ! r = (inst, Ended res))"
proof -
  note ok = orch_run_ok [OF assms(1) new_orchestrator_ok]
  note ok' = orch_run_ok [OF assms(2) ok]
  have r: "r < length (objects orch)" "id_at orch r = iid" "\<not> ended (objects orch ! r)"
    "work (objects orch ! r) \<le> tick_bound (definition_of (instance_at orch r))"
    using ok assms(3) unfolding orch_ok_def by blast+
  then have e: "ended (objects orch' ! r)" "r < length (objects orch')" "id_at orch' r = iid"
    using orch_run_ends [OF assms(2) ok r(1)] assms(4) by auto
  then have c: "dict_get (completed_instances orch') iid = Some r" by (simp add: orch_ok_maps(2) [OF ok'])
  moreover have "dict_get (running_instances orch') iid = None" using orch_ok_not_both [OF ok', of iid] c by auto
  moreover have "\<exists>inst res. objects orch' ! r = (inst, Ended res)"
    using e(1) by (cases "objects orch' ! r" rule: ended.cases) auto
  ultimately show ?thesis by blast
qed

section \<open>One saga in the run of an orchestrator\<close>

text \<open>What a run of the orchestrator does to one of its sagas, if the outside world has no state of its own.\<close>

fun thread_trace :: "nat \<Rightarrow> string \<Rightarrow> 'w orch_event list \<Rightarrow> thread_event list" where
  "thread_trace r iid [] = []"
| "thread_trace r iid (Run now r' # es) = (if r' = r then [Tick now] else []) @ thread_trace r iid es"
| "thread_trace r iid (CancelSaga iid' # es) = (if iid' = iid then [Cancel] else []) @ thread_trace r iid es"
| "thread_trace r iid (Start _ _ _ # es) = thread_trace r iid es"

lemma ended_fixed: "ended th \<Longrightarrow> tick now th = th" "ended th \<Longrightarrow> cancel_thread th = th"
  by (cases th rule: ended.cases; simp)+

lemma orch_run_thread:
  fixes orch :: "unit orchestrator"
  shows "orch_run orch es orch' \<Longrightarrow> orch_ok orch \<Longrightarrow> r < length (objects orch)
     \<Longrightarrow> objects orch' ! r = run_thread (thread_trace r (id_at orch r) es) (objects orch ! r)"
proof (induction rule: orch_run.induct)
  case (start iid orch d c es orch')
  have "objects (snd (start_saga iid d c orch)) ! r = objects orch ! r"
    "r < length (objects (snd (start_saga iid d c orch)))"
    using start.prems(2) by (simp_all add: start_saga_def nth_append Let_def)
  then show ?case using start start_saga_ok [OF start.prems(1) start.hyps(1)] by (simp add: instance_at_def)
next
  case (run r' orch now es orch')
  note IH = run.IH [OF resume_ok [OF run.prems(1) run.hyps(1)]]
  from run.prems(1) run.hyps(1) show ?case
  proof (cases rule: resume_cases [where now = now])
    case idle
    then show ?thesis using IH run.prems by (auto simp: ended_fixed)
  next
    case (step a p th)
    let ?o = "resume now r' orch"
    have o: "objects ?o = (objects orch)[r' := th]" using step(6) by simp
    have id: "id_at ?o r = id_at orch r"
      using later_object_fields(1) [OF step(4), of _ r] by (simp add: instance_at_def o)
    have w: "a\<lparr>world := outside orch\<rparr> = a" by (cases a) simp
    have "th = tick now (objects orch ! r')" unfolding step(1,3) w ..
    then show ?thesis using IH run.prems(2) id by (auto simp: o)
  qed
next
  case (cancel iid orch es orch')
  note IH = cancel.IH [OF cancel_saga_ok [OF cancel.prems(1)]]
  note ok = cancel.prems(1) [unfolded orch_ok_def]
  from cancel.prems(1) show ?case
  proof (cases rule: cancel_cases [where iid = iid])
    case none
    have "ended (objects orch ! r)" if "iid = id_at orch r"
      using ok none(1) cancel.prems(2) that by (metis option.distinct(1))
    then show ?thesis using IH none cancel.prems by (auto simp: ended_fixed)
  next
    case (some r')
    let ?o = "snd (cancel_saga iid orch)"
    have o: "objects ?o = (objects orch)[r' := cancel_thread (objects orch ! r')]" using some(3) by simp
    have id: "id_at ?o r = id_at orch r"
      using later_object_fields(1) [OF some(2), of _ r] by (simp add: instance_at_def o)
    have "iid = id_at orch r \<longleftrightarrow> r' = r" using ok some(1) cancel.prems(2) by metis
    then show ?thesis using IH cancel.prems(2) id by (auto simp: o)
  qed
qed simp

section \<open>The history\<close>

text \<open>The last \<open>limit\<close> completed sagas; but all of them for the limit 0.\<close>

lemma get_saga_history_spec:
  "0 < limit \<Longrightarrow> get_saga_history limit orch = map (\<lambda>(_, r). instance_to_dict str_of_error (instance_at orch r))
     (drop (length (completed_instances orch) - nat limit) (completed_instances orch))"
  "get_saga_history 0 orch = map (\<lambda>(_, r). instance_to_dict str_of_error (instance_at orch r)) (completed_instances orch)"
  by (simp_all add: get_saga_history_def slice_from_def nat_diff_distrib')

end
