(* ===== verification/Saga_Timing.thy ===== *)
theory Saga_Timing
  imports Saga_Execution
begin

text \<open>How long a saga pauses between the attempts of its steps, in microseconds of \<open>asyncio.sleep\<close>.\<close>

lemma try_attempts_slept_mono:
  assumes "try_attempts st is l r = (v, r')" "0 \<le> retry_delay st"
  shows "slept (log r) \<le> slept (log r')"
  using assms(1)
proof (induction "is" arbitrary: l r)
  case (Cons i "is")
  obtain u r1 where a: "attempt_step st i r = (u, r1)" by fastforce
  have r1: "slept (log r1) = slept (log r)" using attempt_step_slept [of st i r] a by simp
  have b: "slept (log r1) \<le> slept (log (backoff st i r1))" using assms(2) by (simp add: backoff_def)
  show ?case using Cons.IH Cons.prems a r1 b by (cases u) (auto intro: order.trans)
qed simp

lemma step_execute_slept:
  assumes "step_execute st r = (v, r')" "0 \<le> retry_delay st" "0 \<le> retry_count st"
  shows "slept (log r) \<le> slept (log r')
    \<and> (\<forall>e. v = Inl e \<longrightarrow> slept (log r') = slept (log r) + retry_delay st * (2 ^ nat (retry_count st) - 1))"
  using try_attempts_slept_mono [of st _ None "add_log (StepExecuting (step_name st)) r" v r'] failed_step_slept [of st r _ r'] assms
  by (auto simp: step_execute_def)

definition patient :: "'w saga_step \<Rightarrow> bool" where
  "patient st = (0 \<le> retry_delay st \<and> 0 \<le> retry_count st)"

lemma run_steps_slept:
  assumes "run_steps cancel i sts a = (err, b)" "\<forall>st \<in> set sts. patient st"
  shows "slept (log a) \<le> slept (log b) \<and> (err \<noteq> None \<longrightarrow> (\<exists>k < length sts. current_step_index b = i + k
    \<and> slept (log a) + retry_delay (sts ! k) * (2 ^ nat (retry_count (sts ! k)) - 1) \<le> slept (log b)))"
  using assms
proof (induction sts arbitrary: i a)
  case (Cons st sts)
  let ?a = "a\<lparr>current_step_index := i, ctx := dict_set ''current_step'' (JStr (step_name st)) (ctx a)\<rparr>"
  obtain res a1 where a1: "step_execute st ?a = (res, a1)" by fastforce
  have s: "slept (log a) \<le> slept (log a1)"
    "res = Inl e \<longrightarrow> slept (log a1) = slept (log a) + retry_delay st * (2 ^ nat (retry_count st) - 1)" for e
    using step_execute_slept [OF a1] Cons.prems(2) by (auto simp: patient_def)
  show ?case
  proof (cases res)
    case (Inl e)
    then have "b = interfere cancel (AwaitStep i) a1" "err = Some e" using Cons.prems(1) a1 by simp_all
    moreover have "current_step_index a1 = i" using same_instance_fields(4) [OF step_execute_same [OF a1]] by simp
    ultimately show ?thesis using s(1) s(2) [of e] Inl by (auto intro!: exI [of _ 0])
  next
    case (Inr d)
    let ?b = "(interfere cancel (AwaitStep i) a1)\<lparr>ctx := dict_update (ctx a1) d,
      completed_steps := completed_steps a1 @ [st]\<rparr>"
    have run: "run_steps cancel (Suc i) sts ?b = (err, b)" using Cons.prems(1) a1 Inr by (simp add: Let_def)
    have IH: "slept (log a1) \<le> slept (log b)" "err \<noteq> None \<longrightarrow> (\<exists>k < length sts. current_step_index b = Suc i + k
        \<and> slept (log a1) + retry_delay (sts ! k) * (2 ^ nat (retry_count (sts ! k)) - 1) \<le> slept (log b))"
      using Cons.IH [OF run] Cons.prems(2) by simp_all
    show ?thesis
    proof (intro conjI impI)
      show "slept (log a) \<le> slept (log b)" using s(1) IH(1) by simp
    next
      assume "err \<noteq> None"
      then obtain k where k: "k < length sts" "current_step_index b = Suc i + k"
        "slept (log a1) + retry_delay (sts ! k) * (2 ^ nat (retry_count (sts ! k)) - 1) \<le> slept (log b)"
        using IH(2) by blast
      then show "\<exists>k < length (st # sts). current_step_index b = i + k
          \<and> slept (log a) + retry_delay ((st # sts) ! k) * (2 ^ nat (retry_count ((st # sts) ! k)) - 1) \<le> slept (log b)"
        using s(1) by (intro exI [of _ "Suc k"]) simp
    qed
  qed
qed simp

lemma step_compensate_slept:
  fixes a :: "'w saga_instance"
  shows "slept (log (snd (step_compensate st a))) = slept (log a)"
    "failed_step (snd (step_compensate st a)) = failed_step a"
  by (auto simp: step_compensate_def add_log_def Let_def split: option.split prod.split)

lemma run_compensations_slept: "run_compensations cancel i sts a = (errs, b)
    \<Longrightarrow> slept (log b) = slept (log a) \<and> failed_step b = failed_step a"
proof (induction sts arbitrary: i a errs)
  case (Cons st sts)
  obtain err a1 where a1: "step_compensate st a = (err, a1)" by fastforce
  moreover obtain es b1 where "run_compensations cancel (Suc i) sts (interfere cancel (AwaitCompensation i) a1) = (es, b1)"
    by fastforce
  ultimately show ?case using Cons step_compensate_slept [of st a] by auto
qed simp

lemma compensate_all_slept:
  "slept (log (compensate_all cancel a)) = slept (log a) \<and> failed_step (compensate_all cancel a) = failed_step a"
proof -
  obtain errs b where b: "run_compensations cancel 0 (rev (completed_steps a)) (a\<lparr>inst_status := COMPENSATING\<rparr>) = (errs, b)"
    by fastforce
  show ?thesis using run_compensations_slept [OF b]
    by (auto simp: compensate_all_def b run_callback_def interfere_callback_def Let_def split: option.split prod.split)
qed

text \<open>
  A saga that fails has paused for the whole backoff of the step it failed at, the one after those that
  have completed.
\<close>

theorem failed_saga_has_slept:
  assumes "saga_execute cancel t0 t1 (new_instance iid d c w) = (res, inst)" and "inst_error inst \<noteq> None"
    and "on_success d = None" and "\<forall>st \<in> set (steps d). patient st"
  shows "length (completed_steps inst) < length (steps d)
    \<and> (let st = steps d ! length (completed_steps inst) in failed_step inst = Some st
        \<and> retry_delay st * (2 ^ nat (retry_count st) - 1) \<le> slept (log inst))"
proof -
  let ?a = "(new_instance iid d c w)\<lparr>inst_status := RUNNING, started_at := Some t0\<rparr>"
  obtain err b where b: "run_steps cancel 0 (steps d) ?a = (err, b)" by fastforce
  note spec = run_steps_spec [OF b]
  have d: "definition_of b = d" "inst_error b = None" using spec by (auto simp: new_instance_def)
  show ?thesis
  proof (cases err)
    case None
    then have "try_body cancel ?a = (None, b\<lparr>inst_status := COMPLETED\<rparr>)"
      using b d assms(3) by (simp add: try_body_def run_callback_def interfere_callback_def new_instance_def)
    then have "inst_error inst = None" using assms(1) d by (auto simp: saga_execute_def Let_def)
    then show ?thesis using assms(2) by simp
  next
    case (Some e)
    obtain k where k: "k < length (steps d)" "completed_steps b = take k (steps d)" "current_step_index b = k"
      using spec Some by (auto simp: new_instance_def)
    have "try_body cancel ?a = (Some e, b)" using b Some by (simp add: try_body_def new_instance_def)
    then have inst: "inst = (compensate_all cancel (b\<lparr>inst_error := Some e, failed_step := Some (steps d ! k)\<rparr>))
        \<lparr>completed_at := Some t1, ctx := ctx inst\<rparr>"
      using assms(1) k d by (auto simp: saga_execute_def except_body_def Let_def)
    let ?b = "b\<lparr>inst_error := Some e, failed_step := Some (steps d ! k)\<rparr>"
    have c: "completed_steps inst = take k (steps d)" "log inst = log (compensate_all cancel ?b)"
      "failed_step inst = failed_step (compensate_all cancel ?b)"
      using compensate_all_spec(1) [of cancel ?b] k by (subst inst; simp)+
    have f: "failed_step (compensate_all cancel ?b) = Some (steps d ! k)"
      by (simp add: compensate_all_slept)
    have "slept (log ?a) = 0" by (simp add: new_instance_def)
    then have "retry_delay (steps d ! k) * (2 ^ nat (retry_count (steps d ! k)) - 1) \<le> slept (log b)"
      using run_steps_slept [OF b assms(4)] Some k by auto
    then show ?thesis using c f k by (simp add: compensate_all_slept)
  qed
qed

end
