(* ===== verification/Workflow_Service_Facts.thy ===== *)
theory Workflow_Service_Facts
  imports Workflow_Service Orchestrator_Facts Workflow_Facts Saga_Timing
begin

text \<open>
  The workflow service from a request to the status it reports: which requests it accepts, and what
  becomes of an onboarding workflow among any other sagas.
\<close>


section \<open>One saga among others\<close>

lemma orch_run_length: "orch_run orch es orch' \<Longrightarrow> length (objects orch) \<le> length (objects orch')"
  by (induction rule: orch_run.induct)
    (auto simp: start_saga_def resume_def cancel_saga_def Let_def split: prod.splits option.splits if_splits)

text \<open>
  A saga that is started among others, in a world without state: while it has not ended it is running, with
  enough resumptions it ends, and then it is what \<open>saga_execute\<close> gives for some moments of cancellation.
\<close>

lemma started_saga_execution:
  fixes d :: "unit saga_definition"
  assumes "orch_run (new_orchestrator ()) es0 orch"
    and "iid \<notin> set (map (\<lambda>th. instance_id (fst th)) (objects orch))"
    and "start_saga iid d c orch = (r, orch1)" and "orch_run orch1 es orch2"
  shows "tick_bound d \<le> length (filter (is_run r) es) \<Longrightarrow> ended (objects orch2 ! r)"
    and "\<not> ended (objects orch2 ! r) \<Longrightarrow> dict_get (running_instances orch2) iid = Some r"
    and "ended (objects orch2 ! r) \<Longrightarrow> \<exists>inst res cancel t0 t1. objects orch2 ! r = (inst, Ended res)
      \<and> saga_execute cancel t0 t1 (new_instance iid d c (outside orch)) = (res, inst) \<and> definition_of inst = d
      \<and> dict_get (completed_instances orch2) iid = Some r \<and> dict_get (running_instances orch2) iid = None"
proof -
  let ?i = "new_instance iid d c (outside orch)"
  have start: "r = length (objects orch)" "orch1 = snd (start_saga iid d c orch)"
    using assms(3) by (auto simp: start_saga_def Let_def)
  have ok1: "orch_ok orch1"
    using start_saga_ok [OF orch_run_ok [OF assms(1) new_orchestrator_ok] assms(2)] start(2) by simp
  have r: "objects orch1 ! r = (?i, Created)" "r < length (objects orch1)" "instance_at orch1 r = ?i"
    using start by (simp_all add: start_saga_def instance_at_def Let_def)
  have id: "instance_id ?i = iid" "definition_of ?i = d" by (simp_all add: new_instance_def)
  note ok2 = orch_run_ok [OF assms(4) ok1]
  have r2: "r < length (objects orch2)" using orch_run_length [OF assms(4)] r(2) by simp
  have run: "objects orch2 ! r = run_thread (thread_trace r iid es) (?i, Created)"
    using orch_run_thread [OF assms(4) ok1 r(2)] r(1,3) id by simp
  have ident: "identity (fst (objects orch2 ! r)) = identity ?i" by (simp add: run run_thread_identity)
  then have id2: "id_at orch2 r = iid" "definition_of (instance_at orch2 r) = d"
    using id by (simp_all add: identity_eq instance_at_def)
  show "ended (objects orch2 ! r)" if "tick_bound d \<le> length (filter (is_run r) es)"
  proof -
    have "work (objects orch1 ! r) = tick_bound d"
      by (simp add: r(1) tick_bound_def attempts_def new_instance_def)
    then show ?thesis using orch_run_ends [OF assms(4) ok1 r(2)] that by simp
  qed
  show "dict_get (running_instances orch2) iid = Some r" if "\<not> ended (objects orch2 ! r)"
    using orch_ok_maps(1) [OF ok2] r2 id2 that by simp
  assume e: "ended (objects orch2 ! r)"
  then obtain inst res where inst: "objects orch2 ! r = (inst, Ended res)"
    by (cases "objects orch2 ! r" rule: ended.cases) auto
  have "run_thread (thread_trace r iid es) (?i, Created) = (inst, Ended res)" using run inst by simp
  from run_thread_execute [OF this] obtain cancel t0 t1 where x: "saga_execute cancel t0 t1 ?i = (res, inst)" by blast
  have c: "dict_get (completed_instances orch2) iid = Some r" using orch_ok_maps(2) [OF ok2] r2 id2 e by simp
  then have "dict_get (running_instances orch2) iid = None" using orch_ok_not_both [OF ok2, of iid] by auto
  then show "\<exists>inst res cancel t0 t1. objects orch2 ! r = (inst, Ended res)
      \<and> saga_execute cancel t0 t1 ?i = (res, inst) \<and> definition_of inst = d
      \<and> dict_get (completed_instances orch2) iid = Some r \<and> dict_get (running_instances orch2) iid = None"
    using inst x c id2(2) by (auto simp: instance_at_def)
qed

section \<open>Onboarding\<close>

lemma onboarding_bound: "tick_bound (task_onboarding uid) = 20"
  by (simp add: tick_bound_def onboarding_steps KafkaPublishStep_def)

text \<open>C11: An onboarding workflow through the whole service. Start it among any other sagas, with any context,
  and let its task run: whatever else is started, resumed or cancelled in between, this saga included,
  after at most 20 of its awaits its status is reported as compensated, with three of its four steps
  completed and the error of the missing publisher, and it can no longer be cancelled.\<close>

theorem onboarding_through_the_service:
  assumes "orch_run (new_orchestrator ()) es0 orch"
    and "iid \<notin> set (map (\<lambda>th. instance_id (fst th)) (objects orch))"
    and "start_workflow uid iid ''task_onboarding'' c orch = (Inr r, orch1)"
    and "orch_run orch1 es orch2" and "20 \<le> length (filter (is_run r) es)"
  shows "\<exists>d. get_workflow_status iid orch2 = Some d \<and> get_or d ''status'' JNull = JStr ''compensated''
    \<and> get_or d ''completed_steps'' JNull = JInt 3 \<and> get_or d ''total_steps'' JNull = JInt 4
    \<and> get_or d ''error'' JNull = JStr (str_of_error no_publisher)
    \<and> cancel_workflow iid orch2 = (False, orch2)"
proof -
  let ?d = "task_onboarding uid :: unit saga_definition"
  have start: "start_saga iid ?d c orch = (r, orch1)"
    using assms(3) by (simp add: start_workflow_def build_workflow_def workflow_registry_def split: prod.splits)
  note saga = started_saga_execution [OF assms(1,2) start assms(4)]
  have "ended (objects orch2 ! r)" using saga(1) assms(5) onboarding_bound [of uid, where 'a = unit] by simp
  from saga(3) [OF this] obtain inst res cancel t0 t1 where inst: "objects orch2 ! r = (inst, Ended res)"
    "saga_execute cancel t0 t1 (new_instance iid ?d c (outside orch)) = (res, inst)" "definition_of inst = ?d"
    "dict_get (completed_instances orch2) iid = Some r" "dict_get (running_instances orch2) iid = None" by blast
  have res: "res = Inr COMPENSATED" "inst_error inst = Some no_publisher"
    "map step_name (completed_steps inst) = [''create_task'', ''notify_assignee'', ''create_audit_log'']"
    using onboarding_outcome [of cancel t0 t1 iid uid c "outside orch"] unfolding inst(2) by simp_all
  have st: "inst_status inst = COMPENSATED" by (rule execute_returns_status [OF inst(2) [unfolded res(1)]])
  have n: "length (completed_steps inst) = 3" using arg_cong [OF res(3), of length] by simp
  have "steps ?d \<noteq> [] \<and> length (steps ?d) = 4" by (simp add: onboarding_steps)
  then show ?thesis using inst st res n
    by (simp add: get_workflow_status_def get_instance_def instance_at_def instance_to_dict_def
        cancel_workflow_def cancel_saga_def)
qed

text \<open>C39: How long an onboarding workflow takes. As long as it has paused for less than seven seconds, the whole
  backoff of its last step, it is still running, can be cancelled, and is not among the completed sagas.\<close>

theorem onboarding_takes_seven_seconds:
  assumes "orch_run (new_orchestrator ()) es0 orch"
    and "iid \<notin> set (map (\<lambda>th. instance_id (fst th)) (objects orch))"
    and "start_workflow uid iid ''task_onboarding'' c orch = (Inr r, orch1)"
    and "orch_run orch1 es orch2" and "slept (log (instance_at orch2 r)) < 7000000"
  shows "dict_get (running_instances orch2) iid = Some r \<and> fst (cancel_workflow iid orch2)
    \<and> (\<forall>res inst. objects orch2 ! r \<noteq> (inst, Ended res))"
proof -
  let ?d = "task_onboarding uid :: unit saga_definition"
  have start: "start_saga iid ?d c orch = (r, orch1)"
    using assms(3) by (simp add: start_workflow_def build_workflow_def workflow_registry_def split: prod.splits)
  note saga = started_saga_execution [OF assms(1,2) start assms(4)]
  have "\<not> ended (objects orch2 ! r)"
  proof
    assume "ended (objects orch2 ! r)"
    from saga(3) [OF this] obtain inst res cancel t0 t1 where inst: "objects orch2 ! r = (inst, Ended res)"
      "saga_execute cancel t0 t1 (new_instance iid ?d c (outside orch)) = (res, inst)" by blast
    have err: "inst_error inst \<noteq> None"
      and names: "map step_name (completed_steps inst) = [''create_task'', ''notify_assignee'', ''create_audit_log'']"
      using onboarding_outcome [of cancel t0 t1 iid uid c "outside orch"] unfolding inst(2) by simp_all
    have "length (completed_steps inst) = 3" using arg_cong [OF names, of length] by simp
    moreover have "\<forall>st \<in> set (steps ?d). patient st" "on_success ?d = None"
      by (simp_all add: onboarding_steps patient_def KafkaPublishStep_def new_step_def default_kwargs_def task_onboarding_def)
    ultimately have "7000000 \<le> slept (log inst)"
      using failed_saga_has_slept [OF inst(2) err]
      by (simp add: onboarding_steps KafkaPublishStep_def new_step_def default_kwargs_def Let_def)
    then show False using assms(5) inst(1) by (simp add: instance_at_def)
  qed
  from saga(2) [OF this] this show ?thesis by (auto simp: cancel_workflow_def cancel_saga_def)
qed

end
