(* ===== verification/Orchestrator_Scenario.thy ===== *)
theory Orchestrator_Scenario
  imports Workflow_Service_Facts Saga_Scenario
begin

text \<open>
  The theorems on interleaved sagas at work: the order saga of \<open>Saga_Scenario\<close>, cancelled while it runs,
  two of them in one orchestrator, and an onboarding workflow in an orchestrator of its own.
\<close>

section \<open>One task\<close>

lemma saga_execution_terminates_witness:
  "\<exists>inst res. run_thread (Cancel # replicate 22 (Tick clock)) (new_instance ''i'' order_saga [] 0, Created)
     = (inst, Ended res)"
  by (rule saga_execution_terminates) (simp add: tick_bound_def is_tick_def order_saga_def saga_scenario_defs)

definition order_events :: "thread_event list" where
  "order_events = [Tick clock, Tick clock, Cancel, Tick clock, Tick clock, Tick clock, Cancel, Tick clock, Tick clock]"

definition order_thread :: "nat thread" where
  "order_thread = run_thread order_events (new_instance ''i'' order_saga [] 0, Created)"

lemma order_thread_ends: "order_thread = (fst order_thread, Ended (Inr COMPENSATED))"
proof -
  have "snd order_thread = Ended (Inr COMPENSATED)"
    by (simp add: order_thread_def order_events_def to_step_def to_except_def to_end_def conclude_def
        attempt_step_def backoff_def step_compensate_def add_log_def new_instance_def order_saga_def
        saga_scenario_defs Let_def upt_rec numeral_2_eq_2)
  then show ?thesis by (simp add: prod_eq_iff)
qed

lemma interleaved_execution_refines_witness:
  "\<exists>cancel t0 t1. saga_execute cancel t0 t1 (new_instance ''i'' order_saga [] 0) = (Inr COMPENSATED, fst order_thread)"
  by (rule interleaved_execution_refines [of order_events])
    (simp add: order_thread_def [symmetric] order_thread_ends [symmetric])

section \<open>Two sagas in one orchestrator\<close>

definition two_sagas_events :: "nat orch_event list" where
  "two_sagas_events = [Start ''a'' order_saga [], Run clock 0, Start ''b'' order_saga [], Run clock 1, CancelSaga ''a'']"

definition two_sagas :: "nat orchestrator" where
  "two_sagas = snd (cancel_saga ''a'' (resume clock 1 (snd (start_saga ''b'' order_saga []
     (resume clock 0 (snd (start_saga ''a'' order_saga [] (new_orchestrator 0))))))))"

lemma two_sagas_run: "orch_run (new_orchestrator 0) two_sagas_events two_sagas"
proof -
  have "set (map (\<lambda>th. instance_id (fst th)) (objects (resume clock 0
      (snd (start_saga ''a'' order_saga [] (new_orchestrator (0::nat))))))) = {''a''}"
    "length (objects (snd (start_saga ''a'' order_saga [] (new_orchestrator (0::nat))))) = 1"
    "length (objects (snd (start_saga ''b'' order_saga []
      (resume clock 0 (snd (start_saga ''a'' order_saga [] (new_orchestrator (0::nat)))))))) = 2"
    by code_simp+
  then show ?thesis unfolding two_sagas_events_def two_sagas_def
    by (intro orch_run.intros) (simp_all add: new_orchestrator_def)
qed

lemma registry_tracks_every_saga_witness:
  "get_instance ''a'' two_sagas = Some 0 \<and> get_instance ''b'' two_sagas = Some 1
   \<and> dict_get (completed_instances two_sagas) ''a'' = None \<and> fst (cancel_saga ''a'' two_sagas)"
proof -
  have vals: "length (objects two_sagas) = 2" "id_at two_sagas 0 = ''a''" "id_at two_sagas (Suc 0) = ''b''"
    "\<not> ended (objects two_sagas ! 0)" by code_simp+
  note laws = registry_tracks_every_saga [OF two_sagas_run]
  have "get_instance (id_at two_sagas 0) two_sagas = Some 0" "get_instance (id_at two_sagas 1) two_sagas = Some 1"
    "dict_get (running_instances two_sagas) (id_at two_sagas 0) = Some 0"
    using laws vals(1,4) by auto
  moreover have "dict_get (running_instances two_sagas) ''a'' = None \<or> dict_get (completed_instances two_sagas) ''a'' = None"
    "fst (cancel_saga ''a'' two_sagas) \<longleftrightarrow> dict_get (running_instances two_sagas) ''a'' \<noteq> None"
    using laws [THEN conjunct2, THEN spec, of "''a''"] by simp_all
  ultimately show ?thesis by (simp add: vals)
qed

lemma resume_length: "length (objects (resume now r orch)) = length (objects orch)"
  by (auto simp: resume_def Let_def split: prod.split)

lemma orch_run_resume:
  "r < length (objects orch) \<Longrightarrow> orch_run orch (replicate n (Run now r)) ((resume now r ^^ n) orch)"
proof (induction n arbitrary: orch)
  case (Suc n)
  then show ?case
    by (simp add: orch_run.run resume_length funpow_Suc_right del: funpow.simps)
qed (simp add: orch_run.stop)

lemma started_saga_completes_witness:
  "dict_get (completed_instances ((resume clock 0 ^^ 22) two_sagas)) ''a'' = Some 0
   \<and> dict_get (running_instances ((resume clock 0 ^^ 22) two_sagas)) ''a'' = None"
proof -
  have "0 < length (objects two_sagas)" "dict_get (running_instances two_sagas) ''a'' = Some 0"
    "tick_bound (definition_of (instance_at two_sagas 0)) = 22" by code_simp+
  then show ?thesis
    using started_saga_completes [OF two_sagas_run orch_run_resume, of 0 "''a''" 0 22 clock] by simp
qed

section \<open>An onboarding workflow\<close>

definition onboarded :: "unit orchestrator" where
  "onboarded = snd (start_workflow (\<lambda>_. ''u'') ''i'' ''task_onboarding'' [] (new_orchestrator ()))"

lemma onboarding_through_the_service_witness:
  "\<exists>d. get_workflow_status ''i'' ((resume clock 0 ^^ 20) onboarded) = Some d
     \<and> get_or d ''status'' JNull = JStr ''compensated''"
proof -
  have start: "start_workflow (\<lambda>_. ''u'') ''i'' ''task_onboarding'' [] (new_orchestrator ()) = (Inr 0, onboarded)"
    by (simp add: onboarded_def start_workflow_def build_workflow_def workflow_registry_def start_saga_def new_orchestrator_def)
  have "0 < length (objects onboarded)" by code_simp
  note run = orch_run_resume [OF this, of 20 clock]
  have "\<exists>d. get_workflow_status ''i'' ((resume clock 0 ^^ 20) onboarded) = Some d
      \<and> get_or d ''status'' JNull = JStr ''compensated'' \<and> get_or d ''completed_steps'' JNull = JInt 3
      \<and> get_or d ''total_steps'' JNull = JInt 4 \<and> get_or d ''error'' JNull = JStr (str_of_error no_publisher)
      \<and> cancel_workflow ''i'' ((resume clock 0 ^^ 20) onboarded) = (False, (resume clock 0 ^^ 20) onboarded)"
    by (rule onboarding_through_the_service [OF orch_run.stop _ start run]) (simp_all add: new_orchestrator_def)
  then show ?thesis by blast
qed

text \<open>Five of its awaits later it has paused for one second, after the first attempt to publish.\<close>

lemma onboarding_takes_seven_seconds_witness:
  "dict_get (running_instances ((resume clock 0 ^^ 5) onboarded)) ''i'' = Some 0
   \<and> fst (cancel_workflow ''i'' ((resume clock 0 ^^ 5) onboarded))"
proof -
  have start: "start_workflow (\<lambda>_. ''u'') ''i'' ''task_onboarding'' [] (new_orchestrator ()) = (Inr 0, onboarded)"
    by (simp add: onboarded_def start_workflow_def build_workflow_def workflow_registry_def start_saga_def new_orchestrator_def)
  have "0 < length (objects onboarded)" by code_simp
  note run = orch_run_resume [OF this, of 5 clock]
  have "slept (log (instance_at ((resume clock 0 ^^ 5) onboarded) 0)) = 1000000" by code_simp
  then have "dict_get (running_instances ((resume clock 0 ^^ 5) onboarded)) ''i'' = Some 0
      \<and> fst (cancel_workflow ''i'' ((resume clock 0 ^^ 5) onboarded))
      \<and> (\<forall>res inst. objects ((resume clock 0 ^^ 5) onboarded) ! 0 \<noteq> (inst, Ended res))"
    by (intro onboarding_takes_seven_seconds [OF orch_run.stop _ start run]) (simp_all add: new_orchestrator_def)
  then show ?thesis by blast
qed

section \<open>Requests\<close>


end
