(* ===== verification/Event_Bus.thy ===== *)
theory Event_Bus
  imports Events Py_Text
begin

text \<open>
  \<open>EventPublisher\<close> and \<open>EventSubscriber\<close>, \<open>libs/common/event_bus.py\<close>. The Kafka client is an argument:
  functions of its state \<open>'k\<close> for connecting, sending, committing and so on. A message is kept as the values
  that the code hands to the client; the client's serializers turn them into bytes. The \<open>@retry\<close> decorator
  of \<open>publish\<close> comes from the library tenacity and is not part of \<open>publish_event\<close>.
\<close>

section \<open>Publishing\<close>

record 'k event_publisher =
  has_producer :: bool
  published_count :: int
  publish_errors :: int
  last_publish_time :: "datetime option"
  kafka :: 'k

definition new_publisher :: "'k \<Rightarrow> 'k event_publisher" where
  "new_publisher k = \<lparr>has_producer = False, published_count = 0, publish_errors = 0, last_publish_time = None, kafka = k\<rparr>"

text \<open>The producer is stored before it is started.\<close>

definition start_publisher :: "('k \<Rightarrow> py_error option \<times> 'k) \<Rightarrow> 'k event_publisher
    \<Rightarrow> py_error option \<times> 'k event_publisher" where
  "start_publisher connect p = (if has_producer p then (None, p)
     else (case connect (kafka p) of (err, k) \<Rightarrow> (err, p\<lparr>has_producer := True, kafka := k\<rparr>)))"

definition stop_publisher :: "('k \<Rightarrow> py_error option \<times> 'k) \<Rightarrow> 'k event_publisher
    \<Rightarrow> py_error option \<times> 'k event_publisher" where
  "stop_publisher disconnect p = (if \<not> has_producer p then (None, p)
     else (case disconnect (kafka p) of
         (None, k) \<Rightarrow> (None, p\<lparr>has_producer := False, kafka := k\<rparr>)
       | (Some e, k) \<Rightarrow> (Some e, p\<lparr>kafka := k\<rparr>)))"

text \<open>Sending a message and waiting for its confirmation: a \<open>KafkaError\<close>, or an exception of another class.\<close>

datatype send_outcome = Confirmed | KafkaFailed py_error | OtherFailed py_error

record kafka_message =
  km_topic :: string
  km_value :: "(string \<times> json) list"
  km_key :: string
  km_headers :: "(string \<times> string) list"

text \<open>\<open>key_serializer\<close>: an empty key becomes no key.\<close>

definition serialize_key :: "string \<Rightarrow> string option" where
  "serialize_key k = (if k = '''' then None else Some k)"

text \<open>\<open>cid\<close> is the \<open>uuid4\<close> of the correlation id.\<close>

definition message_of :: "string \<Rightarrow> string \<Rightarrow> task_event \<Rightarrow> string option \<Rightarrow> (string \<times> string) list option \<Rightarrow> kafka_message" where
  "message_of cid topic e key headers = \<lparr>km_topic = topic, km_value = event_to_dict e,
     km_key = (if truthy key then the key else ev_aggregate_id e),
     km_headers = [(''event_type'', event_type e), (''event_version'', str_of_int (ev_version e)),
         (''correlation_id'', cid)]
       @ (case headers of None \<Rightarrow> [] | Some hs \<Rightarrow> hs)\<rparr>"

definition publish_event :: "(kafka_message \<Rightarrow> 'k \<Rightarrow> send_outcome \<times> 'k) \<Rightarrow> datetime \<Rightarrow> string \<Rightarrow> string \<Rightarrow> task_event
    \<Rightarrow> string option \<Rightarrow> (string \<times> string) list option \<Rightarrow> 'k event_publisher \<Rightarrow> bool result \<times> 'k event_publisher" where
  "publish_event send now cid topic e key headers p =
     (if \<not> has_producer p then (Inl (RuntimeError ''Publisher not started. Call start() first.''), p)
      else (case send (message_of cid topic e key headers) (kafka p) of
          (Confirmed, k) \<Rightarrow> (Inr True, p\<lparr>kafka := k, published_count := published_count p + 1, last_publish_time := Some now\<rparr>)
        | (KafkaFailed x, k) \<Rightarrow> (Inl x, p\<lparr>kafka := k, publish_errors := publish_errors p + 1\<rparr>)
        | (OtherFailed x, k) \<Rightarrow> (Inl x, p\<lparr>kafka := k\<rparr>)))"

definition publisher_metrics :: "'k event_publisher \<Rightarrow> int \<times> int \<times> datetime option" where
  "publisher_metrics p = (published_count p, publish_errors p, last_publish_time p)"

section \<open>Subscribing\<close>

record subscription =
  sub_topic :: string
  group_id :: string
  enable_auto_commit :: bool

record ('h, 'k) subscriber =
  has_consumer :: bool
  has_dlq :: bool
  is_running :: bool
  events_consumed :: int
  handler_errors :: int
  dlq_events :: int
  handled :: 'h
  broker :: 'k

definition new_subscriber :: "'h \<Rightarrow> 'k \<Rightarrow> ('h, 'k) subscriber" where
  "new_subscriber h k = \<lparr>has_consumer = False, has_dlq = False, is_running = False, events_consumed = 0,
     handler_errors = 0, dlq_events = 0, handled = h, broker = k\<rparr>"

text \<open>A call of the client whose exception goes on, and what follows it.\<close>

definition then_call :: "('k \<Rightarrow> py_error option \<times> 'k) \<Rightarrow> py_error option \<times> ('h, 'k) subscriber
    \<Rightarrow> py_error option \<times> ('h, 'k) subscriber" where
  "then_call f r = (case r of (Some e, s) \<Rightarrow> (Some e, s)
     | (None, s) \<Rightarrow> (case f (broker s) of (err, k) \<Rightarrow> (err, s\<lparr>broker := k\<rparr>)))"

definition start_subscriber :: "('k \<Rightarrow> py_error option \<times> 'k) \<Rightarrow> ('k \<Rightarrow> py_error option \<times> 'k)
    \<Rightarrow> ('h, 'k) subscriber \<Rightarrow> py_error option \<times> ('h, 'k) subscriber" where
  "start_subscriber start_consumer start_dlq s =
     (case then_call start_dlq (then_call start_consumer (None, s\<lparr>has_consumer := True, has_dlq := True\<rparr>)) of
        (Some e, s) \<Rightarrow> (Some e, s)
      | (None, s) \<Rightarrow> (None, s\<lparr>is_running := True\<rparr>))"

definition stop_subscriber :: "('k \<Rightarrow> py_error option \<times> 'k) \<Rightarrow> ('k \<Rightarrow> py_error option \<times> 'k)
    \<Rightarrow> ('h, 'k) subscriber \<Rightarrow> py_error option \<times> ('h, 'k) subscriber" where
  "stop_subscriber stop_consumer stop_dlq s =
     (let r = (None, s\<lparr>is_running := False\<rparr>);
          r = (if has_consumer s then then_call stop_consumer r else r)
      in if has_dlq s then then_call stop_dlq r else r)"

text \<open>
  What the loop gets: a message, at a time, or that \<open>stop\<close> has been called by then. The deserialized
  value is any JSON value; \<open>from_json\<close> is \<open>from_dict\<close> of the event class.
\<close>

record message =
  msg_value :: json
  msg_offset :: int

datatype sub_input = Incoming datetime message | StopCalled

definition send_to_dlq :: "subscription \<Rightarrow> (string \<Rightarrow> json \<Rightarrow> 'k \<Rightarrow> py_error option \<times> 'k) \<Rightarrow> datetime \<Rightarrow> json \<Rightarrow> string
    \<Rightarrow> ('h, 'k) subscriber \<Rightarrow> ('h, 'k) subscriber" where
  "send_to_dlq cfg send now v error s =
     (case send (sub_topic cfg @ ''.dlq'') (JObj [(''original_event'', v), (''error'', JStr error),
         (''failed_at'', JStr (isoformat now)), (''topic'', JStr (sub_topic cfg)),
         (''consumer_group'', JStr (group_id cfg))]) (broker s) of
        (None, k) \<Rightarrow> s\<lparr>broker := k, dlq_events := dlq_events s + 1\<rparr>
      | (Some e, k) \<Rightarrow> s\<lparr>broker := k\<rparr>)"

definition handler_error :: "subscription \<Rightarrow> (string \<Rightarrow> json \<Rightarrow> 'k \<Rightarrow> py_error option \<times> 'k) \<Rightarrow> datetime \<Rightarrow> message
    \<Rightarrow> py_error \<Rightarrow> ('h, 'k) subscriber \<Rightarrow> ('h, 'k) subscriber" where
  "handler_error cfg send now m e s =
     send_to_dlq cfg send now (msg_value m) (str_of_error e) (s\<lparr>handler_errors := handler_errors s + 1\<rparr>)"

definition handle_message :: "subscription \<Rightarrow> (json \<Rightarrow> 'e result) \<Rightarrow> ('e \<Rightarrow> 'h \<Rightarrow> py_error option \<times> 'h)
    \<Rightarrow> ('k \<Rightarrow> py_error option \<times> 'k) \<Rightarrow> (string \<Rightarrow> json \<Rightarrow> 'k \<Rightarrow> py_error option \<times> 'k) \<Rightarrow> datetime \<Rightarrow> message
    \<Rightarrow> ('h, 'k) subscriber \<Rightarrow> ('h, 'k) subscriber" where
  "handle_message cfg from_json handler commit send now m s = (case from_json (msg_value m) of
     Inl e \<Rightarrow> handler_error cfg send now m e s
   | Inr ev \<Rightarrow> (case handler ev (handled s) of
         (Some e, h) \<Rightarrow> handler_error cfg send now m e (s\<lparr>handled := h\<rparr>)
       | (None, h) \<Rightarrow> (let s = s\<lparr>handled := h, events_consumed := events_consumed s + 1\<rparr> in
           if enable_auto_commit cfg then s
           else (case commit (broker s) of
               (None, k) \<Rightarrow> s\<lparr>broker := k\<rparr>
             | (Some e, k) \<Rightarrow> handler_error cfg send now m e (s\<lparr>broker := k\<rparr>)))))"

fun consume_loop :: "subscription \<Rightarrow> (json \<Rightarrow> 'e result) \<Rightarrow> ('e \<Rightarrow> 'h \<Rightarrow> py_error option \<times> 'h)
    \<Rightarrow> ('k \<Rightarrow> py_error option \<times> 'k) \<Rightarrow> (string \<Rightarrow> json \<Rightarrow> 'k \<Rightarrow> py_error option \<times> 'k) \<Rightarrow> sub_input list
    \<Rightarrow> ('h, 'k) subscriber \<Rightarrow> ('h, 'k) subscriber" where
  "consume_loop cfg from_json handler commit send [] s = s"
| "consume_loop cfg from_json handler commit send (StopCalled # xs) s =
     consume_loop cfg from_json handler commit send xs (s\<lparr>is_running := False\<rparr>)"
| "consume_loop cfg from_json handler commit send (Incoming now m # xs) s = (if \<not> is_running s then s
     else consume_loop cfg from_json handler commit send xs (handle_message cfg from_json handler commit send now m s))"

definition consume :: "subscription \<Rightarrow> (json \<Rightarrow> 'e result) \<Rightarrow> ('e \<Rightarrow> 'h \<Rightarrow> py_error option \<times> 'h)
    \<Rightarrow> ('k \<Rightarrow> py_error option \<times> 'k) \<Rightarrow> (string \<Rightarrow> json \<Rightarrow> 'k \<Rightarrow> py_error option \<times> 'k) \<Rightarrow> sub_input list
    \<Rightarrow> ('h, 'k) subscriber \<Rightarrow> unit result \<times> ('h, 'k) subscriber" where
  "consume cfg from_json handler commit send xs s =
     (if \<not> has_consumer s then (Inl (RuntimeError ''Subscriber not started. Call start() first.''), s)
      else (Inr (), consume_loop cfg from_json handler commit send xs s))"

definition subscriber_metrics :: "('h, 'k) subscriber \<Rightarrow> (string \<times> json) list" where
  "subscriber_metrics s = [(''events_consumed'', JInt (events_consumed s)),
     (''handler_errors'', JInt (handler_errors s)), (''dlq_events'', JInt (dlq_events s))]"

end
