(* ===== verification/Event_Bus_Facts.thy ===== *)
theory Event_Bus_Facts
  imports Event_Bus Commit_Facts
begin

text \<open>
  What the event bus counts and handles, how often one event can be sent, and what a failed start leaves
  behind.
\<close>

section \<open>Consuming\<close>

text \<open>The messages that arrive before \<open>stop\<close> is called, and what the handler makes of them.\<close>

fun before_stop :: "sub_input list \<Rightarrow> message list" where
  "before_stop [] = []"
| "before_stop (StopCalled # xs) = []"
| "before_stop (Incoming now m # xs) = m # before_stop xs"

definition handle_one :: "(json \<Rightarrow> 'e result) \<Rightarrow> ('e \<Rightarrow> 'h \<Rightarrow> py_error option \<times> 'h) \<Rightarrow> 'h \<Rightarrow> message \<Rightarrow> 'h" where
  "handle_one from_json handler h m = (case from_json (msg_value m) of Inl _ \<Rightarrow> h | Inr ev \<Rightarrow> snd (handler ev h))"

lemma handler_error_spec:
  "events_consumed (handler_error cfg send now m e s) = events_consumed s
   \<and> handler_errors (handler_error cfg send now m e s) = handler_errors s + 1
   \<and> dlq_events s \<le> dlq_events (handler_error cfg send now m e s)
   \<and> dlq_events (handler_error cfg send now m e s) \<le> dlq_events s + 1
   \<and> handled (handler_error cfg send now m e s) = handled s
   \<and> is_running (handler_error cfg send now m e s) = is_running s"
  by (auto simp: handler_error_def send_to_dlq_def split: prod.split option.split)

text \<open>One message: \<open>c\<close> says whether its handler succeeded and its com failed.\<close>

lemma handle_message_spec:
  assumes "handle_message cfg from_json handler com send now m s = s'"
  shows "\<exists>c. (c = 0 \<or> c = 1 \<and> \<not> enable_auto_commit cfg)
    \<and> events_consumed s' + handler_errors s' = events_consumed s + handler_errors s + 1 + c
    \<and> events_consumed s \<le> events_consumed s' \<and> dlq_events s \<le> dlq_events s'
    \<and> dlq_events s' - dlq_events s \<le> handler_errors s' - handler_errors s
    \<and> handled s' = handle_one from_json handler (handled s) m \<and> is_running s' = is_running s"
proof (cases "from_json (msg_value m)")
  case (Inl e)
  then show ?thesis using handler_error_spec [of cfg send now m e s] assms
    by (intro exI [of _ 0]) (auto simp: handle_message_def handle_one_def Let_def)
next
  case (Inr ev)
  obtain x h where h: "handler ev (handled s) = (x, h)" by fastforce
  show ?thesis
  proof (cases x)
    case (Some e)
    then show ?thesis using handler_error_spec [of cfg send now m e "s\<lparr>handled := h\<rparr>"] assms Inr h
      by (intro exI [of _ 0]) (auto simp: handle_message_def handle_one_def Let_def)
  next
    case None
    let ?s = "s\<lparr>handled := h, events_consumed := events_consumed s + 1\<rparr>"
    obtain y k where k: "com (broker s) = (y, k)" by fastforce
    show ?thesis
    proof (cases "enable_auto_commit cfg \<or> y = None")
      case True
      then have "\<exists>k. s' = ?s\<lparr>broker := k\<rparr>"
        using assms Inr h None k
        by (cases "enable_auto_commit cfg") (auto simp: handle_message_def intro: exI [of _ "broker s"])
      then show ?thesis using Inr h None by (intro exI [of _ 0]) (auto simp: handle_one_def)
    next
      case False
      then obtain e where "y = Some e" by blast
      then show ?thesis using handler_error_spec [of cfg send now m e "?s\<lparr>broker := k\<rparr>"] assms Inr h None k False
        by (intro exI [of _ 1]) (auto simp: handle_message_def handle_one_def Let_def)
    qed
  qed
qed

lemma stopped_loop: "\<not> is_running s \<Longrightarrow>
  consume_loop cfg from_json handler com send xs s = s"
proof (induction xs arbitrary: s)
  case (Cons x xs)
  then have "s\<lparr>is_running := False\<rparr> = s" by (cases s) simp
  then show ?case using Cons by (cases x) auto
qed simp


section \<open>Publishing\<close>

text \<open>
  The decorator \<open>@retry(stop=stop_after_attempt(n), ...)\<close> as tenacity documents it: the decorated function
  is called until it returns, at most \<open>n\<close> times, and if no call returns an exception is raised (tenacity
  wraps it in one of its own). \<open>calls_until\<close> makes these calls.
\<close>

fun calls_until :: "nat \<Rightarrow> ('s \<Rightarrow> 'a result \<times> 's) \<Rightarrow> 's \<Rightarrow> 'a result \<times> 's" where
  "calls_until 0 f s = (Inl (OtherError ''RetryError''), s)"
| "calls_until (Suc n) f s = (case f s of (Inr v, s) \<Rightarrow> (Inr v, s) | (Inl _, s) \<Rightarrow> calls_until n f s)"

definition stops_after :: "nat \<Rightarrow> ('s \<Rightarrow> 'a result \<times> 's) \<Rightarrow> ('s \<Rightarrow> 'a result \<times> 's) \<Rightarrow> bool" where
  "stops_after n f g = (\<forall>s. snd (g s) = snd (calls_until n f s)
     \<and> (\<forall>v. fst (calls_until n f s) = Inr v \<longrightarrow> fst (g s) = Inr v)
     \<and> (\<forall>e. fst (calls_until n f s) = Inl e \<longrightarrow> (\<exists>e'. fst (g s) = Inl e')))"

definition counts_sends :: "(kafka_message \<Rightarrow> 'k \<Rightarrow> send_outcome \<times> 'k) \<Rightarrow> ('k \<Rightarrow> nat) \<Rightarrow> bool" where
  "counts_sends send sends = (\<forall>m k. sends (snd (send m k)) = sends k + 1)"

lemma publish_event_sends:
  assumes "counts_sends send sends" "publish_event send now cid topic e key headers p = (res, p')"
  shows "has_producer p' = has_producer p
    \<and> sends (kafka p') = sends (kafka p) + (if has_producer p then 1 else 0)"
  using assms by (cases "send (message_of cid topic e key headers) (kafka p)")
    (auto simp: publish_event_def counts_sends_def split: if_splits send_outcome.splits, (metis snd_conv)+)

lemma calls_until_sends:
  assumes "counts_sends send sends"
    and "calls_until n (publish_event send now cid topic e key headers) p = (res, p')"
  shows "has_producer p' = has_producer p \<and> sends (kafka p') \<le> sends (kafka p) + (if has_producer p then n else 0)
    \<and> (\<forall>x. res = Inl x \<longrightarrow> sends (kafka p') = sends (kafka p) + (if has_producer p then n else 0))"
  using assms(2)
proof (induction n arbitrary: p)
  case (Suc n)
  obtain r p1 where p1: "publish_event send now cid topic e key headers p = (r, p1)" by fastforce
  note s = publish_event_sends [OF assms(1) p1]
  show ?case
  proof (cases r)
    case (Inl x)
    then show ?thesis using Suc.IH [of p1] Suc.prems p1 s by (auto split: if_splits)
  next
    case (Inr v)
    then show ?thesis using Suc.prems p1 s by auto
  qed
qed simp

lemma publish_loop_sends:
  assumes "counts_sends send sends" "stops_after n (publish_event send now cid topic e key headers) publish"
    and "publish_attempts publish k is r = (res, r')" "\<forall>i \<in> set is. i < k"
  shows "has_producer (publisher r') = has_producer (publisher r)
    \<and> sends (kafka (publisher r')) \<le> sends (kafka (publisher r)) + (if has_producer (publisher r) then n * length is else 0)
    \<and> (\<forall>x. res = Inl x \<longrightarrow> is = [i..<k] \<longrightarrow> sends (kafka (publisher r'))
        = sends (kafka (publisher r)) + (if has_producer (publisher r) then n * length is else 0))"
  using assms(3,4)
proof (induction "is" arbitrary: i r)
  case (Cons j js)
  obtain v p where c: "calls_until n (publish_event send now cid topic e key headers) (publisher r) = (v, p)" by fastforce
  note s = calls_until_sends [OF assms(1) c]
  obtain w where g: "publish (publisher r) = (w, p)" "\<forall>x. v = Inr x \<longrightarrow> w = Inr x" "\<forall>x. v = Inl x \<longrightarrow> (\<exists>y. w = Inl y)"
    using assms(2) c unfolding stops_after_def by (metis fst_conv prod.collapse snd_conv)
  let ?r = "r\<lparr>publisher := p, calls := calls r + 1\<rparr>"
  show ?case
  proof (cases w)
    case (Inr x)
    then have "res = Inr () \<and> r' = ?r" using Cons.prems(1) g(1) by (simp add: publish_attempt_def)
    then show ?thesis using s by auto
  next
    case (Inl x)
    then obtain y where v: "v = Inl y" using g(2,3) by (cases v) auto
    show ?thesis
    proof (cases "Suc j = k")
      case True
      then have "res = Inl x \<and> r' = ?r" using Cons.prems(1) g(1) Inl by (simp add: publish_attempt_def)
      moreover have "j # js = [i..<k] \<Longrightarrow> length (j # js) = 1" using True by (cases "i < k") (auto simp: upt_conv_Cons)
      ultimately show ?thesis using s v by (auto simp del: length_Cons)
    next
      case False
      let ?q = "publish_pause j ?r"
      have "publish_attempts publish k js ?q = (res, r')"
        using Cons.prems(1) g(1) Inl False by (simp add: publish_attempt_def)
      moreover have "publisher ?q = p" by (simp add: publish_pause_def)
      moreover have "j # js = [i..<k] \<Longrightarrow> js = [Suc i..<k] \<and> k - i = Suc (k - Suc i)"
        by (cases "i < k") (auto simp: upt_conv_Cons)
      ultimately show ?thesis using Cons.IH [of ?q "Suc i"] Cons.prems(2) s v by (auto split: if_splits)
    qed
  qed
qed auto

text \<open>C35: How often one event can be sent to Kafka. The retries of the unit of work and those of the decorator
  multiply: with tenacity as documented, a publication makes at most nine sends, and if it raises and the
  publisher was started it has made exactly nine.\<close>

theorem publication_sends_at_most_nine:
  assumes "stops_after 3 (publish_event send now cid topic e key headers) publish" and "counts_sends send sends"
    and "publish_with_retry publish 3 r = (res, r')"
  shows "sends (kafka (publisher r')) \<le> sends (kafka (publisher r)) + 9
    \<and> (\<forall>x. res = Inl x \<longrightarrow> has_producer (publisher r) \<longrightarrow> sends (kafka (publisher r')) = sends (kafka (publisher r)) + 9)"
  using publish_loop_sends [OF assms(2,1), of 3 "[0..<3]" r res r' 0] assms(3)
  by (auto simp: publish_with_retry_def split: if_splits)

text \<open>What a failed start of the publisher leaves behind: if connecting raises, the publisher counts as
  started all the same; starting it again does nothing and returns, and publishing an event hands it to
  the producer that never started instead of raising \<open>RuntimeError\<close>.\<close>

theorem failed_start_counts_as_started:
  assumes "\<not> has_producer p" and "connect (kafka p) = (Some x, k)"
  shows "\<exists>q. start_publisher connect p = (Some x, q) \<and> kafka q = k \<and> start_publisher connect' q = (None, q)
    \<and> fst (publish_event send now cid topic e key headers q) = (case fst (send (message_of cid topic e key headers) k) of
        Confirmed \<Rightarrow> Inr True | KafkaFailed y \<Rightarrow> Inl y | OtherFailed y \<Rightarrow> Inl y)"
  using assms by (auto simp: start_publisher_def publish_event_def split: prod.split send_outcome.split)

end
