(* ===== verification/Event_Typing.thy ===== *)
theory Event_Typing
  imports Events
begin

text \<open>
  The wire format of the task events as types of JSON values: what \<open>to_dict\<close> writes has the type of its
  class, and whatever has that type, from this service or from another producer, \<open>from_dict\<close> can read.
\<close>

section \<open>Types\<close>

datatype json_type =
    Text
  | OptText
  | Number
  | Texts
  | Timestamp
  | AnyObject
  | Fields "(string \<times> json_type) list"

text \<open>The listed fields of an object may be missing; other fields may be there.\<close>

fun has_type :: "json_type \<Rightarrow> json \<Rightarrow> bool" where
  "has_type Text v = (case v of JStr _ \<Rightarrow> True | _ \<Rightarrow> False)"
| "has_type OptText v = (case v of JStr _ \<Rightarrow> True | JNull \<Rightarrow> True | _ \<Rightarrow> False)"
| "has_type Number v = (case v of JInt _ \<Rightarrow> True | _ \<Rightarrow> False)"
| "has_type Texts v = (case v of JArr xs \<Rightarrow> list_all (\<lambda>x. case x of JStr _ \<Rightarrow> True | _ \<Rightarrow> False) xs | _ \<Rightarrow> False)"
| "has_type Timestamp v = (case v of JStr s \<Rightarrow> \<not> isl (fromisoformat s) | _ \<Rightarrow> False)"
| "has_type AnyObject v = (case v of JObj _ \<Rightarrow> True | _ \<Rightarrow> False)"
| "has_type (Fields fs) v = (case v of
     JObj d \<Rightarrow> list_all (\<lambda>(k, t). case dict_get d k of None \<Rightarrow> True | Some x \<Rightarrow> has_type t x) fs
   | _ \<Rightarrow> False)"

fun payload_fields :: "event_class \<Rightarrow> (string \<times> json_type) list" where
  "payload_fields CreatedClass = [(''title'', Text), (''description'', Text), (''priority'', Text),
     (''assignee_id'', OptText), (''created_by'', Text), (''labels'', Texts), (''due_date'', OptText)]"
| "payload_fields UpdatedClass = [(''field_changes'', AnyObject), (''updated_by'', Text)]"
| "payload_fields AssignedClass = [(''previous_assignee_id'', OptText), (''new_assignee_id'', Text), (''assigned_by'', Text)]"
| "payload_fields StatusChangedClass = [(''previous_status'', Text), (''new_status'', Text), (''changed_by'', Text),
     (''reason'', OptText)]"
| "payload_fields PriorityChangedClass = [(''previous_priority'', Text), (''new_priority'', Text), (''changed_by'', Text)]"
| "payload_fields DeletedClass = [(''deleted_by'', Text), (''reason'', OptText)]"

definition wire_type :: "event_class \<Rightarrow> json_type" where
  "wire_type cls = Fields [(''event_id'', Text), (''aggregate_id'', Text), (''version'', Number),
     (''occurred_at'', Timestamp), (''data'', Fields (payload_fields cls))]"

section \<open>Reading a field\<close>

definition field_ok :: "(string \<times> json) list \<Rightarrow> string \<Rightarrow> json_type \<Rightarrow> bool" where
  "field_ok d k t = (case dict_get d k of None \<Rightarrow> True | Some x \<Rightarrow> has_type t x)"

lemma read_field:
  "field_ok d k Text \<Longrightarrow> \<exists>s. str_field d k x = Inr s"
  "field_ok d k OptText \<Longrightarrow> \<exists>s. opt_field d k = Inr s"
  "field_ok d k Number \<Longrightarrow> \<exists>i. as_int (get_or d k (JInt n)) = Inr i"
  "field_ok d k AnyObject \<Longrightarrow> \<exists>ob. as_obj (get_or d k (JObj ob')) = Inr ob"
  by (auto simp: field_ok_def str_field_def opt_field_def get_or_def split: option.splits json.splits)

lemma read_texts:
  assumes "field_ok d k Texts" shows "\<exists>ls. as_str_list (get_or d k (JArr [])) = Inr ls"
proof -
  have "list_all (\<lambda>x. case x of JStr _ \<Rightarrow> True | _ \<Rightarrow> False) xs \<Longrightarrow> \<exists>ls. traverse_r as_str xs = Inr ls" for xs
    by (induction xs) (auto split: json.splits)
  then show ?thesis
    using assms by (auto simp: field_ok_def get_or_def split: option.splits json.splits)
qed

lemma read_timestamp:
  "field_ok d k Timestamp \<Longrightarrow> valid_datetime now \<Longrightarrow> \<exists>t. bind_r (str_field d k (isoformat now)) fromisoformat = Inr t"
  by (auto simp: field_ok_def str_field_def get_or_def isl_def split: option.splits json.splits) (metis sum.exhaust)

lemma read_payload:
  assumes "has_type (Fields (payload_fields cls)) (JObj d)"
  shows "\<exists>p. payload_from_dict cls d = Inr p \<and> class_of p = cls"
proof -
  have ok: "(k, t) \<in> set (payload_fields cls) \<Longrightarrow> field_ok d k t" for k t
    using assms by (auto simp: field_ok_def list_all_iff)
  have plain: "(k, Text) \<in> set (payload_fields cls) \<Longrightarrow> \<exists>s. str_field d k x = Inr s"
    and opt: "(k, OptText) \<in> set (payload_fields cls) \<Longrightarrow> \<exists>s. opt_field d k = Inr s" for k x
    using ok read_field by blast+
  show ?thesis
  proof (cases cls)
    case CreatedClass
    have "\<exists>ls. as_str_list (get_or d ''labels'' (JArr [])) = Inr ls"
      by (rule read_texts) (rule ok, simp add: CreatedClass)
    then show ?thesis
      using CreatedClass plain [of "''title''" "[]"] plain [of "''description''" "[]"] plain [of "''priority''" "''medium''"]
        plain [of "''created_by''" "[]"] opt [of "''assignee_id''"] opt [of "''due_date''"] by auto
  next
    case UpdatedClass
    have "\<exists>ob. as_obj (get_or d ''field_changes'' (JObj [])) = Inr ob"
      by (rule read_field(4)) (rule ok, simp add: UpdatedClass)
    then show ?thesis using UpdatedClass plain [of "''updated_by''" "[]"] by auto
  next
    case AssignedClass
    then show ?thesis using opt [of "''previous_assignee_id''"] plain [of "''new_assignee_id''" "[]"]
        plain [of "''assigned_by''" "[]"] by auto
  next
    case StatusChangedClass
    then show ?thesis using plain [of "''previous_status''" "[]"] plain [of "''new_status''" "[]"]
        plain [of "''changed_by''" "[]"] opt [of "''reason''"] by auto
  next
    case PriorityChangedClass
    then show ?thesis using plain [of "''previous_priority''" "[]"] plain [of "''new_priority''" "[]"]
        plain [of "''changed_by''" "[]"] by auto
  next
    case DeletedClass
    then show ?thesis using plain [of "''deleted_by''" "[]"] opt [of "''reason''"] by auto
  qed
qed

section \<open>Type soundness\<close>

lemma well_typed_reads:
  assumes "valid_datetime now" "has_type (wire_type cls) (JObj d)"
  shows "\<exists>e. from_dict cls now d = Inr e \<and> typed_event e \<and> class_of (payload e) = cls"
proof -
  have ok: "field_ok d ''event_id'' Text" "field_ok d ''aggregate_id'' Text" "field_ok d ''version'' Number"
    "field_ok d ''occurred_at'' Timestamp" "field_ok d ''data'' (Fields (payload_fields cls))"
    using assms(2) by (auto simp: wire_type_def field_ok_def)
  have "has_type (Fields (payload_fields cls)) (JObj [])" by (cases cls) simp_all
  with ok(5) obtain ed where ed: "as_obj (get_or d ''data'' (JObj [])) = Inr ed"
    "has_type (Fields (payload_fields cls)) (JObj ed)"
    by (auto simp: field_ok_def get_or_def simp del: payload_fields.simps split: option.splits json.splits)
  obtain p where p: "payload_from_dict cls ed = Inr p" "class_of p = cls" using read_payload [OF ed(2)] by blast
  obtain t where t: "occurred_from_dict cls now d = Inr t"
    using read_timestamp [OF ok(4) assms(1)] by (cases "cls = CreatedClass") (auto simp: occurred_from_dict_def)
  obtain a b v where "str_field d ''event_id'' [] = Inr a" "str_field d ''aggregate_id'' [] = Inr b"
    "as_int (get_or d ''version'' (JInt 0)) = Inr v"
    using read_field(1) [OF ok(1)] read_field(1) [OF ok(2)] read_field(3) [OF ok(3)] by blast
  then show ?thesis using ed p t by (simp add: from_dict_def typed_event_def)
qed

lemma to_dict_well_typed:
  assumes "valid_datetime (occurred_at e)"
  shows "has_type (wire_type (class_of (payload e))) (JObj (event_to_dict e))"
proof -
  have opt: "has_type OptText (json_of_opt x)" for x by (cases x) auto
  have "has_type (Fields (payload_fields (class_of p))) (JObj (serialize_data p))" for p
    by (cases p) (auto simp: list_all_iff opt [unfolded has_type.simps])
  moreover have "\<not> isl (fromisoformat (isoformat (occurred_at e)))"
    using assms by simp
  ultimately show ?thesis by (simp add: wire_type_def event_to_dict_def)
qed


end
