(* ===== verification/Lifecycle.thy ===== *)
theory Lifecycle
  imports Workflow_Service
begin

text \<open>
  Starting and stopping the two services: \<open>TaskGrpcServer\<close> of \<open>grpc_server.py\<close>, \<open>TaskServiceApp\<close> of
  \<open>task_service/main.py\<close> and \<open>WorkflowServiceApp\<close> of \<open>workflow_service/main.py\<close>. What they start and stop
  (the database engine, the Kafka producer, the gRPC server, the telemetry) belongs to other libraries: a
  call of it is an element of \<open>call\<close>, its outcome a function of the outside world, and the calls made are
  kept in a trace. A signal starts \<open>shutdown\<close> in a task of its own; that task can be cancelled at any of its
  awaits, which is one of the outcomes of a call. Here it runs as a whole while the server waits; \<open>Shutdown_Race\<close> and
  \<open>Workflow_Shutdown\<close> interleave it with the other tasks.
\<close>

section \<open>Calls\<close>

datatype call = InitTelemetry | CreateEngine | CreateSchema | StartPublisher | OpenSession | StartServer
  | WaitForTermination | StopServer | StopPublisher | DisposeEngine | ShutdownTelemetry | Sleep int

datatype exn = Error py_error | CancelledError

record 'w app =
  is_up :: bool
  has_engine :: bool
  has_publisher :: bool
  has_server :: bool
  trace :: "call list"
  env :: 'w

definition new_app :: "'w \<Rightarrow> 'w app" where
  "new_app w = \<lparr>is_up = False, has_engine = False, has_publisher = False, has_server = False, trace = [], env = w\<rparr>"

type_synonym 'w effects = "call \<Rightarrow> 'w \<Rightarrow> exn option \<times> 'w"

definition make_call :: "'w effects \<Rightarrow> call \<Rightarrow> 'w app \<Rightarrow> exn option \<times> 'w app" where
  "make_call ext c s = (case ext c (env s) of (err, w) \<Rightarrow> (err, s\<lparr>env := w, trace := trace s @ [c]\<rparr>))"

definition and_then :: "exn option \<times> 'w app \<Rightarrow> ('w app \<Rightarrow> exn option \<times> 'w app) \<Rightarrow> exn option \<times> 'w app" where
  "and_then r f = (case r of (Some e, s) \<Rightarrow> (Some e, s) | (None, s) \<Rightarrow> f s)"

section \<open>The gRPC server\<close>

text \<open>\<open>has_server\<close> is \<open>self._server is not None\<close>, set before the server is started and never cleared.\<close>

definition start_server :: "'w effects \<Rightarrow> 'w app \<Rightarrow> exn option \<times> 'w app" where
  "start_server ext s = make_call ext StartServer (s\<lparr>has_server := True\<rparr>)"

definition stop_server :: "'w effects \<Rightarrow> 'w app \<Rightarrow> exn option \<times> 'w app" where
  "stop_server ext s = (if has_server s then make_call ext StopServer s else (None, s))"

text \<open>\<open>during\<close> is what another task does while this one waits.\<close>

definition serve_forever :: "'w effects \<Rightarrow> ('w app \<Rightarrow> 'w app) \<Rightarrow> 'w app \<Rightarrow> exn option \<times> 'w app" where
  "serve_forever ext during s = and_then (start_server ext s) (\<lambda>s.
     (case make_call ext WaitForTermination (during s) of
        (Some CancelledError, s) \<Rightarrow> stop_server ext s
      | (err, s) \<Rightarrow> (err, s)))"

section \<open>The task service\<close>

definition initialize :: "'w effects \<Rightarrow> 'w app \<Rightarrow> exn option \<times> 'w app" where
  "initialize ext s =
     and_then (make_call ext InitTelemetry s) (\<lambda>s.
     and_then (make_call ext CreateEngine s) (\<lambda>s.
     and_then (make_call ext CreateSchema (s\<lparr>has_engine := True\<rparr>)) (\<lambda>s.
     and_then (make_call ext StartPublisher (s\<lparr>has_publisher := True\<rparr>)) (\<lambda>s.
       make_call ext OpenSession s))))"

definition shutdown :: "'w effects \<Rightarrow> 'w app \<Rightarrow> exn option \<times> 'w app" where
  "shutdown ext s = (if \<not> is_up s then (None, s)
     else and_then (stop_server ext (s\<lparr>is_up := False\<rparr>)) (\<lambda>s.
       and_then (if has_publisher s then make_call ext StopPublisher s else (None, s)) (\<lambda>s.
       and_then (if has_engine s then make_call ext DisposeEngine s else (None, s)) (\<lambda>s.
         make_call ext ShutdownTelemetry s))))"

text \<open>
  \<open>start\<close>; \<open>signalled\<close> says whether a signal arrives while the server runs. The exception of the \<open>try\<close> goes on
  after the \<open>finally\<close> clause, unless that raises one of its own.
\<close>

definition start_service :: "'w effects \<Rightarrow> bool \<Rightarrow> 'w app \<Rightarrow> exn option \<times> 'w app" where
  "start_service ext signalled s = and_then (initialize ext s) (\<lambda>s.
     (case serve_forever ext (\<lambda>s. if signalled then snd (shutdown ext s) else s) (s\<lparr>is_up := True\<rparr>) of
        (err, s) \<Rightarrow> and_then (shutdown ext s)
          (\<lambda>s. ((if err = Some CancelledError then None else err), s))))"

section \<open>The workflow service\<close>

definition initialize_workflows :: "'w effects \<Rightarrow> 'w app \<Rightarrow> exn option \<times> 'w app" where
  "initialize_workflows ext s = make_call ext InitTelemetry s"

text \<open>Sagas that are active get five seconds; they are neither awaited nor cancelled.\<close>

definition shutdown_workflows :: "'w effects \<Rightarrow> 'o orchestrator \<Rightarrow> 'w app \<Rightarrow> exn option \<times> 'w app" where
  "shutdown_workflows ext orch s = (if \<not> is_up s then (None, s)
     else and_then (if get_active_sagas orch \<noteq> [] then make_call ext (Sleep 5) (s\<lparr>is_up := False\<rparr>)
         else (None, s\<lparr>is_up := False\<rparr>)) (\<lambda>s.
       make_call ext ShutdownTelemetry s))"

text \<open>
  The loop \<open>while self._running: await asyncio.sleep(1)\<close>. The list says for each pass what the orchestrator
  is when a signal arrives in it, if one does; a list that is used up stands for a loop that goes on.
\<close>

fun serve_workflows :: "'w effects \<Rightarrow> 'o orchestrator option list \<Rightarrow> 'w app \<Rightarrow> (exn option \<times> 'w app) option" where
  "serve_workflows ext xs s = (if \<not> is_up s then Some (None, s) else (case xs of
       [] \<Rightarrow> None
     | x # xs \<Rightarrow> (case make_call ext (Sleep 1) (case x of None \<Rightarrow> s | Some orch \<Rightarrow> snd (shutdown_workflows ext orch s)) of
           (None, s) \<Rightarrow> serve_workflows ext xs s
         | (Some CancelledError, s) \<Rightarrow> Some (None, s)
         | (Some e, s) \<Rightarrow> Some (Some e, s))))"

definition start_workflow_service :: "'w effects \<Rightarrow> 'o orchestrator option list \<Rightarrow> 'o orchestrator \<Rightarrow> 'w app
    \<Rightarrow> (exn option \<times> 'w app) option" where
  "start_workflow_service ext xs orch s = (case initialize_workflows ext s of
     (Some e, s) \<Rightarrow> Some (Some e, s)
   | (None, s) \<Rightarrow> (case serve_workflows ext xs (s\<lparr>is_up := True\<rparr>) of
       None \<Rightarrow> None
     | Some (err, s) \<Rightarrow> Some (and_then (shutdown_workflows ext orch s) (\<lambda>s. (err, s)))))"

end
