(* ===== verification/Lifecycle_Facts.thy ===== *)
theory Lifecycle_Facts
  imports Lifecycle
begin

text \<open>What a service has released when it ends, and that the loop of the workflow service ends.\<close>

definition releases :: "call list \<Rightarrow> call list" where
  "releases cs = filter (\<lambda>c. c \<in> {StopPublisher, DisposeEngine, ShutdownTelemetry}) cs"

text \<open>Stopping works: no stopping call raises or is cancelled.\<close>

definition stops :: "'w effects \<Rightarrow> bool" where
  "stops ext = (\<forall>c \<in> {StopServer, StopPublisher, DisposeEngine, ShutdownTelemetry}. \<forall>w. fst (ext c w) = None)"

lemma make_call_spec:
  "trace (snd (make_call ext c s)) = trace s @ [c]" "is_up (snd (make_call ext c s)) = is_up s"
  "has_engine (snd (make_call ext c s)) = has_engine s" "has_publisher (snd (make_call ext c s)) = has_publisher s"
  "has_server (snd (make_call ext c s)) = has_server s"
  by (auto simp: make_call_def split: prod.split)

lemma make_call_stops:
  "stops ext \<Longrightarrow> c \<in> {StopServer, StopPublisher, DisposeEngine, ShutdownTelemetry} \<Longrightarrow> fst (make_call ext c s) = None"
  unfolding stops_def make_call_def by (auto split: prod.split) (metis fst_conv)+

lemma releases_append: "releases (xs @ ys) = releases xs @ releases ys"
  by (simp add: releases_def)

lemma and_then_fst: "fst r = None \<Longrightarrow> and_then r f = f (snd r)"
  by (cases r) (simp add: and_then_def)

lemma releases_simps [simp]:
  "releases [] = []"
  "releases (c # cs) = (if c \<in> {StopPublisher, DisposeEngine, ShutdownTelemetry} then c # releases cs else releases cs)"
  by (simp_all add: releases_def)

text \<open>
  The state of an initialized service at any time: the three resources have been released if it is down,
  and none of them while it is up.
\<close>

definition settled :: "'w app \<Rightarrow> bool" where
  "settled s = (has_engine s \<and> has_publisher s
     \<and> releases (trace s) = (if is_up s then [] else [StopPublisher, DisposeEngine, ShutdownTelemetry]))"

lemma make_call_settled:
  "settled s \<Longrightarrow> c \<notin> {StopPublisher, DisposeEngine, ShutdownTelemetry} \<Longrightarrow> settled (snd (make_call ext c s))"
  by (auto simp: settled_def make_call_spec releases_append)

lemma stop_server_settled: "settled s \<Longrightarrow> settled (snd (stop_server ext s))"
  by (simp add: stop_server_def make_call_settled)

lemma start_server_settled: "settled s \<Longrightarrow> settled (snd (start_server ext s))"
  unfolding start_server_def by (rule make_call_settled) (simp_all add: settled_def)

lemma shutdown_settled:
  assumes "stops ext" "settled s"
  shows "fst (shutdown ext s) = None \<and> \<not> is_up (snd (shutdown ext s)) \<and> settled (snd (shutdown ext s))"
proof (cases "is_up s")
  case True
  let ?s = "s\<lparr>is_up := False\<rparr>"
  let ?a = "snd (stop_server ext ?s)"
  have a: "fst (stop_server ext ?s) = None" "\<not> is_up ?a" "has_engine ?a" "has_publisher ?a" "releases (trace ?a) = []"
    using assms True make_call_stops [OF assms(1), of StopServer ?s]
    by (simp_all add: stop_server_def make_call_spec releases_append settled_def)
  have "shutdown ext s = make_call ext ShutdownTelemetry (snd (make_call ext DisposeEngine (snd (make_call ext StopPublisher ?a))))"
    using a True make_call_stops [OF assms(1)] by (simp add: shutdown_def and_then_fst make_call_spec)
  then show ?thesis using a make_call_stops [OF assms(1)] by (simp add: make_call_spec releases_append settled_def)
next
  case False
  then show ?thesis using assms by (simp add: shutdown_def)
qed

lemma serve_forever_settled:
  assumes "settled s" "\<And>s. settled s \<Longrightarrow> settled (during s)"
  shows "settled (snd (serve_forever ext during s))"
proof -
  let ?a = "snd (start_server ext s)"
  let ?w = "make_call ext WaitForTermination (during ?a)"
  have a: "settled ?a" using assms by (simp add: start_server_settled)
  then have w: "settled (snd ?w)" using assms by (simp add: make_call_settled)
  show ?thesis using a w stop_server_settled [OF w, of ext]
    by (auto simp: serve_forever_def and_then_def split: prod.split option.split exn.split)
qed

lemma and_then_keeps:
  "P (snd r) \<Longrightarrow> (\<And>s. P s \<Longrightarrow> P (snd (f s))) \<Longrightarrow> P (snd (and_then r f))"
  by (auto simp: and_then_def split: prod.split option.split)

lemma and_then_None: "fst (and_then r f) = None \<longleftrightarrow> fst r = None \<and> fst (f (snd r)) = None"
  by (auto simp: and_then_def split: prod.split option.split)

lemma initialize_keeps:
  "is_up (snd (initialize ext s)) = is_up s \<and> releases (trace (snd (initialize ext s))) = releases (trace s)"
  unfolding initialize_def
  by (intro and_then_keeps [where P = "\<lambda>s'. is_up s' = is_up s \<and> releases (trace s') = releases (trace s)"])
    (simp_all add: make_call_spec releases_append)

lemma initialize_ok:
  assumes "fst (initialize ext s) = None"
  shows "has_engine (snd (initialize ext s)) \<and> has_publisher (snd (initialize ext s))"
  using assms by (simp add: initialize_def and_then_None and_then_fst make_call_spec)

text \<open>What a task service releases. If its initialization succeeds and the stopping calls work, then however
  it ends (a signal, the end of the server, an exception of the server, a cancellation) the publisher, the
  database engine and the telemetry are stopped once each, in this order, and the service is down. If its
  initialization raises, at whatever call, nothing of what has been started is released.\<close>

theorem service_releases_once:
  assumes "stops ext" and "start_service ext signalled (new_app w) = (err, s)"
  shows "if fst (initialize ext (new_app w)) = None
    then \<not> is_up s \<and> releases (trace s) = [StopPublisher, DisposeEngine, ShutdownTelemetry]
    else err = fst (initialize ext (new_app w)) \<and> releases (trace s) = []"
proof (cases "initialize ext (new_app w)")
  case (Pair x s1)
  show ?thesis
  proof (cases x)
    case (Some e)
    then have "err = Some e" "s = s1" using assms(2) Pair by (auto simp: start_service_def and_then_def)
    then show ?thesis using initialize_keeps [of ext "new_app w"] Pair Some
      by (simp add: new_app_def)
  next
    case None
    have i: "has_engine s1" "has_publisher s1" "releases (trace s1) = []"
      using initialize_ok [of ext "new_app w"] initialize_keeps [of ext "new_app w"] Pair None by (simp_all add: new_app_def)
    let ?during = "\<lambda>s. if signalled then snd (shutdown ext s) else s"
    let ?r = "serve_forever ext ?during (s1\<lparr>is_up := True\<rparr>)"
    have "settled (s1\<lparr>is_up := True\<rparr>)" using i by (simp add: settled_def)
    then have "settled (snd ?r)"
      by (rule serve_forever_settled) (simp add: shutdown_settled [OF assms(1)])
    note down = shutdown_settled [OF assms(1) this]
    have "start_service ext signalled (new_app w) = and_then (shutdown ext (snd ?r))
        (\<lambda>s. ((if fst ?r = Some CancelledError then None else fst ?r), s))"
      by (simp add: start_service_def Pair None and_then_def case_prod_beta)
    then have "s = snd (shutdown ext (snd ?r))" using assms(2) down by (simp add: and_then_fst)
    then show ?thesis using down Pair None by (simp add: settled_def)
  qed
qed

text \<open>
  A \<open>shutdown\<close> that a signal has started is not resumed when it is cut off: \<open>start\<close> finds the service down,
  returns, and leaves what was not released by then. This does happen: the end of the server lets \<open>start\<close>
  return while the other task still waits for the publisher to stop, and \<open>asyncio.run\<close> cancels that task.
\<close>

lemma stop_server_spec:
  "is_up (snd (stop_server ext s)) = is_up s"
  "releases (trace (snd (stop_server ext s))) = releases (trace s)"
  by (simp_all add: stop_server_def make_call_spec releases_append)

lemma shutdown_down: "\<not> is_up (snd (shutdown ext s))"
proof (cases "is_up s")
  case True
  have "\<not> is_up (snd (and_then (stop_server ext (s\<lparr>is_up := False\<rparr>)) (\<lambda>s.
       and_then (if has_publisher s then make_call ext StopPublisher s else (None, s)) (\<lambda>s.
       and_then (if has_engine s then make_call ext DisposeEngine s else (None, s)) (\<lambda>s.
         make_call ext ShutdownTelemetry s)))))"
    by (intro and_then_keeps [where P = "\<lambda>s. \<not> is_up s"])
      (simp_all add: stop_server_spec make_call_spec)
  then show ?thesis using True by (simp add: shutdown_def)
qed (simp add: shutdown_def)

theorem cut_off_shutdown_stays:
  assumes "initialize ext s0 = (None, s1)" and "start_server ext (s1\<lparr>is_up := True\<rparr>) = (None, a)"
  shows "releases (trace (snd (start_service ext True s0))) = releases (trace (snd (shutdown ext a)))"
proof -
  let ?b = "snd (shutdown ext a)"
  let ?r = "serve_forever ext (\<lambda>s. snd (shutdown ext s)) (s1\<lparr>is_up := True\<rparr>)"
  have "snd ?r = snd (make_call ext WaitForTermination ?b)
      \<or> snd ?r = snd (stop_server ext (snd (make_call ext WaitForTermination ?b)))"
    by (auto simp: serve_forever_def assms(2) and_then_def split: prod.split option.split exn.split)
  then have r: "\<not> is_up (snd ?r) \<and> releases (trace (snd ?r)) = releases (trace ?b)"
    using shutdown_down [of ext a] by (auto simp: stop_server_spec make_call_spec releases_append)
  have "snd (start_service ext True s0) = snd ?r"
    using r by (simp add: start_service_def assms(1) and_then_def shutdown_def case_prod_beta)
  then show ?thesis using r by simp
qed

text \<open>
  The loop of the workflow service ends with the first signal, provided the sleeping returns or is
  cancelled: the pass in which the signal arrives is the last.
\<close>

lemma shutdown_workflows_down: "\<not> is_up (snd (shutdown_workflows ext orch s))"
  unfolding shutdown_workflows_def
  by (simp add: and_then_keeps [where P = "\<lambda>s. \<not> is_up s"] make_call_spec)

declare serve_workflows.simps [simp del]

lemma serve_workflows_ends:
  assumes "Some orch \<in> set xs"
  shows "\<exists>r. serve_workflows ext xs s = Some r"
  using assms
proof (induction xs arbitrary: s)
  case (Cons x xs)
  let ?m = "make_call ext (Sleep 1) (case x of None \<Rightarrow> s | Some orch \<Rightarrow> snd (shutdown_workflows ext orch s))"
  have "\<exists>r. serve_workflows ext xs (snd ?m) = Some r"
  proof (cases x)
    case None
    then show ?thesis using Cons by simp
  next
    case (Some orch)
    then have "\<not> is_up (snd ?m)" by (simp add: make_call_spec shutdown_workflows_down)
    then show ?thesis by (simp add: serve_workflows.simps)
  qed
  then show ?case
    by (simp add: serve_workflows.simps [of ext "x # xs"] split: prod.split option.split exn.split) fastforce
qed simp

end
