(* ===== verification/Event_Bus_Scenario.thy ===== *)
theory Event_Bus_Scenario
  imports Event_Bus_Facts Event_Typing Lifecycle_Facts Store_Scenario
begin

text \<open>
  The theorems on the event bus, the wire format and the life cycle of the services at work: a broker that
  counts what it is sent and never confirms, a consumer of four messages one of which has no task, and
  a service whose server is interrupted.
\<close>

section \<open>Publishing\<close>

definition no_broker :: "kafka_message \<Rightarrow> nat \<Rightarrow> send_outcome \<times> nat" where
  "no_broker m n = (KafkaFailed (OtherError ''no broker''), n + 1)"

definition login_publication :: "nat event_publisher \<Rightarrow> bool result \<times> nat event_publisher" where
  "login_publication = calls_until 3 (publish_event no_broker noon ''c1'' ''task.events'' login_created None None)"

definition started_publisher :: "nat event_publisher" where
  "started_publisher = (new_publisher 0)\<lparr>has_producer := True\<rparr>"

lemma publication_sends_at_most_nine_witness:
  "let (res, r) = publish_with_retry login_publication 3 \<lparr>publisher = started_publisher, calls = 0, pauses = []\<rparr>
   in res \<noteq> Inr () \<and> kafka (publisher r) = 9"
proof -
  let ?r = "publish_with_retry login_publication 3 \<lparr>publisher = started_publisher, calls = 0, pauses = []\<rparr>"
  have "isl (fst ?r)"
    by (simp add: publish_with_retry_def publish_attempt_def publish_pause_def login_publication_def publish_event_def
        no_broker_def started_publisher_def new_publisher_def upt_rec numeral_3_eq_3 numeral_2_eq_2)
  then obtain x where x: "fst ?r = Inl x" by (cases "fst ?r") auto
  have "stops_after 3 (publish_event no_broker noon ''c1'' ''task.events'' login_created None None) login_publication"
    "counts_sends no_broker (\<lambda>n. n)"
    by (simp_all add: stops_after_def login_publication_def counts_sends_def no_broker_def)
  from publication_sends_at_most_nine [OF this, of _ "fst ?r" "snd ?r"] x
  show ?thesis by (auto simp: started_publisher_def new_publisher_def split: prod.split)
qed

lemma failed_start_counts_as_started_witness:
  "\<exists>q. start_publisher (\<lambda>k. (Some (OtherError ''no broker''), k)) (new_publisher (0::nat)) = (Some (OtherError ''no broker''), q)
     \<and> fst (publish_event no_broker noon ''c1'' ''task.events'' login_created None None q) = Inl (OtherError ''no broker'')"
  using failed_start_counts_as_started [of "new_publisher (0::nat)" "\<lambda>k. (Some (OtherError ''no broker''), k)"
      "OtherError ''no broker''" 0 "\<lambda>k. (None, k)" no_broker noon "''c1''" "''task.events''" login_created None None]
  by (auto simp: new_publisher_def no_broker_def)

section \<open>Subscribing\<close>

definition task_events :: subscription where
  "task_events = \<lparr>sub_topic = ''task.events'', group_id = ''g'', enable_auto_commit = False\<rparr>"

definition arrivals :: "sub_input list" where
  "arrivals = [Incoming noon \<lparr>msg_value = JInt 1, msg_offset = 0\<rparr>, Incoming noon \<lparr>msg_value = JStr ''x'', msg_offset = 1\<rparr>,
     Incoming noon \<lparr>msg_value = JInt 2, msg_offset = 2\<rparr>, StopCalled, Incoming noon \<lparr>msg_value = JInt 3, msg_offset = 3\<rparr>]"

definition collect :: "int \<Rightarrow> int list \<Rightarrow> py_error option \<times> int list" where
  "collect v vs = (None, vs @ [v])"

definition ready :: "(int list, unit) subscriber" where
  "ready = (new_subscriber [] ())\<lparr>has_consumer := True, is_running := True\<rparr>"

definition consumed :: "unit result \<times> (int list, unit) subscriber" where
  "consumed = consume task_events as_int collect (\<lambda>u. (None, u)) (\<lambda>t v u. (None, u)) arrivals ready"


section \<open>The wire format\<close>


section \<open>Life cycle\<close>

definition interrupted_server :: "unit effects" where
  "interrupted_server c w = ((if c = WaitForTermination then Some CancelledError else None), w)"

lemma service_releases_once_witness:
  "releases (trace (snd (start_service interrupted_server True (new_app ())))) = [StopPublisher, DisposeEngine, ShutdownTelemetry]"
proof -
  have "stops interrupted_server" by (simp add: stops_def interrupted_server_def)
  moreover have "fst (initialize interrupted_server (new_app ())) = None" by code_simp
  ultimately show ?thesis
    using service_releases_once [of interrupted_server True "()" "fst (start_service interrupted_server True (new_app ()))"
        "snd (start_service interrupted_server True (new_app ()))"] by simp
qed

end
