(* ===== verification/Workflow_Demo.thy ===== *)
theory Workflow_Demo
  imports Workflow_Service_Facts Lifecycle_Facts
begin

text \<open>
  \<open>demo_workflows\<close>, \<open>services/workflow_service/main.py\<close>: three workflows one after the other, with a pause
  after each, in which the orchestrator's tasks run. \<open>sleep k\<close> is what they do in the pause after workflow
  \<open>k\<close>, and \<open>iid k\<close> the \<open>uuid4\<close> of its instance; the statuses that the script logs are its result.
\<close>

definition demo_requests :: "(string \<times> saga_context) list" where
  "demo_requests =
     [(''task_onboarding'', [(''task_id'', JStr ''task-123''), (''title'', JStr ''Implement user authentication''),
        (''description'', JStr ''Set up JWT-based auth for the API gateway''), (''priority'', JStr ''high''),
        (''assignee_id'', JStr ''user-456''), (''created_by'', JStr ''user-789''),
        (''timestamp'', JStr ''2026-05-12T10:00:00Z'')]),
      (''task_approval'', [(''task_id'', JStr ''task-456''), (''reviewer_id'', JStr ''user-100''),
        (''auto_approve'', JBool True)]),
      (''task_bulk'', [(''task_ids'', JArr [JStr ''task-001'', JStr ''task-002'', JStr ''task-003'']),
        (''operation'', JStr ''archive'')])]"

fun run_requests :: "(nat \<Rightarrow> nat \<Rightarrow> string) \<Rightarrow> (nat \<Rightarrow> string) \<Rightarrow> (nat \<Rightarrow> 'o orchestrator \<Rightarrow> 'o orchestrator) \<Rightarrow> nat
    \<Rightarrow> (string \<times> saga_context) list \<Rightarrow> 'o orchestrator \<Rightarrow> (saga_context option list) result \<times> 'o orchestrator" where
  "run_requests uid iid sleep k [] orch = (Inr [], orch)"
| "run_requests uid iid sleep k ((name, c) # qs) orch = (case start_workflow (uid k) (iid k) name c orch of
     (Inl e, orch) \<Rightarrow> (Inl e, orch)
   | (Inr r, orch) \<Rightarrow> (let orch = sleep k orch; status = get_workflow_status (iid k) orch in
       (case run_requests uid iid sleep (Suc k) qs orch of
          (Inl e, orch) \<Rightarrow> (Inl e, orch)
        | (Inr xs, orch) \<Rightarrow> (Inr (status # xs), orch))))"

definition demo_workflows :: "'w effects \<Rightarrow> (nat \<Rightarrow> nat \<Rightarrow> string) \<Rightarrow> (nat \<Rightarrow> string)
    \<Rightarrow> (nat \<Rightarrow> 'o orchestrator \<Rightarrow> 'o orchestrator) \<Rightarrow> 'o orchestrator \<Rightarrow> 'w app
    \<Rightarrow> (exn option \<times> 'w app) \<times> saga_context option list \<times> 'o orchestrator" where
  "demo_workflows ext uid iid sleep orch s = (case initialize_workflows ext s of
     (Some e, s) \<Rightarrow> ((Some e, s), [], orch)
   | (None, s) \<Rightarrow> (case run_requests uid iid sleep 0 demo_requests orch of
       (Inl e, orch) \<Rightarrow> ((Some (Error e), s), [], orch)
     | (Inr xs, orch) \<Rightarrow> (shutdown_workflows ext orch s, xs, orch)))"

section \<open>What it reports\<close>

text \<open>In a pause only the tasks run.\<close>

definition pauses_run :: "(nat \<Rightarrow> 'o orchestrator \<Rightarrow> 'o orchestrator) \<Rightarrow> bool" where
  "pauses_run sleep = (\<forall>k orch. \<exists>ts. orch_run orch (map (\<lambda>(now, r). Run now r) ts) (sleep k orch))"

definition ids_of_objects :: "'o orchestrator \<Rightarrow> string set" where
  "ids_of_objects orch = set (map (\<lambda>th. instance_id (fst th)) (objects orch))"

lemma resume_ids: "r < length (objects orch) \<Longrightarrow> ids_of_objects (resume now r orch) = ids_of_objects orch"
proof -
  assume r: "r < length (objects orch)"
  let ?f = "\<lambda>th. instance_id (fst th)"
  obtain a p where o: "objects orch ! r = (a, p)" by fastforce
  let ?th = "tick now (a\<lparr>world := outside orch\<rparr>, p)"
  have "?f ?th = ?f (objects orch ! r)" using tick_identity [of now "(a\<lparr>world := outside orch\<rparr>, p)"] o by (simp add: identity_eq)
  then have "map ?f ((objects orch)[r := ?th]) = map ?f (objects orch)" by (simp add: map_update list_update_same_conv r)
  then show ?thesis by (simp add: ids_of_objects_def resume_def o Let_def flip: set_map)
qed

lemma pause_ids: "orch_run orch (map (\<lambda>(now, r). Run now r) ts) orch' \<Longrightarrow> ids_of_objects orch' = ids_of_objects orch"
proof (induction ts arbitrary: orch)
  case (Cons t ts)
  obtain now r where t: "t = (now, r)" by fastforce
  from Cons.prems have "r < length (objects orch) \<and> orch_run (resume now r orch) (map (\<lambda>(now, r). Run now r) ts) orch'"
    by (auto simp: t elim: orch_run_Cons)
  then show ?case using Cons.IH resume_ids by fastforce
qed (auto elim: orch_run_Nil)

text \<open>
  The script reports on each of its three workflows. Its last call, \<open>shutdown\<close>, does nothing, since the
  service it has made was never started: the telemetry stays up.
\<close>

lemma run_requests_reports:
  assumes "pauses_run sleep" and "inj iid" and "orch_ok orch"
    and "ids_of_objects orch = iid ` {..<k}"
    and "\<forall>(n, c) \<in> set qs. \<exists>d. build_workflow (uid' :: nat \<Rightarrow> string) n c = (Inr d :: 'o saga_definition result)"
    and "\<And>uid'' n c. (\<exists>d. build_workflow uid' n c = (Inr d :: 'o saga_definition result))
      \<Longrightarrow> \<exists>d. build_workflow uid'' n c = (Inr d :: 'o saga_definition result)"
  shows "\<exists>xs orch'. run_requests uid iid sleep k qs (orch :: 'o orchestrator) = (Inr xs, orch')
    \<and> length xs = length qs \<and> (\<forall>x \<in> set xs. x \<noteq> None)"
  using assms(3,4,5)
proof (induction qs arbitrary: k orch)
  case (Cons q qs)
  obtain n c where q: "q = (n, c)" by fastforce
  obtain d where d: "build_workflow (uid k) n c = (Inr d :: 'o saga_definition result)"
    using Cons.prems(3) assms(6) [of n c "uid k"] q by auto
  let ?o = "snd (start_saga (iid k) d c orch)"
  let ?s = "sleep k ?o"
  have start: "start_workflow (uid k) (iid k) n c orch = (Inr (length (objects orch)), ?o)"
    "objects ?o = objects orch @ [(new_instance (iid k) d c (outside orch), Created)]"
    by (simp_all add: start_workflow_def d start_saga_def Let_def)
  have fresh: "iid k \<notin> set (map (\<lambda>th. instance_id (fst th)) (objects orch))"
    using Cons.prems(2) assms(2) by (auto simp: ids_of_objects_def dest: injD)
  have ok: "orch_ok ?o" by (rule start_saga_ok [OF Cons.prems(1) fresh])
  obtain ts where ts: "orch_run ?o (map (\<lambda>(now, r). Run now r) ts) ?s"
    using assms(1) unfolding pauses_run_def by blast
  have ok': "orch_ok ?s" by (rule orch_run_ok [OF ts ok])
  have "ids_of_objects ?o = iid ` {..<Suc k}"
    using Cons.prems(2) by (auto simp: start(2) new_instance_def lessThan_Suc ids_of_objects_def)
  then have ids: "ids_of_objects ?s = iid ` {..<Suc k}" using pause_ids [OF ts] by simp
  then have "iid k \<in> set (map (\<lambda>th. instance_id (fst th)) (objects ?s))" by (simp add: ids_of_objects_def)
  then obtain r where "r < length (objects ?s)" "id_at ?s r = iid k"
    by (auto simp: in_set_conv_nth instance_at_def)
  then have "get_instance (iid k) ?s \<noteq> None"
    using orch_ok_maps [OF ok', of "iid k" r] by (cases "ended (objects ?s ! r)") (auto simp: get_instance_def split: option.split)
  then have report: "get_workflow_status (iid k) ?s \<noteq> None" by (auto simp: get_workflow_status_def)
  obtain xs orch' where "run_requests uid iid sleep (Suc k) qs ?s = (Inr xs, orch')"
    "length xs = length qs" "\<forall>x \<in> set xs. x \<noteq> None"
    using Cons.IH [OF ok' ids] Cons.prems(3) by auto
  then show ?case using start(1) report by (simp add: q Let_def)
qed simp

theorem demo_workflows_reports:
  fixes sleep :: "nat \<Rightarrow> 'o orchestrator \<Rightarrow> 'o orchestrator"
  assumes "pauses_run sleep" and "inj iid" and "fst (ext InitTelemetry w) = None"
  shows "\<exists>xs orch s. demo_workflows ext uid iid sleep (new_orchestrator v) (new_app w) = ((None, s), xs, orch)
    \<and> length xs = 3 \<and> (\<forall>x \<in> set xs. x \<noteq> None) \<and> trace s = [InitTelemetry]"
proof -
  let ?o = "new_orchestrator v :: 'o orchestrator"
  have build: "\<forall>(n, c) \<in> set demo_requests. \<exists>d. build_workflow (uid 0) n c = (Inr d :: 'o saga_definition result)"
    by (simp add: demo_requests_def build_workflow_def workflow_registry_def get_or_def)
  have rebuild: "\<exists>d. build_workflow uid'' n c = (Inr d :: 'o saga_definition result)"
    if "\<exists>d. build_workflow (uid 0) n c = (Inr d :: 'o saga_definition result)" for uid'' n c
    using that by (auto simp: build_workflow_def bind_r_Inr_iff split: option.splits workflow_class.splits)
  have ids: "ids_of_objects ?o = iid ` {..<0}" by (simp add: ids_of_objects_def new_orchestrator_def)
  from run_requests_reports [OF assms(1,2) new_orchestrator_ok ids build rebuild, of uid]
  obtain xs orch where "run_requests uid iid sleep 0 demo_requests ?o = (Inr xs, orch)"
    "length xs = length demo_requests" "\<forall>x \<in> set xs. x \<noteq> None" by blast
  moreover have "length demo_requests = 3" by (simp add: demo_requests_def)
  moreover obtain s where "make_call ext InitTelemetry (new_app w) = (None, s)" "trace s = [InitTelemetry]" "\<not> is_up s"
    using assms(3) by (cases "ext InitTelemetry w") (auto simp: make_call_def new_app_def)
  ultimately show ?thesis
    by (simp add: demo_workflows_def initialize_workflows_def shutdown_workflows_def)
qed

text \<open>Pauses in which nothing runs, and ids of increasing length.\<close>

lemma demo_workflows_reports_witness:
  "\<exists>xs orch s. demo_workflows (\<lambda>c w. (None, w)) (\<lambda>k n. ''u'') (\<lambda>k. replicate k CHR ''i'') (\<lambda>k orch. orch)
      (new_orchestrator ()) (new_app ()) = ((None, s), xs, orch)
    \<and> length xs = 3 \<and> (\<forall>x \<in> set xs. x \<noteq> None) \<and> trace s = [InitTelemetry]"
proof (rule demo_workflows_reports)
  show "pauses_run (\<lambda>k (orch :: unit orchestrator). orch)"
    unfolding pauses_run_def by (intro allI exI [of _ "[]"]) (simp add: orch_run.stop)
  show "inj (\<lambda>k. replicate k CHR ''i'')" by (rule injI) (metis length_replicate)
qed simp

end
