(* ===== verification/Observability.thy ===== *)
theory Observability
  imports Prelude
begin

text \<open>
  \<open>ObservabilityManager\<close>, \<open>libs/common/observability.py\<close>: the providers of OpenTelemetry, made at most once
  between two shutdowns. The SDK is an argument: a call of it is an element of \<open>sdk_call\<close>, its outcome a
  function of the SDK's state, and the calls made are kept. Providers are numbered in the order in which
  they are made.
\<close>

datatype sdk_call =
    MakeResource string string
  | MakeTraceExporter string
  | MakeSpanProcessor
  | MakeTracerProvider nat
  | AddSpanProcessor nat
  | SetTracerProvider nat
  | MakeMetricExporter string
  | MakeMetricReader
  | MakeMeterProvider nat
  | SetMeterProvider nat
  | InstrumentServer
  | InstrumentClient
  | GetTracer string
  | GetMeter string
  | ShutdownTracerProvider nat
  | ShutdownMeterProvider nat

record 'k observability =
  initialized :: bool
  tracer_provider :: "nat option"
  meter_provider :: "nat option"
  made :: nat
  sdk_calls :: "sdk_call list"
  sdk_state :: 'k

definition new_observability :: "'k \<Rightarrow> 'k observability" where
  "new_observability k = \<lparr>initialized = False, tracer_provider = None, meter_provider = None, made = 0,
     sdk_calls = [], sdk_state = k\<rparr>"

type_synonym 'k sdk = "sdk_call \<Rightarrow> 'k \<Rightarrow> py_error option \<times> 'k"

definition sdk_do :: "'k sdk \<Rightarrow> sdk_call \<Rightarrow> 'k observability \<Rightarrow> 'k observability effect" where
  "sdk_do sdk c s = (case sdk c (sdk_state s) of (err, k) \<Rightarrow> (s\<lparr>sdk_calls := sdk_calls s @ [c], sdk_state := k\<rparr>, err))"

text \<open>\<open>getenv\<close> is \<open>os.getenv\<close>; a provider is assigned when its constructor has returned.\<close>

definition getenv_or :: "(string \<Rightarrow> string option) \<Rightarrow> string \<Rightarrow> string \<Rightarrow> string" where
  "getenv_or getenv name fallback = (case getenv name of Some v \<Rightarrow> v | None \<Rightarrow> fallback)"

definition initialize_telemetry :: "'k sdk \<Rightarrow> (string \<Rightarrow> string option) \<Rightarrow> string \<Rightarrow> string option
    \<Rightarrow> 'k observability \<Rightarrow> 'k observability effect" where
  "initialize_telemetry sdk getenv service_name otlp_endpoint s = (if initialized s then done_eff s
     else (let endpoint = (if truthy otlp_endpoint then the otlp_endpoint
             else getenv_or getenv ''OTEL_EXPORTER_OTLP_ENDPOINT'' ''http://localhost:4317'') in
       seq_eff (sdk_do sdk (MakeResource service_name (getenv_or getenv ''ENVIRONMENT'' ''development'')) s) (\<lambda>s.
       seq_eff (sdk_do sdk (MakeTraceExporter endpoint) s) (\<lambda>s.
       seq_eff (sdk_do sdk MakeSpanProcessor s) (\<lambda>s.
       seq_eff (sdk_do sdk (MakeTracerProvider (made s)) s) (\<lambda>s.
       let t = made s; s = s\<lparr>tracer_provider := Some t, made := t + 1\<rparr> in
       seq_eff (sdk_do sdk (AddSpanProcessor t) s) (\<lambda>s.
       seq_eff (sdk_do sdk (SetTracerProvider t) s) (\<lambda>s.
       seq_eff (sdk_do sdk (MakeMetricExporter endpoint) s) (\<lambda>s.
       seq_eff (sdk_do sdk MakeMetricReader s) (\<lambda>s.
       seq_eff (sdk_do sdk (MakeMeterProvider (made s)) s) (\<lambda>s.
       let m = made s; s = s\<lparr>meter_provider := Some m, made := m + 1\<rparr> in
       seq_eff (sdk_do sdk (SetMeterProvider m) s) (\<lambda>s.
       seq_eff (sdk_do sdk InstrumentServer s) (\<lambda>s.
       seq_eff (sdk_do sdk InstrumentClient s) (\<lambda>s.
       done_eff (s\<lparr>initialized := True\<rparr>)))))))))))))))"

text \<open>The service name is then the name of the tracer.\<close>

definition get_tracer :: "'k sdk \<Rightarrow> (string \<Rightarrow> string option) \<Rightarrow> string \<Rightarrow> 'k observability \<Rightarrow> 'k observability effect" where
  "get_tracer sdk getenv name s = seq_eff (if initialized s then done_eff s else initialize_telemetry sdk getenv name None s)
     (sdk_do sdk (GetTracer name))"

definition get_meter :: "'k sdk \<Rightarrow> (string \<Rightarrow> string option) \<Rightarrow> string \<Rightarrow> 'k observability \<Rightarrow> 'k observability effect" where
  "get_meter sdk getenv name s = seq_eff (if initialized s then done_eff s else initialize_telemetry sdk getenv name None s)
     (sdk_do sdk (GetMeter name))"

text \<open>The providers stay assigned.\<close>

definition shutdown_telemetry :: "'k sdk \<Rightarrow> 'k observability \<Rightarrow> 'k observability effect" where
  "shutdown_telemetry sdk s =
     seq_eff (case tracer_provider s of Some t \<Rightarrow> sdk_do sdk (ShutdownTracerProvider t) s | None \<Rightarrow> done_eff s) (\<lambda>s.
     seq_eff (case meter_provider s of Some m \<Rightarrow> sdk_do sdk (ShutdownMeterProvider m) s | None \<Rightarrow> done_eff s) (\<lambda>s.
     done_eff (s\<lparr>initialized := False\<rparr>)))"

section \<open>Sequences of calls\<close>

datatype telemetry_op = Initialize string "string option" | Tracer string | Meter string | Shutdown

fun telemetry_step :: "'k sdk \<Rightarrow> (string \<Rightarrow> string option) \<Rightarrow> telemetry_op \<Rightarrow> 'k observability \<Rightarrow> 'k observability effect" where
  "telemetry_step sdk getenv (Initialize n ep) s = initialize_telemetry sdk getenv n ep s"
| "telemetry_step sdk getenv (Tracer n) s = get_tracer sdk getenv n s"
| "telemetry_step sdk getenv (Meter n) s = get_meter sdk getenv n s"
| "telemetry_step sdk getenv Shutdown s = shutdown_telemetry sdk s"

text \<open>Their exceptions are the callers' concern.\<close>

fun telemetry_run :: "'k sdk \<Rightarrow> (string \<Rightarrow> string option) \<Rightarrow> telemetry_op list \<Rightarrow> 'k observability \<Rightarrow> 'k observability" where
  "telemetry_run sdk getenv [] s = s"
| "telemetry_run sdk getenv (x # xs) s = telemetry_run sdk getenv xs (fst (telemetry_step sdk getenv x s))"

section \<open>What is shut down\<close>

definition shut :: "nat \<Rightarrow> 'k observability \<Rightarrow> bool" where
  "shut i s = (ShutdownTracerProvider i \<in> set (sdk_calls s) \<or> ShutdownMeterProvider i \<in> set (sdk_calls s))"

text \<open>
  With an SDK that does not raise: there are no providers, or a pair of which the meter provider is the
  latest; every provider before them has been shut down, and they have unless the manager is initialized.
\<close>

definition telemetry_ok :: "'k observability \<Rightarrow> bool" where
  "telemetry_ok s = ((made s = 0 \<and> tracer_provider s = None \<and> meter_provider s = None \<and> \<not> initialized s
       \<or> (\<exists>t. tracer_provider s = Some t \<and> meter_provider s = Some (Suc t) \<and> made s = t + 2))
     \<and> (\<forall>i < made s. shut i s \<or> (initialized s \<and> (tracer_provider s = Some i \<or> meter_provider s = Some i)))
     \<and> (initialized s \<longrightarrow> (\<forall>i. tracer_provider s = Some i \<or> meter_provider s = Some i \<longrightarrow> \<not> shut i s))
     \<and> (\<forall>i. shut i s \<longrightarrow> i < made s))"

definition never_raises :: "'k sdk \<Rightarrow> bool" where
  "never_raises sdk = (\<forall>c k. fst (sdk c k) = None)"

lemma sdk_do_ok:
  "never_raises sdk \<Longrightarrow> sdk_do sdk c s = (s\<lparr>sdk_calls := sdk_calls s @ [c], sdk_state := snd (sdk c (sdk_state s))\<rparr>, None)"
  by (cases "sdk c (sdk_state s)") (simp add: sdk_do_def never_raises_def, metis fst_conv)

lemma initialize_telemetry_ok:
  assumes "never_raises sdk" "telemetry_ok s"
  shows "telemetry_ok (fst (initialize_telemetry sdk getenv n ep s))" "snd (initialize_telemetry sdk getenv n ep s) = None"
    "initialized (fst (initialize_telemetry sdk getenv n ep s))"
    "made (fst (initialize_telemetry sdk getenv n ep s)) = (if initialized s then made s else made s + 2)"
  using assms
  by (auto simp: initialize_telemetry_def sdk_do_ok done_eff_def telemetry_ok_def shut_def Let_def less_Suc_eq)

lemma getting_ok:
  assumes "never_raises sdk" "telemetry_ok s" "c \<in> {GetTracer n, GetMeter n}"
  shows "telemetry_ok (fst (sdk_do sdk c s))" "initialized (fst (sdk_do sdk c s)) = initialized s"
    "made (fst (sdk_do sdk c s)) = made s"
  using assms by (auto simp: sdk_do_ok telemetry_ok_def shut_def)

lemma get_provider_ok:
  assumes "never_raises sdk" "telemetry_ok s"
  shows "telemetry_ok (fst (get_tracer sdk getenv n s))" "telemetry_ok (fst (get_meter sdk getenv n s))"
    "initialized (fst (get_tracer sdk getenv n s))" "initialized (fst (get_meter sdk getenv n s))"
    "made (fst (get_tracer sdk getenv n s)) = (if initialized s then made s else made s + 2)"
    "made (fst (get_meter sdk getenv n s)) = (if initialized s then made s else made s + 2)"
proof -
  let ?i = "initialize_telemetry sdk getenv n None s"
  note i = initialize_telemetry_ok [OF assms, of getenv n None]
  obtain s' where s': "?i = (s', None)" using i(2) by (cases ?i) simp
  have "get_tracer sdk getenv n s = sdk_do sdk (GetTracer n) (if initialized s then s else fst ?i)"
    "get_meter sdk getenv n s = sdk_do sdk (GetMeter n) (if initialized s then s else fst ?i)"
    by (simp_all add: get_tracer_def get_meter_def s')
  then show "telemetry_ok (fst (get_tracer sdk getenv n s))" "telemetry_ok (fst (get_meter sdk getenv n s))"
    "initialized (fst (get_tracer sdk getenv n s))" "initialized (fst (get_meter sdk getenv n s))"
    "made (fst (get_tracer sdk getenv n s)) = (if initialized s then made s else made s + 2)"
    "made (fst (get_meter sdk getenv n s)) = (if initialized s then made s else made s + 2)"
    using i assms by (simp_all add: getting_ok)
qed

lemma shutdown_telemetry_spec:
  assumes "never_raises sdk"
  shows "\<exists>k. shutdown_telemetry sdk s = (s\<lparr>sdk_calls := sdk_calls s
      @ (case tracer_provider s of Some t \<Rightarrow> [ShutdownTracerProvider t] | None \<Rightarrow> [])
      @ (case meter_provider s of Some m \<Rightarrow> [ShutdownMeterProvider m] | None \<Rightarrow> []),
    sdk_state := k, initialized := False\<rparr>, None)"
proof (cases "tracer_provider s"; cases "meter_provider s")
  assume "tracer_provider s = None" "meter_provider s = None"
  then show ?thesis by (cases s) (simp add: shutdown_telemetry_def done_eff_def)
qed (auto simp: shutdown_telemetry_def sdk_do_ok [OF assms] done_eff_def)

lemma shutdown_telemetry_ok:
  assumes "never_raises sdk" "telemetry_ok s"
  shows "telemetry_ok (fst (shutdown_telemetry sdk s))" "\<not> initialized (fst (shutdown_telemetry sdk s))"
    "made (fst (shutdown_telemetry sdk s)) = made s"
proof -
  obtain k where k: "shutdown_telemetry sdk s = (s\<lparr>sdk_calls := sdk_calls s
      @ (case tracer_provider s of Some t \<Rightarrow> [ShutdownTracerProvider t] | None \<Rightarrow> [])
      @ (case meter_provider s of Some m \<Rightarrow> [ShutdownMeterProvider m] | None \<Rightarrow> []),
    sdk_state := k, initialized := False\<rparr>, None)" (is "_ = (?s, None)")
    using shutdown_telemetry_spec [OF assms(1), of s] by blast
  show "telemetry_ok (fst (shutdown_telemetry sdk s))"
  proof (cases "tracer_provider s")
    case None
    then have "made s = 0" "meter_provider s = None" "\<forall>i. \<not> shut i s" using assms(2) by (auto simp: telemetry_ok_def)
    then show ?thesis using None by (simp add: k telemetry_ok_def shut_def)
  next
    case (Some t)
    then have t: "meter_provider s = Some (Suc t)" "made s = t + 2" using assms(2) by (auto simp: telemetry_ok_def)
    then have "shut i ?s \<longleftrightarrow> shut i s \<or> i = t \<or> i = Suc t" for i using Some by (auto simp: shut_def)
    moreover have old: "\<forall>i < made s. shut i s \<or> (initialized s \<and> (tracer_provider s = Some i \<or> meter_provider s = Some i))"
      "\<forall>i. shut i s \<longrightarrow> i < made s"
      using assms(2) unfolding telemetry_ok_def by blast+
    have "shut i s" if "i < t" for i using old(1) [rule_format, of i] that Some t by auto
    with calculation old(2) show ?thesis using Some t by (auto simp: k telemetry_ok_def less_Suc_eq)
  qed
qed (use shutdown_telemetry_spec [OF assms(1), of s] in auto)

definition shutdowns :: "telemetry_op list \<Rightarrow> nat" where
  "shutdowns xs = length (filter (\<lambda>x. x = Shutdown) xs)"

lemma telemetry_run_ok:
  assumes "never_raises sdk" "telemetry_ok s" "made s \<le> 2 * n + (if initialized s then 2 else 0)"
  shows "telemetry_ok (telemetry_run sdk getenv xs s)
    \<and> made (telemetry_run sdk getenv xs s) \<le> 2 * (n + shutdowns xs) + 2"
  using assms(2,3)
proof (induction xs arbitrary: n s)
  case (Cons x xs)
  let ?s = "fst (telemetry_step sdk getenv x s)"
  let ?n = "n + (if x = Shutdown then 1 else 0)"
  have "telemetry_ok ?s \<and> made ?s \<le> 2 * ?n + (if initialized ?s then 2 else 0)"
    using Cons.prems initialize_telemetry_ok [OF assms(1) Cons.prems(1)] get_provider_ok [OF assms(1) Cons.prems(1)]
      shutdown_telemetry_ok [OF assms(1) Cons.prems(1)] by (cases x) (auto split: if_splits)
  then show ?case using Cons.IH [of ?s ?n] by (auto simp: shutdowns_def split: if_splits)
qed (auto simp: shutdowns_def split: if_splits)


text \<open>
  This needs the SDK not to raise: an \<open>initialize\<close> that raises after it has made a provider leaves the
  manager uninitialized, and the next one replaces the provider, which nothing shuts down any more.
\<close>

definition broken_meters :: "nat sdk" where
  "broken_meters c n = ((if (\<exists>ep. c = MakeMetricExporter ep) \<and> n = 0 then Some (OtherError ''no endpoint'') else None),
     (if \<exists>ep. c = MakeMetricExporter ep then n + 1 else n))"

lemma provider_leaked:
  "let s = telemetry_run broken_meters (\<lambda>_. None) [Initialize ''s'' None, Initialize ''s'' None, Shutdown] (new_observability 0)
   in \<not> initialized s \<and> 0 < made s \<and> \<not> shut 0 s"
  by (simp add: initialize_telemetry_def shutdown_telemetry_def sdk_do_def broken_meters_def new_observability_def
      done_eff_def shut_def Let_def)

definition two_periods :: "unit observability" where
  "two_periods = telemetry_run (\<lambda>c k. (None, k)) (\<lambda>_. None) [Tracer ''a'', Shutdown, Meter ''b''] (new_observability ())"


end
