(* ===== verification/Task_Errors.thy ===== *)
theory Task_Errors
  imports Py_Text
begin

text \<open>
  The exception classes of the task domain, \<open>services/task_service/domain/exceptions.py\<close>, with their
  messages and codes. The service raises two of them, which are constructors of \<open>py_error\<close> as well; nothing
  reads the codes.
\<close>

datatype domain_error =
    NotFound string
  | AlreadyDeleted string
  | InvalidStateTransition string string
  | VersionConflict string int int
  | UnauthorizedAccess string string string

fun error_message :: "domain_error \<Rightarrow> string" where
  "error_message (NotFound i) = ''Task with ID '' @ quoted i @ '' not found''"
| "error_message (AlreadyDeleted i) = ''Task '' @ quoted i @ '' has been deleted''"
| "error_message (InvalidStateTransition a b) = ''Cannot transition from '' @ quoted a @ '' to '' @ quoted b"
| "error_message (VersionConflict i e a) = ''Version conflict for task '' @ quoted i
     @ '': expected '' @ str_of_int e @ '', got '' @ str_of_int a"
| "error_message (UnauthorizedAccess u i operation) = ''User '' @ quoted u @ '' not authorized to '' @ operation
     @ '' task '' @ quoted i"

fun error_code :: "domain_error \<Rightarrow> string" where
  "error_code (NotFound _) = ''TASK_NOT_FOUND''"
| "error_code (AlreadyDeleted _) = ''TASK_DELETED''"
| "error_code (InvalidStateTransition _ _) = ''INVALID_TRANSITION''"
| "error_code (VersionConflict _ _ _) = ''VERSION_CONFLICT''"
| "error_code (UnauthorizedAccess _ _ _) = ''UNAUTHORIZED''"

text \<open>The domain exception that an exception of the service is, if it is one; its text is the message.\<close>

fun domain_error_of :: "py_error \<Rightarrow> domain_error option" where
  "domain_error_of (TaskNotFoundError i) = Some (NotFound i)"
| "domain_error_of (TaskVersionConflictError i e a) = Some (VersionConflict i e a)"
| "domain_error_of _ = None"

lemma str_of_domain_error: "domain_error_of x = Some e \<Longrightarrow> str_of_error x = error_message e"
  by (cases x) auto

text \<open>
  The repository takes any \<open>ValueError\<close> with this phrase for a conflict; the message of the exception it raises
  has the phrase as well, so a conflict is still one when it is caught and examined once more.
\<close>

lemma conflict_message_recognised: "prefix ''Version conflict'' (error_message (VersionConflict i e a))"
  by simp

text \<open>The code determines the class.\<close>

lemma error_code_distinct: "error_code d = error_code e \<Longrightarrow> (case (d, e) of
    (NotFound _, NotFound _) \<Rightarrow> True | (AlreadyDeleted _, AlreadyDeleted _) \<Rightarrow> True
  | (InvalidStateTransition _ _, InvalidStateTransition _ _) \<Rightarrow> True
  | (VersionConflict _ _ _, VersionConflict _ _ _) \<Rightarrow> True
  | (UnauthorizedAccess _ _ _, UnauthorizedAccess _ _ _) \<Rightarrow> True | _ \<Rightarrow> False)"
  by (cases d; cases e) simp_all

end
