(* ===== verification/Interleaving.thy ===== *)
theory Interleaving
  imports Prelude
begin

text \<open>
  The contract of tasks that share a world and take turns: a schedule names the task whose turn it is. What
  each turn keeps, every run keeps. Interpreted for concurrent saves and for the sub-steps of a parallel step.
\<close>

locale interleaving =
  fixes tick :: "nat \<Rightarrow> 't \<Rightarrow> 'w \<Rightarrow> 't \<times> 'w"
    and run :: "nat list \<Rightarrow> 't list \<Rightarrow> 'w \<Rightarrow> 't list \<times> 'w"
  assumes run_Nil: "run [] ts w = (ts, w)"
    and run_Cons: "run (i # is) ts w = (if i < length ts
      then (case tick i (ts ! i) w of (t, w) \<Rightarrow> run is (ts[i := t]) w) else run is ts w)"
begin

lemma run_keeps:
  assumes step: "\<And>ts w i t w'. P ts w \<Longrightarrow> i < length ts \<Longrightarrow> tick i (ts ! i) w = (t, w') \<Longrightarrow> P (ts[i := t]) w'"
    and "P ts w" "run is ts w = (ts', w')"
  shows "P ts' w'"
  using assms(2,3)
proof (induction "is" arbitrary: ts w)
  case Nil
  then show ?case by (simp add: run_Nil)
next
  case (Cons i "is")
  show ?case
  proof (cases "i < length ts")
    case True
    obtain t u where t: "tick i (ts ! i) w = (t, u)" by fastforce
    then have "run is (ts[i := t]) u = (ts', w')" using Cons.prems(2) True by (simp add: run_Cons)
    then show ?thesis using Cons.IH step [OF Cons.prems(1) True t] by blast
  next
    case False
    then show ?thesis using Cons by (simp add: run_Cons)
  qed
qed

lemma run_length: "run is ts w = (ts', w') \<Longrightarrow> length ts' = length ts"
  by (rule run_keeps [where P = "\<lambda>us _. length us = length ts"]) simp_all

lemma run_append: "run (is @ js) ts w = (case run is ts w of (ts, w) \<Rightarrow> run js ts w)"
  by (induction "is" arbitrary: ts w) (auto simp: run_Nil run_Cons split: prod.split)

end

end
