(* ===== verification/Concurrent_Saves.thy ===== *)
theory Concurrent_Saves
  imports Event_Store_Facts Interleaving
begin

text \<open>
  Calls of \<open>PostgresEventStore.save_events\<close> that run at the same time. All handlers of the service share one
  store and one session; each statement is awaited, and between two statements of one call any other call
  may make some of its own. A call is a request with the await it stands at; a tick lets the awaited
  statement return and runs the code up to the next await. The version check is one statement and the
  insertions are others, so only the unique index on \<open>(aggregate_id, version)\<close> decides a race.
\<close>

section \<open>One call\<close>

text \<open>\<open>Inserting k\<close>: the insertion of event number \<open>k\<close> is awaited.\<close>

datatype save_point = Querying | Inserting nat | Saved "unit result"

record save_call =
  for_aggregate :: string
  to_save :: "task_event list"
  expected_ver :: int
  at_point :: save_point

definition call_save :: "string \<Rightarrow> task_event list \<Rightarrow> int \<Rightarrow> save_call" where
  "call_save agg events expected = \<lparr>for_aggregate = agg, to_save = events, expected_ver = expected,
     at_point = (if events = [] then Saved (Inr ()) else Querying)\<rparr>"

definition save_tick :: "save_call \<Rightarrow> db \<Rightarrow> save_call \<times> db" where
  "save_tick t d = (case at_point t of
     Querying \<Rightarrow> (case get_current_version (for_aggregate t) d of
         (Inl x, d) \<Rightarrow> (t\<lparr>at_point := Saved (Inl x)\<rparr>, d)
       | (Inr current, d) \<Rightarrow>
           if current \<noteq> expected_ver t
           then (t\<lparr>at_point := Saved (Inl (ValueError (conflict_message (for_aggregate t) (expected_ver t) current)))\<rparr>, d)
           else (t\<lparr>at_point := Inserting 0\<rparr>, d))
   | Inserting k \<Rightarrow> (case insert_event (for_aggregate t) (to_save t ! k) d of
         (Inl x, d) \<Rightarrow> (t\<lparr>at_point := Saved (Inl x)\<rparr>, d)
       | (Inr _, d) \<Rightarrow> (t\<lparr>at_point := (if Suc k < length (to_save t) then Inserting (Suc k) else Saved (Inr ()))\<rparr>, d))
   | Saved res \<Rightarrow> (t, d))"

section \<open>Interleaved calls\<close>

fun interleave :: "nat list \<Rightarrow> save_call list \<Rightarrow> db \<Rightarrow> save_call list \<times> db" where
  "interleave [] ts d = (ts, d)"
| "interleave (i # is) ts d = (if i < length ts
     then (case save_tick (ts ! i) d of (t, d) \<Rightarrow> interleave is (ts[i := t]) d)
     else interleave is ts d)"

interpretation saves: interleaving "\<lambda>_. save_tick" interleave
  by unfold_locales simp_all

section \<open>Without interruption\<close>

text \<open>A call whose ticks nothing interrupts is \<open>save_events\<close>.\<close>

fun finish_call :: "nat \<Rightarrow> save_call \<Rightarrow> db \<Rightarrow> save_call \<times> db" where
  "finish_call 0 t d = (t, d)"
| "finish_call (Suc n) t d = (case save_tick t d of (t, d) \<Rightarrow> finish_call n t d)"

lemma finish_saved: "at_point t = Saved res \<Longrightarrow> finish_call n t d = (t, d)"
  by (induction n) (simp_all add: save_tick_def)

lemma finish_inserting:
  assumes "at_point t = Inserting k" "k < length (to_save t)"
    and "insert_events (for_aggregate t) (drop k (to_save t)) d = (res, d')" "length (to_save t) - k \<le> n"
  shows "finish_call n t d = (t\<lparr>at_point := Saved res\<rparr>, d')"
  using assms
proof (induction n arbitrary: t k d)
  case (Suc n)
  have drop: "drop k (to_save t) = to_save t ! k # drop (Suc k) (to_save t)"
    using Suc.prems(2) by (simp add: Cons_nth_drop_Suc)
  obtain r d1 where i: "insert_event (for_aggregate t) (to_save t ! k) d = (r, d1)" by fastforce
  show ?case
  proof (cases r)
    case (Inl x)
    then have "res = Inl x" "d' = d1" using Suc.prems(3) i by (simp_all add: drop)
    then show ?thesis using Suc.prems(1) i Inl by (simp add: save_tick_def finish_saved)
  next
    case (Inr u)
    show ?thesis
    proof (cases "Suc k < length (to_save t)")
      case True
      then show ?thesis using Suc.IH [of "t\<lparr>at_point := Inserting (Suc k)\<rparr>" "Suc k" d1] Suc.prems i Inr
        by (simp add: drop save_tick_def)
    next
      case False
      then have "res = Inr ()" "d' = d1" using Suc.prems(3) i Inr by (simp_all add: drop)
      then show ?thesis using Suc.prems(1) i Inr False by (simp add: save_tick_def finish_saved)
    qed
  qed
qed simp

text \<open>Saving in steps refines saving at once. A call of \<open>save_events\<close> that nothing interrupts ends after at
  most one statement more than it has events, with the result and the state of the atomic \<open>save_events\<close>.\<close>

lemma uninterrupted_call:
  "finish_call (Suc (length es)) (call_save agg es v) d
   = (let (res, d') = save_events agg es v d in ((call_save agg es v)\<lparr>at_point := Saved res\<rparr>, d'))"
proof (cases "es = []")
  case True
  then show ?thesis by (simp add: call_save_def finish_saved save_events_def save_tick_def)
next
  case False
  let ?t = "call_save agg es v"
  have t: "at_point ?t = Querying" "for_aggregate ?t = agg" "expected_ver ?t = v" "to_save ?t = es"
    using False by (simp_all add: call_save_def)
  obtain r d1 where q: "get_current_version agg d = (r, d1)" by fastforce
  show ?thesis
  proof (cases "r = Inr v")
    case True
    obtain res d' where i: "insert_events agg es d1 = (res, d')" by fastforce
    have "save_tick ?t d = (?t\<lparr>at_point := Inserting 0\<rparr>, d1)" using t q True by (simp add: save_tick_def)
    moreover have "finish_call (length es) (?t\<lparr>at_point := Inserting 0\<rparr>) d1
        = (?t\<lparr>at_point := Inserting 0, at_point := Saved res\<rparr>, d')"
      by (rule finish_inserting [of _ 0]) (use t False i in simp_all)
    ultimately show ?thesis using q True i False by (simp add: save_events_def)
  next
    case neq: False
    then show ?thesis using t q False by (cases r) (auto simp: save_tick_def save_events_def finish_saved)
  qed
qed

section \<open>Races\<close>

text \<open>How many of its events a call that has not failed has inserted.\<close>

definition inserted_of :: "save_call \<Rightarrow> nat" where
  "inserted_of t = (case at_point t of Querying \<Rightarrow> 0 | Inserting k \<Rightarrow> k | Saved (Inr _) \<Rightarrow> length (to_save t) | Saved (Inl _) \<Rightarrow> 0)"

definition request_of :: "save_call \<Rightarrow> string \<times> task_event list \<times> int" where
  "request_of t = (for_aggregate t, to_save t, expected_ver t)"

definition version_key :: "db \<Rightarrow> save_call \<Rightarrow> nat \<Rightarrow> string option \<times> int" where
  "version_key d t k = (uuid_in d (for_aggregate t), ev_version (to_save t ! k))"

text \<open>What holds of the calls while they run.\<close>

definition call_ok :: "save_call \<Rightarrow> bool" where
  "call_ok t = (case at_point t of Querying \<Rightarrow> to_save t \<noteq> [] | Inserting k \<Rightarrow> k < length (to_save t) | Saved _ \<Rightarrow> True)"

definition has_row :: "db \<Rightarrow> save_call \<Rightarrow> nat \<Rightarrow> bool" where
  "has_row d t k = (\<exists>r \<in> set (rows d). (Some (row_aggregate_id r), row_version r) = version_key d t k
     \<and> row_event_data r = event_to_dict (to_save t ! k))"

definition calls_ok :: "save_call list \<Rightarrow> db \<Rightarrow> bool" where
  "calls_ok ts d = ((\<forall>i < length ts. call_ok (ts ! i) \<and> (\<forall>k < inserted_of (ts ! i). has_row d (ts ! i) k))
     \<and> (\<forall>i < length ts. \<forall>j < length ts. i \<noteq> j \<longrightarrow> (\<forall>k < inserted_of (ts ! i). \<forall>l < inserted_of (ts ! j).
         version_key d (ts ! i) k \<noteq> version_key d (ts ! j) l)))"

lemma save_tick_cases:
  assumes "save_tick t d = (t', d')" "call_ok t"
  obtains (still) "request_of t' = request_of t" "call_ok t'" "inserted_of t' \<le> inserted_of t" "rows d' = rows d" "uuid_in d' = uuid_in d"
  | (insert) u eid where "request_of t' = request_of t" "call_ok t'" "at_point t = Inserting (inserted_of t)" "inserted_of t < length (to_save t)"
      "inserted_of t' = Suc (inserted_of t)" "uuid_in d (for_aggregate t) = Some u"
      "row_admissible (row_of_event (next_id d) eid u (to_save t ! inserted_of t)) (rows d)"
      "rows d' = rows d @ [row_of_event (next_id d) eid u (to_save t ! inserted_of t)]" "uuid_in d' = uuid_in d"
proof (cases "at_point t")
  case Querying
  have "rows d' = rows d \<and> uuid_in d' = uuid_in d \<and> request_of t' = request_of t \<and> call_ok t' \<and> inserted_of t' \<le> inserted_of t"
    using assms Querying unfolding save_tick_def get_current_version_def with_uuid_def db_error_def
    by (auto simp: request_of_def call_ok_def inserted_of_def split: option.splits if_splits)
  then show ?thesis using still by blast
next
  case (Inserting k)
  obtain res d1 where i: "insert_event (for_aggregate t) (to_save t ! k) d = (res, d1)" by fastforce
  then show ?thesis
  proof (cases rule: insert_event_cases)
    case (stored u eid r)
    then show ?thesis using assms Inserting i
      by (intro insert [of u eid]) (auto simp: save_tick_def request_of_def call_ok_def inserted_of_def split: if_splits)
  next
    case (rejected x)
    then show ?thesis using assms Inserting i
      by (intro still) (auto simp: save_tick_def request_of_def call_ok_def inserted_of_def)
  qed
next
  case (Saved res)
  then show ?thesis using assms by (intro still) (auto simp: save_tick_def)
qed

lemma has_row_mono:
  "has_row d t k \<Longrightarrow> request_of t' = request_of t \<Longrightarrow> set (rows d) \<subseteq> set (rows d') \<Longrightarrow> uuid_in d' = uuid_in d \<Longrightarrow> has_row d' t' k"
  by (auto simp: has_row_def version_key_def request_of_def)

lemma version_key_request: "request_of t' = request_of t \<Longrightarrow> uuid_in d' = uuid_in d \<Longrightarrow> version_key d' t' k = version_key d t k"
  by (simp add: version_key_def request_of_def)

lemma tick_calls_ok:
  assumes ok: "calls_ok ts d" and i: "i < length ts" and tick: "save_tick (ts ! i) d = (t', d')"
  shows "calls_ok (ts[i := t']) d' \<and> request_of t' = request_of (ts ! i) \<and> uuid_in d' = uuid_in d"
proof -
  let ?ts = "ts[i := t']"
  have "call_ok (ts ! i)" using ok i by (simp add: calls_ok_def)
  from tick this show ?thesis
  proof (cases rule: save_tick_cases)
    case still
    have req: "request_of (?ts ! j) = request_of (ts ! j)" and le: "inserted_of (?ts ! j) \<le> inserted_of (ts ! j)"
      and "call_ok (?ts ! j)" if "j < length ts" for j
      using still that ok by (cases "j = i"; simp add: calls_ok_def)+
    moreover have "has_row d' (?ts ! j) k" if "j < length ts" "k < inserted_of (?ts ! j)" for j k
    proof -
      have "has_row d (ts ! j) k" using ok that le [OF that(1)] unfolding calls_ok_def by (meson order_less_le_trans)
      then show ?thesis by (rule has_row_mono) (use still req that in auto)
    qed
    moreover have "version_key d' (?ts ! j) k \<noteq> version_key d' (?ts ! l) m"
      if "j < length ts" "l < length ts" "j \<noteq> l" "k < inserted_of (?ts ! j)" "m < inserted_of (?ts ! l)" for j l k m
    proof -
      have "version_key d (ts ! j) k \<noteq> version_key d (ts ! l) m"
        using ok that le unfolding calls_ok_def by (meson order_less_le_trans)
      then show ?thesis using version_key_request [OF req still(5)] that by simp
    qed
    ultimately show ?thesis using still by (simp add: calls_ok_def)
  next
    case (insert u eid)
    let ?n = "inserted_of (ts ! i)" and ?r = "row_of_event (next_id d) eid u (to_save (ts ! i) ! inserted_of (ts ! i))"
    have req: "request_of (?ts ! j) = request_of (ts ! j)" and ok': "call_ok (?ts ! j)" if "j < length ts" for j
      using insert that ok by (cases "j = i"; simp add: calls_ok_def)+
    have count: "inserted_of (?ts ! j) = (if j = i then Suc ?n else inserted_of (ts ! j))" if "j < length ts" for j
      using insert that by simp
    have new: "(Some (row_aggregate_id ?r), row_version ?r) = version_key d (ts ! i) ?n" "row_event_data ?r = event_to_dict (to_save (ts ! i) ! ?n)"
      using insert by (simp_all add: row_of_event_def version_key_def)
    have old: "has_row d (ts ! j) k" if "j < length ts" "k < inserted_of (ts ! j)" for j k
      using ok that by (simp add: calls_ok_def)
    have row: "has_row d' (?ts ! j) k" if "j < length ts" "k < inserted_of (?ts ! j)" for j k
    proof (cases "j = i \<and> k = ?n")
      case True
      then have "has_row d' (ts ! i) k" using new insert by (auto simp: has_row_def version_key_def)
      then show ?thesis by (rule has_row_mono) (use insert req True that in auto)
    next
      case False
      then have "has_row d (ts ! j) k" using that count [OF that(1)] by (intro old) (auto split: if_splits)
      then show ?thesis by (rule has_row_mono) (use insert req that in auto)
    qed
    have fresh: "version_key d (ts ! j) k \<noteq> version_key d (ts ! i) ?n" if "j < length ts" "k < inserted_of (ts ! j)" for j k
    proof
      have row: "has_row d (ts ! j) k" by (rule old [OF that])
      assume "version_key d (ts ! j) k = version_key d (ts ! i) ?n"
      moreover obtain r where "r \<in> set (rows d)" "(Some (row_aggregate_id r), row_version r) = version_key d (ts ! j) k"
        using row unfolding has_row_def by blast
      ultimately have "(Some (row_aggregate_id r), row_version r) = (Some (row_aggregate_id ?r), row_version ?r)"
        unfolding new(1) by simp
      then have "(row_aggregate_id ?r, row_version ?r) = (row_aggregate_id r, row_version r)" by simp
      then have "(row_aggregate_id ?r, row_version ?r) \<in> (\<lambda>r. (row_aggregate_id r, row_version r)) ` set (rows d)"
        by (rule image_eqI) (rule \<open>r \<in> set (rows d)\<close>)
      then show False using insert(7) unfolding row_admissible_def by simp
    qed
    have "version_key d (ts ! j) k \<noteq> version_key d (ts ! l) m"
      if jl: "j < length ts" "l < length ts" "j \<noteq> l" and k: "k < inserted_of (?ts ! j)" and m: "m < inserted_of (?ts ! l)" for j l k m
    proof -
      consider "j = i" "k = ?n" | "l = i" "m = ?n" | "k < inserted_of (ts ! j)" "m < inserted_of (ts ! l)"
        using k m count jl by (metis less_Suc_eq)
      then show ?thesis
      proof cases
        case 1
        then show ?thesis using fresh [of l m] m jl count [of l] by auto
      next
        case 2
        then show ?thesis using fresh [of j k] k jl count [of j] by auto
      next
        case 3
        then show ?thesis using ok jl unfolding calls_ok_def by blast
      qed
    qed
    then have "version_key d' (?ts ! j) k \<noteq> version_key d' (?ts ! l) m"
      if "j < length ts" "l < length ts" "j \<noteq> l" "k < inserted_of (?ts ! j)" "m < inserted_of (?ts ! l)" for j l k m
      using that version_key_request [OF req insert(9)] by simp
    then show ?thesis using row ok' insert by (simp add: calls_ok_def)
  qed
qed

lemma interleave_ok:
  assumes "calls_ok ts d" and "interleave is ts d = (ts', d')"
  shows "calls_ok ts' d' \<and> map request_of ts' = map request_of ts \<and> uuid_in d' = uuid_in d"
proof (rule saves.run_keeps [OF _ _ assms(2)])
  show "calls_ok (us[i := t]) e' \<and> map request_of (us[i := t]) = map request_of ts \<and> uuid_in e' = uuid_in d"
    if "calls_ok us e \<and> map request_of us = map request_of ts \<and> uuid_in e = uuid_in d" "i < length us"
      "save_tick (us ! i) e = (t, e')" for us e i t e'
    using tick_calls_ok [of us e i t e'] that by (metis list_update_id map_update nth_map)
qed (use assms(1) in simp)

lemma interleave_db_ok: "interleave is ts d = (ts', d') \<Longrightarrow> db_ok d \<Longrightarrow> db_ok d'"
proof (erule saves.run_keeps [rotated 2])
  show "db_ok e'" if "db_ok e" "save_tick (us ! i) e = (t, e')" for us e i t e'
    using that unfolding save_tick_def get_current_version_def with_uuid_def
    by (auto split: save_point.splits option.splits prod.splits sum.splits if_splits intro: db_ok_insert_event)
qed

text \<open>Calls that have just been made.\<close>

lemma new_calls_ok: "calls_ok (map (\<lambda>(a, es, v). call_save a es v) reqs) d"
proof -
  have "call_ok (call_save a es v)" "inserted_of (call_save a es v) = 0" for a es v
    by (simp_all add: call_save_def call_ok_def inserted_of_def)
  then show ?thesis by (simp add: calls_ok_def case_prod_beta)
qed

lemma interleaved_requests:
  assumes "interleave is (map (\<lambda>(a, es, v). call_save a es v) reqs) d = (ts, d')"
  shows "calls_ok ts d'" "length ts = length reqs" "i < length reqs \<Longrightarrow> request_of (ts ! i) = reqs ! i"
    "uuid_in d' = uuid_in d"
proof -
  note ok = interleave_ok [OF new_calls_ok assms]
  show "calls_ok ts d'" "uuid_in d' = uuid_in d" using ok by simp_all
  have "map request_of ts = map request_of (map (\<lambda>(a, es, v). call_save a es v) reqs)" using ok by blast
  also have "\<dots> = reqs" by (simp add: case_prod_beta request_of_def call_save_def comp_def)
  finally have r: "map request_of ts = reqs" .
  then show l: "length ts = length reqs" by (metis length_map)
  show "request_of (ts ! i) = reqs ! i" if "i < length reqs" using r l that by (metis nth_map)
qed


section \<open>What a lost race costs\<close>

text \<open>Once the transaction is aborted no call succeeds any more that has not yet.\<close>

lemma aborted_tick:
  assumes "save_tick t d = (t', d')" "aborted d"
  shows "aborted d' \<and> rows d' = rows d \<and> (at_point t' = Saved (Inr ()) \<longrightarrow> at_point t = Saved (Inr ()))"
proof -
  have "insert_event agg e d = (res, d1) \<Longrightarrow> d1 = d \<and> (\<exists>x. res = Inl x)" for agg e res d1
    using assms(2) by (auto simp: insert_event_def with_uuid_def db_error_def split: option.splits)
  moreover have "get_current_version agg d = (res, d1) \<Longrightarrow> d1 = d \<and> (\<exists>x. res = Inl x)" for agg res d1
    using assms(2) by (auto simp: get_current_version_def with_uuid_def db_error_def split: option.splits)
  ultimately show ?thesis using assms unfolding save_tick_def
    by (fastforce split: save_point.splits prod.splits sum.splits)
qed

lemma aborted_interleave:
  assumes "interleave is ts d = (ts', d')" "aborted d" "i < length ts" "at_point (ts ! i) \<noteq> Saved (Inr ())"
  shows "aborted d' \<and> rows d' = rows d \<and> at_point (ts' ! i) \<noteq> Saved (Inr ())"
proof -
  have "aborted d' \<and> rows d' = rows d \<and> i < length ts' \<and> at_point (ts' ! i) \<noteq> Saved (Inr ())"
  proof (rule saves.run_keeps [OF _ _ assms(1)])
    show "aborted e' \<and> rows e' = rows d \<and> i < length (us[j := t]) \<and> at_point (us[j := t] ! i) \<noteq> Saved (Inr ())"
      if "aborted e \<and> rows e = rows d \<and> i < length us \<and> at_point (us ! i) \<noteq> Saved (Inr ())" "j < length us"
        "save_tick (us ! j) e = (t, e')" for us e j t e'
      using aborted_tick [OF that(3)] that(1,2) by (cases "j = i") auto
  qed (use assms in simp)
  then show ?thesis by blast
qed

text \<open>C34: What losing a race does. A call that has passed the version check when another one stores the event of
  its version does not get the conflict that \<open>save_events\<close> promises but an error of the database, and the
  transaction of the session that all calls share is aborted: none of them succeeds any more, not even
  the one that was first, if it has events left to insert; and nothing more is stored.\<close>

theorem lost_race_aborts_session:
  assumes "i < length ts" "at_point (ts ! i) = Inserting k" "\<not> aborted d"
    and "uuid_in d (for_aggregate (ts ! i)) = Some u" "uuid_in d (event_id (to_save (ts ! i) ! k)) = Some eid"
    and "fits_int32 (ev_version (to_save (ts ! i) ! k))"
    and "\<exists>r \<in> set (rows d). row_aggregate_id r = u \<and> row_version r = ev_version (to_save (ts ! i) ! k)"
    and "interleave (i # is) ts d = (ts', d')"
  shows "(\<exists>m. at_point (fst (save_tick (ts ! i) d)) = Saved (Inl (DBError m))) \<and> rows d' = rows d
    \<and> (\<forall>j < length ts. at_point (ts' ! j) = Saved (Inr ()) \<longrightarrow> at_point (ts ! j) = Saved (Inr ()))"
proof -
  let ?e = "to_save (ts ! i) ! k"
  have dup: "\<not> row_admissible (row_of_event (next_id d) eid u ?e) (rows d)"
    using assms(7) by (force simp: row_admissible_def row_of_event_def)
  then have tick: "save_tick (ts ! i) d = ((ts ! i)\<lparr>at_point := Saved (db_error ''constraint violation'')\<rparr>,
      d\<lparr>next_id := next_id d + 1, aborted := True\<rparr>)"
    using assms(2-6) by (simp add: save_tick_def insert_event_def with_uuid_def db_error_def Let_def)
  let ?t = "(ts ! i)\<lparr>at_point := Saved (db_error ''constraint violation'')\<rparr>"
  let ?d = "d\<lparr>next_id := next_id d + 1, aborted := True\<rparr>"
  have run: "interleave is (ts[i := ?t]) ?d = (ts', d')" using assms(1,8) tick by simp
  have "at_point (ts' ! j) \<noteq> Saved (Inr ())" if "j < length ts" "at_point (ts ! j) \<noteq> Saved (Inr ())" for j
  proof -
    have "at_point (ts[i := ?t] ! j) \<noteq> Saved (Inr ())" using that by (cases "j = i") (simp_all add: db_error_def)
    from aborted_interleave [OF run _ _ this] that(1) show ?thesis by simp
  qed
  moreover have "rows d' = rows d"
    using aborted_interleave [OF run, of i] assms(1) by (simp add: db_error_def)
  ultimately show ?thesis using tick by (auto simp: db_error_def)
qed

end
