(* ===== verification/Race_Scenario.thy ===== *)
theory Race_Scenario
  imports Concurrent_Saves Store_Scenario
begin

text \<open>
  Two writers of one task: the first appends two events after version 0, the second one event of its own
  after the same version. Both have read the version before either has stored anything.
\<close>

definition rival_created :: task_event where
  "rival_created = login_created\<lparr>event_id := ''e7''\<rparr>"

definition writers :: "(string \<times> task_event list \<times> int) list" where
  "writers = [(''t1'', [login_created, login_assigned], 0), (''t1'', [rival_created], 0)]"

abbreviation writer_calls :: "save_call list" where
  "writer_calls \<equiv> map (\<lambda>(a, es, v). call_save a es v) writers"

lemmas race_defs = save_tick_def get_current_version_def with_uuid_def max_version_def insert_event_def
  row_admissible_def row_of_event_def fits_int32_def rival_created_def writers_def call_save_def db_error_def store_defs Let_def

text \<open>The first writer inserts both events before the second inserts one.\<close>

definition first_wins :: "save_call list \<times> db" where
  "first_wins = interleave [0, 1, 0, 0, 1] writer_calls empty_db"


text \<open>The first writer has inserted one of its events when the second tries its own: neither succeeds.\<close>

definition half_way :: "save_call list \<times> db" where
  "half_way = interleave [0, 1, 0] writer_calls empty_db"

lemma lost_race_aborts_session_witness:
  "at_point (fst (interleave [1, 0] (fst half_way) (snd half_way)) ! 0) \<noteq> Saved (Inr ())
   \<and> at_point (fst (interleave [1, 0] (fst half_way) (snd half_way)) ! 1) \<noteq> Saved (Inr ())"
proof -
  let ?ts = "fst half_way" and ?d = "snd half_way"
  have at: "length ?ts = 2" "at_point (?ts ! 0) = Inserting 1" "at_point (?ts ! 1) = Inserting 0"
    "to_save (?ts ! 1) = [rival_created]" "for_aggregate (?ts ! 1) = ''t1''"
    and db: "\<not> aborted ?d" "uuid_in ?d = Some"
    "\<exists>r \<in> set (rows ?d). row_aggregate_id r = ''t1'' \<and> row_version r = 1"
    by (simp_all add: half_way_def race_defs)
  obtain ts' d' where run: "interleave [1, 0] ?ts ?d = (ts', d')" by fastforce
  have "\<forall>j < length ?ts. at_point (ts' ! j) = Saved (Inr ()) \<longrightarrow> at_point (?ts ! j) = Saved (Inr ())"
    using lost_race_aborts_session [of 1 ?ts 0 ?d "''t1''" "''e7''" "[0]" ts' d'] at db run
    by (auto simp: rival_created_def login_created_def fits_int32_def)
  then show ?thesis using run at by auto
qed

end
