(* ===== verification/Shutdown_Race.thy ===== *)
theory Shutdown_Race
  imports Lifecycle_Facts
begin

text \<open>
  The end of a task service as the tasks of its event loop take part in it: the main task, which runs
  \<open>TaskServiceApp.start\<close> and awaits the server task; the server task, which runs
  \<open>TaskGrpcServer.serve_forever\<close>; and the task that a signal starts, which runs \<open>shutdown\<close>. Each is a
  program point, its await; a tick lets the awaited call end and runs the code up to the next await. The
  tasks start when \<open>initialize\<close> has succeeded and the server task has run up to its first await, which it
  does before any signal is handled. When the main task returns, \<open>asyncio.run\<close> cancels the tasks that are left.
\<close>

text \<open>A \<open>shutdown\<close> that has begun: the calls it still awaits, the first of them now.\<close>

type_synonym stop_calls = "call list"

datatype main_point = AwaitServer | MainStopping "exn option" stop_calls | Returned "exn option"
datatype server_point = Starting | Serving | ServerStopping | ServerEnded "exn option"
datatype signal_point = NoSignal | SignalStopping stop_calls | SignalEnded "exn option"

record 'w race =
  is_running :: bool
  main :: main_point
  server :: server_point
  handler :: signal_point
  returned :: "call list"
  surroundings :: 'w

definition started_race :: "'w \<Rightarrow> 'w race" where
  "started_race w = \<lparr>is_running = True, main = AwaitServer, server = Starting, handler = NoSignal, returned = [],
     surroundings = w\<rparr>"

text \<open>An awaited call ends; \<open>returned\<close> keeps those that returned.\<close>

definition end_call :: "'w effects \<Rightarrow> call \<Rightarrow> 'w race \<Rightarrow> exn option \<times> 'w race" where
  "end_call ext c s = (case ext c (surroundings s) of
     (None, w) \<Rightarrow> (None, s\<lparr>surroundings := w, returned := returned s @ [c]\<rparr>)
   | (Some e, w) \<Rightarrow> (Some e, s\<lparr>surroundings := w\<rparr>))"

text \<open>
  The awaits of \<open>shutdown\<close>, after it has cleared the flag. \<open>ObservabilityManager.shutdown\<close> is an ordinary call
  and runs in the tick of the last await.
\<close>

definition stop_sequence :: stop_calls where
  "stop_sequence = [StopServer, StopPublisher, DisposeEngine]"

fun stop_tick :: "'w effects \<Rightarrow> stop_calls \<Rightarrow> 'w race \<Rightarrow> (exn option + stop_calls) \<times> 'w race" where
  "stop_tick ext [] s = (Inl None, s)"
| "stop_tick ext (c # cs) s = (case end_call ext c s of
     (Some e, s) \<Rightarrow> (Inl (Some e), s)
   | (None, s) \<Rightarrow> if cs \<noteq> [] then (Inr cs, s)
       else (case end_call ext ShutdownTelemetry s of (err, s) \<Rightarrow> (Inl err, s)))"

text \<open>The main task returns or raises.\<close>

definition return_main :: "exn option \<Rightarrow> 'w race \<Rightarrow> 'w race" where
  "return_main err s = s\<lparr>main := Returned err,
     handler := (case handler s of SignalStopping _ \<Rightarrow> SignalEnded (Some CancelledError) | p \<Rightarrow> p)\<rparr>"

text \<open>\<open>err\<close> is the exception of the server task, which goes on after the \<open>finally\<close> clause.\<close>

definition main_tick :: "'w effects \<Rightarrow> 'w race \<Rightarrow> 'w race" where
  "main_tick ext s = (case main s of
     AwaitServer \<Rightarrow> (case server s of
         ServerEnded err \<Rightarrow> (let err = (if err = Some CancelledError then None else err) in
           if is_running s then s\<lparr>is_running := False, main := MainStopping err stop_sequence\<rparr>
           else return_main err s)
       | _ \<Rightarrow> s)
   | MainStopping err cs \<Rightarrow> (case stop_tick ext cs s of
         (Inr cs, s) \<Rightarrow> s\<lparr>main := MainStopping err cs\<rparr>
       | (Inl None, s) \<Rightarrow> return_main err s
       | (Inl (Some e), s) \<Rightarrow> return_main (Some e) s)
   | Returned _ \<Rightarrow> s)"

definition server_tick :: "'w effects \<Rightarrow> 'w race \<Rightarrow> 'w race" where
  "server_tick ext s = (case server s of
     Starting \<Rightarrow> (case end_call ext StartServer s of
         (None, s) \<Rightarrow> s\<lparr>server := Serving\<rparr> | (err, s) \<Rightarrow> s\<lparr>server := ServerEnded err\<rparr>)
   | Serving \<Rightarrow> (case end_call ext WaitForTermination s of
         (Some CancelledError, s) \<Rightarrow> s\<lparr>server := ServerStopping\<rparr> | (err, s) \<Rightarrow> s\<lparr>server := ServerEnded err\<rparr>)
   | ServerStopping \<Rightarrow> (case end_call ext StopServer s of (err, s) \<Rightarrow> s\<lparr>server := ServerEnded err\<rparr>)
   | ServerEnded _ \<Rightarrow> s)"

text \<open>A signal starts a task that runs \<open>shutdown\<close>; a second one finds the flag cleared.\<close>

definition signal_arrives :: "'w race \<Rightarrow> 'w race" where
  "signal_arrives s = (if is_running s then s\<lparr>is_running := False, handler := SignalStopping stop_sequence\<rparr> else s)"

definition handler_tick :: "'w effects \<Rightarrow> 'w race \<Rightarrow> 'w race" where
  "handler_tick ext s = (case handler s of
     SignalStopping cs \<Rightarrow> (case stop_tick ext cs s of
         (Inr cs, s) \<Rightarrow> s\<lparr>handler := SignalStopping cs\<rparr> | (Inl err, s) \<Rightarrow> s\<lparr>handler := SignalEnded err\<rparr>)
   | _ \<Rightarrow> s)"

datatype race_event = Main | Server | Signal | Handler

fun race_step :: "'w effects \<Rightarrow> race_event \<Rightarrow> 'w race \<Rightarrow> 'w race" where
  "race_step ext Main s = main_tick ext s"
| "race_step ext Server s = server_tick ext s"
| "race_step ext Signal s = signal_arrives s"
| "race_step ext Handler s = handler_tick ext s"

text \<open>After the main task has returned nothing runs any more.\<close>

fun race_run :: "'w effects \<Rightarrow> race_event list \<Rightarrow> 'w race \<Rightarrow> 'w race" where
  "race_run ext [] s = s"
| "race_run ext (e # es) s = (case main s of Returned _ \<Rightarrow> s | _ \<Rightarrow> race_run ext es (race_step ext e s))"

section \<open>Who stops what\<close>

text \<open>What has been released, by the calls that have returned.\<close>

definition released :: "'w race \<Rightarrow> call list" where
  "released s = releases (returned s)"

text \<open>What a \<open>shutdown\<close> at this await still releases, if its calls return.\<close>

definition to_release :: "stop_calls \<Rightarrow> call list" where
  "to_release cs = releases (cs @ [ShutdownTelemetry])"

abbreviation everything :: "call list" where
  "everything \<equiv> [StopPublisher, DisposeEngine, ShutdownTelemetry]"

lemma end_call_spec:
  assumes "end_call ext c s = (err, s')"
  shows "is_running s' = is_running s" "main s' = main s" "server s' = server s" "handler s' = handler s"
    "returned s' = (if err = None then returned s @ [c] else returned s)" "err = fst (ext c (surroundings s))"
  using assms by (auto simp: end_call_def split: prod.splits option.splits)

text \<open>A task runs \<open>shutdown\<close> and stands before the calls \<open>cs\<close>; what it has released and what it still releases.\<close>

definition stopping :: "stop_calls \<Rightarrow> 'w race \<Rightarrow> bool" where
  "stopping cs s = (cs \<in> {[StopServer, StopPublisher, DisposeEngine], [StopPublisher, DisposeEngine], [DisposeEngine]}
     \<and> released s @ to_release cs = everything)"

definition same_tasks :: "'w race \<Rightarrow> 'w race \<Rightarrow> bool" where
  "same_tasks s s' = (is_running s' = is_running s \<and> main s' = main s \<and> server s' = server s \<and> handler s' = handler s)"

lemma end_call_same: "end_call ext c s = (err, s') \<Longrightarrow> same_tasks s s'"
  by (simp add: same_tasks_def end_call_spec)

lemma end_call_released:
  "end_call ext c s = (err, s') \<Longrightarrow> released s' = (if err = None then released s @ releases [c] else released s)"
  by (auto simp: released_def releases_append end_call_spec(5))

lemma end_call_stops:
  "end_call ext c s = (Some e, s') \<Longrightarrow> c \<in> {StopServer, StopPublisher, DisposeEngine, ShutdownTelemetry} \<Longrightarrow> \<not> stops ext"
  using end_call_spec(6) [of ext c s "Some e" s'] by (auto simp: stops_def)

text \<open>One await of \<open>shutdown\<close>: it goes on with the next, or it has ended, with everything released or by an exception.\<close>

lemma stop_tick_spec:
  assumes "stop_tick ext cs s = (r, s')" "stopping cs s"
  shows "same_tasks s s' \<and> prefix (released s') everything
    \<and> (case r of Inr cs' \<Rightarrow> stopping cs' s'
       | Inl err \<Rightarrow> (err = None \<longrightarrow> released s' = everything) \<and> (stops ext \<longrightarrow> err = None))"
proof -
  obtain c ds where cs: "cs = c # ds" using assms(2) by (cases cs) (auto simp: stopping_def)
  then have c: "c \<in> {StopServer, StopPublisher, DisposeEngine}" using assms(2) by (auto simp: stopping_def)
  obtain x s1 where s1: "end_call ext c s = (x, s1)" by fastforce
  note e1 = end_call_same [OF s1] end_call_released [OF s1]
  have pre: "prefix (released s) everything" using assms(2) unfolding stopping_def by (metis prefixI)
  show ?thesis
  proof (cases x)
    case (Some e)
    then have "r = Inl (Some e)" "s' = s1" using assms(1) cs s1 by auto
    moreover have "\<not> stops ext" using end_call_stops s1 Some c by blast
    ultimately show ?thesis using Some e1 pre by simp
  next
    case None
    show ?thesis
    proof (cases "ds = []")
      case False
      then have "r = Inr ds" "s' = s1" using assms(1) cs s1 None by auto
      moreover have "stopping ds s1" using assms(2) cs e1(2) None False
        by (auto simp: stopping_def to_release_def)
      moreover have "prefix (released s1) everything" using calculation(3) unfolding stopping_def by (metis prefixI)
      ultimately show ?thesis using e1(1) by simp
    next
      case True
      then obtain err where e: "end_call ext ShutdownTelemetry s1 = (err, s')" "r = Inl err"
        using assms(1) cs s1 None by (auto split: prod.splits)
      have "released s1 @ [ShutdownTelemetry] = everything"
        using assms(2) cs e1(2) None True by (auto simp: stopping_def to_release_def)
      then have "released s1 = [StopPublisher, DisposeEngine]" by simp
      moreover have "stops ext \<longrightarrow> err = None" using end_call_stops [of ext ShutdownTelemetry s1 _ s'] e(1)
        by (cases err) auto
      ultimately show ?thesis
        using e(2) e1(1) end_call_same [OF e(1)] end_call_released [OF e(1)] by (auto simp: same_tasks_def)
    qed
  qed
qed

text \<open>
  The service in any schedule. While the flag is set nothing is released and nobody stops it; after that
  one task alone, the main task or the one of the first signal, has run or runs \<open>shutdown\<close>.
\<close>

definition race_ok :: "'w effects \<Rightarrow> 'w race \<Rightarrow> bool" where
  "race_ok ext s = (prefix (released s) everything \<and> (case main s of
     AwaitServer \<Rightarrow> (case handler s of
         NoSignal \<Rightarrow> is_running s \<and> released s = []
       | SignalStopping cs \<Rightarrow> \<not> is_running s \<and> stopping cs s
       | SignalEnded err \<Rightarrow> \<not> is_running s \<and> (stops ext \<longrightarrow> released s = everything))
   | MainStopping _ cs \<Rightarrow> \<not> is_running s \<and> handler s = NoSignal \<and> stopping cs s
   | Returned _ \<Rightarrow> \<not> is_running s \<and> (case handler s of
         NoSignal \<Rightarrow> stops ext \<longrightarrow> released s = everything
       | SignalStopping cs \<Rightarrow> False
       | SignalEnded err \<Rightarrow> err \<noteq> Some CancelledError \<longrightarrow> stops ext \<longrightarrow> released s = everything)))"

lemma released_update [simp]:
  "released (s\<lparr>is_running := b\<rparr>) = released s" "released (s\<lparr>main := m\<rparr>) = released s"
  "released (s\<lparr>server := v\<rparr>) = released s" "released (s\<lparr>handler := h\<rparr>) = released s"
  by (simp_all add: released_def)

lemma stopping_update [simp]:
  "stopping cs (s\<lparr>is_running := b\<rparr>) = stopping cs s" "stopping cs (s\<lparr>main := m\<rparr>) = stopping cs s"
  "stopping cs (s\<lparr>server := v\<rparr>) = stopping cs s" "stopping cs (s\<lparr>handler := h\<rparr>) = stopping cs s"
  by (simp_all add: stopping_def)

lemma stopping_begins: "released s = [] \<Longrightarrow> stopping stop_sequence s"
  by (simp add: stopping_def stop_sequence_def to_release_def)

lemma race_ok_started: "race_ok ext (started_race w)"
  by (simp add: race_ok_def started_race_def released_def)

lemma race_ok_server_only:
  "race_ok ext s \<Longrightarrow> is_running s' = is_running s \<Longrightarrow> main s' = main s \<Longrightarrow> handler s' = handler s
    \<Longrightarrow> released s' = released s \<Longrightarrow> race_ok ext s'"
  by (simp add: race_ok_def stopping_def split: main_point.splits signal_point.splits)

lemma server_tick_ok:
  assumes "race_ok ext s"
  shows "race_ok ext (server_tick ext s)"
proof -
  have *: "same_tasks s s1 \<and> released s1 = released s"
    if "end_call ext c s = (x, s1)" "c \<in> {StartServer, WaitForTermination, StopServer}" for c x s1
    using end_call_same [OF that(1)] end_call_released [OF that(1)] that(2) by (auto split: if_splits)
  show ?thesis
    by (rule race_ok_server_only [OF assms])
      (auto simp: server_tick_def same_tasks_def dest!: * split: server_point.splits prod.splits option.splits exn.splits)
qed

lemma signal_arrives_ok: "race_ok ext s \<Longrightarrow> race_ok ext (signal_arrives s)"
  by (auto simp: race_ok_def signal_arrives_def stopping_begins split: main_point.splits signal_point.splits)

lemma handler_tick_ok:
  assumes "race_ok ext s"
  shows "race_ok ext (handler_tick ext s)"
proof (cases "handler s")
  case (SignalStopping cs)
  then have s: "main s = AwaitServer" "\<not> is_running s" "stopping cs s"
    using assms by (auto simp: race_ok_def split: main_point.splits)
  obtain r s1 where t: "stop_tick ext cs s = (r, s1)" by fastforce
  show ?thesis using stop_tick_spec [OF t s(3)] s t SignalStopping
    by (auto simp: handler_tick_def race_ok_def same_tasks_def split: sum.splits)
qed (use assms in \<open>simp_all add: handler_tick_def\<close>)

lemma return_main_ok:
  assumes "race_ok ext s" "main s = AwaitServer" "\<not> is_running s"
  shows "race_ok ext (return_main err s)"
  using assms by (auto simp: race_ok_def return_main_def split: signal_point.splits)

lemma main_tick_ok:
  assumes "race_ok ext s"
  shows "race_ok ext (main_tick ext s)"
proof (cases "main s")
  case AwaitServer
  show ?thesis
  proof (cases "is_running s")
    case True
    then have "released s = []" "handler s = NoSignal" "prefix (released s) everything"
      using assms AwaitServer by (auto simp: race_ok_def split: signal_point.splits)
    then have "race_ok ext (s\<lparr>is_running := False, main := MainStopping err stop_sequence\<rparr>)" for err
      by (simp add: race_ok_def stopping_begins)
    then show ?thesis using assms AwaitServer True by (simp add: main_tick_def Let_def split: server_point.split)
  next
    case False
    then show ?thesis using assms return_main_ok [OF assms AwaitServer False] AwaitServer
      by (simp add: main_tick_def Let_def split: server_point.split)
  qed
next
  case (MainStopping err cs)
  then have s: "handler s = NoSignal" "\<not> is_running s" "stopping cs s" using assms by (auto simp: race_ok_def)
  obtain r s1 where t: "stop_tick ext cs s = (r, s1)" by fastforce
  show ?thesis using stop_tick_spec [OF t s(3)] s t MainStopping
    by (auto simp: main_tick_def race_ok_def same_tasks_def return_main_def split: sum.splits option.splits)
qed (use assms in \<open>simp add: main_tick_def\<close>)

lemma race_run_ok: "race_ok ext s \<Longrightarrow> race_ok ext (race_run ext es s)"
proof (induction ext es s rule: race_run.induct)
  case (2 ext e es s)
  have "race_ok ext (race_step ext e s)"
    using 2(3) by (cases e) (simp_all add: main_tick_ok server_tick_ok signal_arrives_ok handler_tick_ok)
  then show ?case using 2 by (simp split: main_point.split)
qed simp

text \<open>C3: The end of a task service, whatever the order in which its tasks run and signals arrive. At any time
  what has been released is a beginning of publisher, engine, telemetry: each at most once, and in this
  order. When the main task has returned and the stopping calls work, everything has been released, unless
  a signal arrived and its task was cancelled in its \<open>shutdown\<close>.\<close>

theorem interleaved_shutdown:
  assumes "s = race_run ext es (started_race w)"
  shows "prefix (released s) [StopPublisher, DisposeEngine, ShutdownTelemetry]
    \<and> (stops ext \<and> main s = Returned err \<longrightarrow> handler s = SignalEnded (Some CancelledError)
        \<or> released s = [StopPublisher, DisposeEngine, ShutdownTelemetry])"
  using race_run_ok [OF race_ok_started [of ext w], of es] assms
  by (auto simp: race_ok_def split: signal_point.splits)

lemma interleaved_shutdown_witness:
  "let s = race_run (\<lambda>c w. (None, w)) [Server, Server, Main, Signal, Main, Main, Main] (started_race ()) in
     main s = Returned None \<and> prefix (released s) [StopPublisher, DisposeEngine, ShutdownTelemetry]
     \<and> released s = [StopPublisher, DisposeEngine, ShutdownTelemetry]"
proof -
  define ext :: "unit effects" where "ext = (\<lambda>c w. (None, w))"
  define s where "s = race_run ext [Server, Server, Main, Signal, Main, Main, Main] (started_race ())"
  have s: "main s = Returned None" "handler s = NoSignal"
    by (simp_all add: s_def ext_def started_race_def server_tick_def main_tick_def signal_arrives_def end_call_def
      return_main_def stop_sequence_def)
  then show ?thesis using interleaved_shutdown [OF s_def] by (simp add: s_def ext_def stops_def)
qed

text \<open>A signal can end the service with nothing released, though no call fails: the call of the signal's
  task that stops the server returns and the server ends, in either order; the main task sees the end of the
  server before the other task has stopped the publisher, finds the flag cleared, and returns, which cancels
  that task.\<close>

theorem shutdown_may_release_nothing:
  assumes "es \<in> {[Handler, Server], [Server, Handler], [Server]}"
  shows "let s = race_run (\<lambda>c w. (None, w)) ([Server, Signal] @ es @ [Main]) (started_race w) in
     main s = Returned None \<and> released s = [] \<and> handler s = SignalEnded (Some CancelledError)"
  using assms by (auto simp: Let_def started_race_def server_tick_def main_tick_def signal_arrives_def handler_tick_def
    end_call_def return_main_def stop_sequence_def released_def)

lemma shutdown_may_release_nothing_witness:
  "let s = race_run (\<lambda>c w. (None, w)) ([Server, Signal] @ [Handler, Server] @ [Main]) (started_race ()) in
     main s = Returned None \<and> released s = [] \<and> handler s = SignalEnded (Some CancelledError)"
  by (rule shutdown_may_release_nothing) simp

end
