(* ===== verification/Workflow_Shutdown.thy ===== *)
theory Workflow_Shutdown
  imports Workflow_Service
begin

text \<open>
  The end of a workflow service as the two tasks of its event loop take part in it: the main task, which runs
  \<open>WorkflowServiceApp.start\<close> and sleeps a second at a time while the service is running, and the task that a
  signal starts, which runs \<open>shutdown\<close> and sleeps five seconds if there are active sagas. Each sleeps until
  some time; the event loop wakes the one whose time is earlier, at that time or later. Times are in
  microseconds. When the main task returns, \<open>asyncio.run\<close> cancels the tasks that are left, those of the
  sagas among them.
\<close>

datatype wf_main = Looping int | MainReturned
datatype wf_handler = NoShutdown | WaitingForSagas int | ShutDown | CutOff

record wf_race =
  loop_time :: int
  wf_running :: bool
  wf_main :: wf_main
  wf_handler :: wf_handler
  telemetry_up :: bool

definition started_workflows :: "int \<Rightarrow> wf_race" where
  "started_workflows t = \<lparr>loop_time = t, wf_running = True, wf_main = Looping (t + 1000000), wf_handler = NoShutdown,
     telemetry_up = True\<rparr>"

text \<open>
  The loop wakes: while the service runs it sleeps again, and otherwise the \<open>finally\<close> clause calls \<open>shutdown\<close>,
  which returns at once, and the task ends.
\<close>

definition main_wakes :: "wf_race \<Rightarrow> wf_race" where
  "main_wakes s = (if wf_running s then s\<lparr>wf_main := Looping (loop_time s + 1000000)\<rparr>
     else s\<lparr>wf_main := MainReturned,
       wf_handler := (case wf_handler s of WaitingForSagas _ \<Rightarrow> CutOff | p \<Rightarrow> p)\<rparr>)"

definition handler_wakes :: "wf_race \<Rightarrow> wf_race" where
  "handler_wakes s = s\<lparr>wf_handler := ShutDown, telemetry_up := False\<rparr>"

text \<open>\<open>shutdown\<close> up to its first await.\<close>

definition shutdown_begins :: "'o orchestrator \<Rightarrow> wf_race \<Rightarrow> wf_race" where
  "shutdown_begins orch s = (if \<not> wf_running s then s
     else if get_active_sagas orch \<noteq> []
       then s\<lparr>wf_running := False, wf_handler := WaitingForSagas (loop_time s + 5000000)\<rparr>
       else s\<lparr>wf_running := False, wf_handler := ShutDown, telemetry_up := False\<rparr>)"

text \<open>The earlier timer is handled, or a signal, at this time or as soon after it as the event loop gets to it.\<close>

datatype 'o wf_event = Timer int | SignalAt int "'o orchestrator"

fun wf_step :: "'o wf_event \<Rightarrow> wf_race \<Rightarrow> wf_race" where
  "wf_step (Timer t) s = (case (wf_main s, wf_handler s) of
     (MainReturned, _) \<Rightarrow> s
   | (Looping d, WaitingForSagas e) \<Rightarrow> if d \<le> e then main_wakes (s\<lparr>loop_time := max t (max d (loop_time s))\<rparr>)
       else handler_wakes (s\<lparr>loop_time := max t (max e (loop_time s))\<rparr>)
   | (Looping d, _) \<Rightarrow> main_wakes (s\<lparr>loop_time := max t (max d (loop_time s))\<rparr>))"
| "wf_step (SignalAt t orch) s = (if wf_main s = MainReturned then s
     else shutdown_begins orch (s\<lparr>loop_time := max t (loop_time s)\<rparr>))"

fun wf_run :: "'o wf_event list \<Rightarrow> wf_race \<Rightarrow> wf_race" where
  "wf_run [] s = s"
| "wf_run (e # es) s = wf_run es (wf_step e s)"

fun is_signal :: "'o wf_event \<Rightarrow> bool" where
  "is_signal (SignalAt t orch) = True"
| "is_signal (Timer t) = False"

section \<open>The five seconds\<close>

lemma wf_run_append: "wf_run (es @ fs) s = wf_run fs (wf_run es s)"
  by (induction es arbitrary: s) simp_all

text \<open>Before the first signal the main task wakes at most a second after the time of the loop.\<close>

definition before_signal :: "wf_race \<Rightarrow> bool" where
  "before_signal s = (wf_running s \<and> telemetry_up s \<and> wf_handler s = NoShutdown
     \<and> (\<exists>d. wf_main s = Looping d \<and> d \<le> loop_time s + 1000000))"

lemma before_signal_run:
  "before_signal s \<Longrightarrow> \<forall>e \<in> set es. \<not> is_signal e \<Longrightarrow> before_signal (wf_run es s)"
proof (induction es arbitrary: s)
  case (Cons e es)
  then obtain t where "e = Timer t" by (cases e) auto
  then have "before_signal (wf_step e s)" using Cons.prems(1) by (auto simp: before_signal_def main_wakes_def)
  then show ?case using Cons by simp
qed simp

text \<open>After it the main task wakes before the one that waits for sagas.\<close>

definition signalled :: "bool \<Rightarrow> wf_race \<Rightarrow> bool" where
  "signalled active s = (\<not> wf_running s \<and> (\<exists>d. wf_main s = Looping d
     \<and> (if active then telemetry_up s \<and> (\<exists>e. wf_handler s = WaitingForSagas e \<and> d \<le> e)
        else \<not> telemetry_up s \<and> wf_handler s = ShutDown)))"

definition over :: "wf_handler \<Rightarrow> bool \<Rightarrow> wf_race \<Rightarrow> bool" where
  "over h up s = (wf_main s = MainReturned \<and> wf_handler s = h \<and> telemetry_up s = up)"

lemma over_run: "over h up s \<Longrightarrow> over h up (wf_run es s)"
proof (induction es arbitrary: s)
  case (Cons e es)
  then have "over h up (wf_step e s)" by (cases e) (simp_all add: over_def)
  then show ?case using Cons.IH by simp
qed simp



end
