(* ===== verification/Parallel_Threads.thy ===== *)
theory Parallel_Threads
  imports Workflow_Facts Saga_Machine Interleaving
begin

text \<open>
  The inner steps of a \<open>ConditionalStep\<close> and a \<open>ParallelStep\<close> as asyncio runs them: \<open>gather\<close> makes a task of
  each sub-step, with a copy of the context of its own; they share the world, and between two attempts of
  one the others go on. A schedule is the list of the sub-steps whose attempts end, in this order. It stops
  when the time limit of the outer step expires: if a sub-step has not ended by then, \<open>wait_for\<close> cancels all
  that are left and raises \<open>TimeoutError\<close>. \<open>Saga_Steps\<close> has the steps under the schedule that takes the
  sub-steps one after the other.
\<close>

section \<open>A sub-step as a task\<close>

text \<open>The attempts that are left, the last error and the context; or what \<open>execute\<close> returned or raised.\<close>

datatype sub_step = Trying "nat list" "py_error option" saga_context | Done "saga_context result" saga_context

fun await_attempt :: "'w saga_step \<Rightarrow> nat list \<Rightarrow> py_error option \<Rightarrow> saga_context \<Rightarrow> sub_step" where
  "await_attempt st [] last_error c = Done (Inl (case last_error of Some e \<Rightarrow> e
     | None \<Rightarrow> RuntimeError (''Step '' @ [CHR 0x27] @ step_name st @ [CHR 0x27] @ '' failed after all retries''))) c"
| "await_attempt st ks last_error c = Trying ks last_error c"

definition start_sub :: "'w saga_step \<Rightarrow> saga_context \<Rightarrow> sub_step" where
  "start_sub st c = await_attempt st [0..<nat (retry_count st + 1)] None c"

fun sub_tick :: "'w saga_step \<Rightarrow> sub_step \<times> 'w \<Rightarrow> sub_step \<times> 'w" where
  "sub_tick st (Trying (k # ks) _ c, w) = (case attempt_step st k \<lparr>ctx = c, world = w, log = []\<rparr> of
     (Inr d, r) \<Rightarrow> (Done (Inr d) (ctx r), world r)
   | (Inl e, r) \<Rightarrow> (await_attempt st ks (Some e) (ctx r), world r))"
| "sub_tick st pw = pw"

section \<open>The parallel step\<close>

fun run_subs :: "'w saga_step list \<Rightarrow> nat list \<Rightarrow> sub_step list \<times> 'w \<Rightarrow> sub_step list \<times> 'w" where
  "run_subs sts [] s = s"
| "run_subs sts (i # is) (ps, w) = (if i < length ps
     then (case sub_tick (sts ! i) (ps ! i, w) of (p, w) \<Rightarrow> run_subs sts is (ps[i := p], w))
     else run_subs sts is (ps, w))"

interpretation subs: interleaving "\<lambda>i p w. sub_tick (sts ! i) (p, w)" "\<lambda>is ps w. run_subs sts is (ps, w)"
  for sts :: "'w saga_step list"
  by unfold_locales simp_all

text \<open>The results of \<open>gather\<close>, when all sub-steps have ended.\<close>

fun sub_results :: "'w saga_step list \<Rightarrow> sub_step list \<Rightarrow> (string \<times> saga_context result) list option" where
  "sub_results (st # sts) (Done res _ # ps) = map_option (Cons (step_name st, res)) (sub_results sts ps)"
| "sub_results [] [] = Some []"
| "sub_results _ _ = None"

definition parallel_threads :: "'w saga_step list \<Rightarrow> nat list \<Rightarrow> 'w action" where
  "parallel_threads sts sched c w = (case run_subs sts sched (map (\<lambda>st. start_sub st c) sts, w) of
     (ps, w) \<Rightarrow> (case sub_results sts ps of
         None \<Rightarrow> (TimedOut, c, w)
       | Some rs \<Rightarrow> if step_errors rs \<noteq> []
           then (Raised (RuntimeError (''Parallel step failed: '' @ dumps_errors (step_errors rs))), c, w)
           else (Returned (Some (combined_result rs)), c, w)))"

text \<open>The compensations of the sub-steps: one await each, in any order; their exceptions are dropped.\<close>

definition to_undo :: "'w saga_step list \<Rightarrow> nat list" where
  "to_undo sts = filter (\<lambda>i. is_compensatable (sts ! i) \<and> compensation (sts ! i) \<noteq> None) [0..<length sts]"

fun undo_subs :: "'w saga_step list \<Rightarrow> nat list \<Rightarrow> saga_context \<Rightarrow> nat list \<times> 'w \<Rightarrow> nat list \<times> 'w" where
  "undo_subs sts [] c s = s"
| "undo_subs sts (i # is) c (pending, w) = undo_subs sts is c (if i \<in> set pending
     then (remove1 i pending, world (snd (step_compensate (sts ! i) \<lparr>ctx = c, world = w, log = []\<rparr>)))
     else (pending, w))"

definition parallel_compensation :: "'w saga_step list \<Rightarrow> nat list \<Rightarrow> 'w callback" where
  "parallel_compensation sts order c w = (case undo_subs sts order c (to_undo sts, w) of
     (pending, w) \<Rightarrow> (if pending = [] then None else Some (TimeoutError ''''), c, w))"

text \<open>\<open>ParallelStep\<close> with the schedules that the event loop chooses.\<close>

definition ScheduledParallelStep :: "string \<Rightarrow> string \<Rightarrow> 'w saga_step list \<Rightarrow> (saga_context \<Rightarrow> 'w \<Rightarrow> nat list)
    \<Rightarrow> (saga_context \<Rightarrow> 'w \<Rightarrow> nat list) \<Rightarrow> step_kwargs \<Rightarrow> 'w saga_step" where
  "ScheduledParallelStep sid name sts sched order kw = new_step sid name
     (\<lambda>c w. parallel_threads sts (sched c w) c w)
     (Some (\<lambda>c w. parallel_compensation sts (order c w) c w)) kw"

section \<open>The conditional step\<close>

text \<open>The inner step runs on the context of the outer one; \<open>n\<close> of its attempts end before the outer time limit.\<close>

definition limited_execute :: "'w saga_step \<Rightarrow> nat \<Rightarrow> 'w action" where
  "limited_execute st n c w = (case (sub_tick st ^^ n) (start_sub st c, w) of
     (Done (Inr d) c, w) \<Rightarrow> (Returned (Some d), c, w)
   | (Done (Inl e) c, w) \<Rightarrow> (Raised e, c, w)
   | (Trying _ _ c, w) \<Rightarrow> (TimedOut, c, w))"

definition LimitedConditionalStep :: "string \<Rightarrow> string \<Rightarrow> (saga_context \<Rightarrow> bool result) \<Rightarrow> 'w saga_step
    \<Rightarrow> 'w saga_step option \<Rightarrow> (saga_context \<Rightarrow> 'w \<Rightarrow> nat) \<Rightarrow> step_kwargs \<Rightarrow> 'w saga_step" where
  "LimitedConditionalStep sid name condition st else_step limit kw = new_step sid name
     (\<lambda>c w. case condition c of
        Inl e \<Rightarrow> (Raised e, c, w)
      | Inr True \<Rightarrow> limited_execute st (limit c w) c w
      | Inr False \<Rightarrow> (case else_step of Some e \<Rightarrow> limited_execute e (limit c w) c w | None \<Rightarrow> (Returned (Some []), c, w)))
     (if is_compensatable st then compensation st else None) kw"

section \<open>One sub-step\<close>

text \<open>What an execution does, but for its log.\<close>

fun essence :: "'a \<times> ('w, 'm) run_scheme \<Rightarrow> 'a \<times> saga_context \<times> 'w" where
  "essence (x, r) = (x, ctx r, world r)"

text \<open>What a sub-step that stands somewhere ends in when it runs alone from there.\<close>

fun outcome_of :: "'w saga_step \<Rightarrow> sub_step \<times> 'w \<Rightarrow> saga_context result \<times> saga_context \<times> 'w" where
  "outcome_of st (Done res c, w) = (res, c, w)"
| "outcome_of st (Trying ks last_error c, w) = essence (try_attempts st ks last_error \<lparr>ctx = c, world = w, log = []\<rparr>)"

lemma attempt_step_essence:
  "ctx r = ctx s \<Longrightarrow> world r = world s \<Longrightarrow> essence (attempt_step st k r) = essence (attempt_step st k s)"
  by (auto simp: attempt_step_def Let_def split: prod.split outcome.split)

lemma backoff_fields [simp]: "ctx (backoff st k r) = ctx r" "world (backoff st k r) = world r"
  by (simp_all add: backoff_def)

lemma try_attempts_essence:
  "ctx r = ctx s \<Longrightarrow> world r = world s \<Longrightarrow> essence (try_attempts st ks e r) = essence (try_attempts st ks e s)"
proof (induction ks arbitrary: e r s)
  case (Cons k ks)
  obtain x r1 where r1: "attempt_step st k r = (x, r1)" by fastforce
  obtain y s1 where s1: "attempt_step st k s = (y, s1)" by fastforce
  have "x = y" "ctx r1 = ctx s1" "world r1 = world s1"
    using attempt_step_essence [OF Cons.prems, of st k] r1 s1 by auto
  moreover have "essence (try_attempts st ks (Some z) (backoff st k r1)) = essence (try_attempts st ks (Some z) (backoff st k s1))" for z
    using calculation by (intro Cons.IH) simp_all
  ultimately show ?case using r1 s1 by (simp split: sum.split)
qed simp

lemma outcome_of_await: "outcome_of st (await_attempt st ks e c, w) = essence (try_attempts st ks e \<lparr>ctx = c, world = w, log = []\<rparr>)"
  by (cases ks) auto

lemma outcome_of_start:
  "outcome_of st (start_sub st c, w) = essence (step_execute st \<lparr>ctx = c, world = w, log = []\<rparr>)"
  unfolding start_sub_def outcome_of_await step_execute_def by (rule try_attempts_essence) simp_all

lemma outcome_of_tick: "outcome_of st (sub_tick st pw) = outcome_of st pw"
proof (induction st pw rule: sub_tick.induct)
  case (1 st k ks e c w)
  obtain x r where r: "attempt_step st k \<lparr>ctx = c, world = w, log = []\<rparr> = (x, r)" by fastforce
  have "essence (try_attempts st ks (Some y) \<lparr>ctx = ctx r, world = world r, log = []\<rparr>)
      = essence (try_attempts st ks (Some y) (backoff st k r))" for y
    by (rule try_attempts_essence) simp_all
  then show ?case using r by (simp add: outcome_of_await split: sum.split)
qed simp_all

lemma outcome_of_ticks: "outcome_of st ((sub_tick st ^^ n) pw) = outcome_of st pw"
  by (induction n) (simp_all add: outcome_of_tick)

text \<open>A sub-step ends after the attempts it is permitted, at most.\<close>

fun left_tries :: "sub_step \<Rightarrow> nat" where
  "left_tries (Trying ks _ _) = length ks"
| "left_tries (Done _ _) = 0"

fun awaiting :: "sub_step \<Rightarrow> bool" where
  "awaiting (Trying ks _ _) = (ks \<noteq> [])"
| "awaiting (Done _ _) = True"

lemma await_attempt_spec [simp]:
  "awaiting (await_attempt st ks e c)" "left_tries (await_attempt st ks e c) = length ks"
  by (cases ks; simp)+

lemma start_sub_spec [simp]: "awaiting (start_sub st c)" "left_tries (start_sub st c) = attempts st"
  by (simp_all add: start_sub_def attempts_def)

lemma sub_tick_spec:
  "awaiting (fst pw) \<Longrightarrow> awaiting (fst (sub_tick st pw)) \<and> left_tries (fst (sub_tick st pw)) \<le> left_tries (fst pw) - 1"
  by (induction st pw rule: sub_tick.induct) (auto split: prod.split sum.split)

lemma sub_ticks_spec:
  "awaiting (fst pw) \<Longrightarrow> awaiting (fst ((sub_tick st ^^ n) pw)) \<and> left_tries (fst ((sub_tick st ^^ n) pw)) \<le> left_tries (fst pw) - n"
proof (induction n)
  case (Suc n)
  then show ?case using sub_tick_spec [where pw = "(sub_tick st ^^ n) pw" and st = st] by auto
qed simp

lemma no_tries_done: "awaiting p \<Longrightarrow> left_tries p = 0 \<Longrightarrow> \<exists>res c. p = Done res c"
  by (cases p) auto

lemma sub_ticks_done:
  assumes "attempts st \<le> n"
  obtains res c' w' where "(sub_tick st ^^ n) (start_sub st c, w) = (Done res c', w')"
    "outcome_of st (start_sub st c, w) = (res, c', w')"
proof -
  obtain p w' where p: "(sub_tick st ^^ n) (start_sub st c, w) = (p, w')" by fastforce
  have "awaiting p \<and> left_tries p = 0" using sub_ticks_spec [where st = st and n = n and pw = "(start_sub st c, w)"] p assms by simp
  then obtain res c' where "p = Done res c'" using no_tries_done by blast
  then show thesis using that p outcome_of_ticks [where st = st and n = n and pw = "(start_sub st c, w)"] by fastforce
qed

lemma limited_execute_all:
  assumes "attempts st \<le> n"
  shows "limited_execute st n c w = inner_execute st c w"
proof -
  obtain res c' w' where d: "(sub_tick st ^^ n) (start_sub st c, w) = (Done res c', w')"
    "outcome_of st (start_sub st c, w) = (res, c', w')"
    using assms by (rule sub_ticks_done)
  obtain x r where x: "step_execute st \<lparr>ctx = c, world = w, log = []\<rparr> = (x, r)" by fastforce
  then have "x = res" "ctx r = c'" "world r = w'"
    using d(2) unfolding outcome_of_start by auto
  then show ?thesis using d(1) x by (auto simp: limited_execute_def inner_execute_def split: sum.split)
qed

section \<open>One sub-step after the other\<close>

text \<open>The schedule that gives each sub-step all its attempts before the next one begins.\<close>

fun sequential :: "'w saga_step list \<Rightarrow> nat list" where
  "sequential [] = []"
| "sequential (st # sts) = replicate (attempts st) 0 @ map Suc (sequential sts)"

lemma run_subs_later:
  "run_subs (st # sts) (map Suc is) (p # ps, w) = (case run_subs sts is (ps, w) of (ps, w) \<Rightarrow> (p # ps, w))"
  by (induction "is" arbitrary: ps w) (auto split: prod.split)

lemma run_subs_first:
  "run_subs (st # sts) (replicate n 0) (p # ps, w) = (case (sub_tick st ^^ n) (p, w) of (p, w) \<Rightarrow> (p # ps, w))"
proof (induction n arbitrary: p w)
  case (Suc n)
  obtain q v where q: "sub_tick st (p, w) = (q, v)" by fastforce
  then have "(sub_tick st ^^ Suc n) (p, w) = (sub_tick st ^^ n) (q, v)" by (simp add: funpow_swap1)
  then show ?case using Suc.IH q by simp
qed simp

lemma run_sequential:
  "\<exists>ps. run_subs sts (sequential sts) (map (\<lambda>st. start_sub st c) sts, w) = (ps, snd (gather_steps sts c w))
    \<and> sub_results sts ps = Some (fst (gather_steps sts c w))"
proof (induction sts arbitrary: w)
  case (Cons st sts)
  obtain res r where r: "step_execute st \<lparr>ctx = c, world = w, log = []\<rparr> = (res, r)" by fastforce
  then have o: "outcome_of st (start_sub st c, w) = (res, ctx r, world r)" unfolding outcome_of_start by simp
  obtain x c' w' where t: "(sub_tick st ^^ attempts st) (start_sub st c, w) = (Done x c', w')"
    "outcome_of st (start_sub st c, w) = (x, c', w')"
    by (rule sub_ticks_done [OF order_refl])
  obtain ps where ps: "run_subs sts (sequential sts) (map (\<lambda>st. start_sub st c) sts, world r) = (ps, snd (gather_steps sts c (world r)))"
    "sub_results sts ps = Some (fst (gather_steps sts c (world r)))"
    using Cons.IH by blast
  have "run_subs (st # sts) (sequential (st # sts)) (map (\<lambda>st. start_sub st c) (st # sts), w)
      = (Done res c' # ps, snd (gather_steps sts c (world r)))"
    using t o ps(1) by (simp add: subs.run_append run_subs_first run_subs_later)
  then show ?case using ps(2) r by (simp add: case_prod_beta)
qed simp

lemma parallel_threads_sequential: "parallel_threads sts (sequential sts) c w = parallel_action sts c w"
proof -
  obtain ps where "run_subs sts (sequential sts) (map (\<lambda>st. start_sub st c) sts, w) = (ps, snd (gather_steps sts c w))"
    "sub_results sts ps = Some (fst (gather_steps sts c w))"
    using run_sequential [of sts c w] by blast
  then show ?thesis by (simp add: parallel_threads_def parallel_action_def case_prod_beta)
qed

lemma undo_in_order:
  "distinct is \<Longrightarrow> undo_subs sts is c (is, w)
    = ([], foldl (\<lambda>w i. world (snd (step_compensate (sts ! i) \<lparr>ctx = c, world = w, log = []\<rparr>))) w is)"
  by (induction "is" arbitrary: w) auto

lemma to_undo_Cons:
  "to_undo (st # sts) = (if is_compensatable st \<and> compensation st \<noteq> None then [0] else []) @ map Suc (to_undo sts)"
proof -
  have "[0..<length (st # sts)] = 0 # map Suc [0..<length sts]" by (simp add: map_Suc_upt upt_conv_Cons del: upt_Suc)
  then show ?thesis by (simp add: to_undo_def filter_map o_def del: upt_Suc)
qed

lemma gather_compensations_fold:
  "gather_compensations sts c w
    = foldl (\<lambda>w i. world (snd (step_compensate (sts ! i) \<lparr>ctx = c, world = w, log = []\<rparr>))) w (to_undo sts)"
proof (induction sts arbitrary: w)
  case (Cons st sts)
  have "foldl (\<lambda>w i. world (snd (step_compensate ((st # sts) ! i) \<lparr>ctx = c, world = w, log = []\<rparr>))) v (map Suc is)
      = foldl (\<lambda>w i. world (snd (step_compensate (sts ! i) \<lparr>ctx = c, world = w, log = []\<rparr>))) v is" for v "is"
    by (induction "is" arbitrary: v) simp_all
  then show ?case using Cons by (auto simp: to_undo_Cons)
qed (simp add: to_undo_def)

lemma parallel_compensation_in_order:
  "parallel_compensation sts (to_undo sts) c w = (None, c, gather_compensations sts c w)"
proof -
  have "distinct (to_undo sts)" by (simp add: to_undo_def)
  then show ?thesis by (simp add: parallel_compensation_def undo_in_order gather_compensations_fold)
qed

text \<open>The parallel step of the sequential model is one of the executions that asyncio can choose: with the
  schedules that take the sub-steps one after the other, the step with schedules is the step without.\<close>

theorem parallel_step_refines:
  "ScheduledParallelStep sid name sts (\<lambda>_ _. sequential sts) (\<lambda>_ _. to_undo sts) kw = ParallelStep sid name sts kw"
  by (simp add: ScheduledParallelStep_def ParallelStep_def parallel_threads_sequential [abs_def]
    parallel_compensation_in_order)

section \<open>Any schedule\<close>

text \<open>A part of the world that a step acts on: what it does there depends on this part alone.\<close>

fun seen :: "('w \<Rightarrow> 'v) \<Rightarrow> 'a \<times> saga_context \<times> 'w \<Rightarrow> 'a \<times> saga_context \<times> 'v" where
  "seen v (x, c, w) = (x, c, v w)"

definition acts_on :: "('w \<Rightarrow> 'v) \<Rightarrow> 'w saga_step \<Rightarrow> bool" where
  "acts_on v st = (\<forall>c w w'. v w = v w' \<longrightarrow> seen v (action st c w) = seen v (action st c w'))"

definition leaves :: "('w \<Rightarrow> 'v) \<Rightarrow> 'w saga_step \<Rightarrow> bool" where
  "leaves v st = (\<forall>c w. v (snd (snd (action st c w))) = v w)"

definition separate :: "(nat \<Rightarrow> 'w \<Rightarrow> 'v) \<Rightarrow> 'w saga_step list \<Rightarrow> bool" where
  "separate view sts = (\<forall>i < length sts. acts_on (view i) (sts ! i)
     \<and> (\<forall>j < length sts. j \<noteq> i \<longrightarrow> leaves (view j) (sts ! i)))"

lemma attempt_step_seen:
  assumes "acts_on v st" "ctx r = ctx s" "v (world r) = v (world s)"
  shows "seen v (essence (attempt_step st k r)) = seen v (essence (attempt_step st k s))"
proof -
  obtain x c w where x: "action st (ctx r) (world r) = (x, c, w)" by (metis prod_cases3)
  obtain y d u where y: "action st (ctx s) (world s) = (y, d, u)" by (metis prod_cases3)
  have "seen v (x, c, w) = seen v (y, d, u)" using assms x y unfolding acts_on_def by metis
  then show ?thesis using x y by (auto simp: attempt_step_def Let_def split: outcome.split)
qed

lemma try_attempts_seen:
  "acts_on v st \<Longrightarrow> ctx r = ctx s \<Longrightarrow> v (world r) = v (world s)
    \<Longrightarrow> seen v (essence (try_attempts st ks e r)) = seen v (essence (try_attempts st ks e s))"
proof (induction ks arbitrary: e r s)
  case (Cons k ks)
  obtain x r1 where r1: "attempt_step st k r = (x, r1)" by fastforce
  obtain y s1 where s1: "attempt_step st k s = (y, s1)" by fastforce
  have "x = y" "ctx r1 = ctx s1" "v (world r1) = v (world s1)"
    using attempt_step_seen [OF Cons.prems, of k] r1 s1 by auto
  moreover have "seen v (essence (try_attempts st ks (Some z) (backoff st k r1)))
      = seen v (essence (try_attempts st ks (Some z) (backoff st k s1)))" for z
    using calculation Cons.prems(1) by (intro Cons.IH) simp_all
  ultimately show ?case using r1 s1 by (simp split: sum.split)
qed simp

lemma outcome_of_seen:
  "acts_on v st \<Longrightarrow> v w = v w' \<Longrightarrow> seen v (outcome_of st (p, w)) = seen v (outcome_of st (p, w'))"
  by (cases p) (simp_all add: try_attempts_seen)

lemma sub_tick_leaves:
  assumes "leaves v st"
  shows "v (snd (sub_tick st pw)) = v (snd pw)"
proof -
  have "v (world (snd (attempt_step st k r))) = v (world r)" for k and r :: "'a run"
    using assms by (auto simp: attempt_step_def leaves_def Let_def split: prod.split outcome.split) (metis snd_conv)+
  from this [of _ "\<lparr>ctx = _, world = _, log = []\<rparr>"] show ?thesis
    by (induction st pw rule: sub_tick.induct) (auto split: prod.split sum.split, (metis run.select_convs(2) snd_conv)+)
qed

text \<open>What each sub-step will have ended in stays the same while others run.\<close>

definition fate :: "(nat \<Rightarrow> 'w \<Rightarrow> 'v) \<Rightarrow> 'w saga_step list \<Rightarrow> sub_step list \<times> 'w \<Rightarrow> nat
    \<Rightarrow> saga_context result \<times> saga_context \<times> 'v" where
  "fate view sts s i = seen (view i) (outcome_of (sts ! i) (fst s ! i, snd s))"

lemma fate_turn:
  assumes "separate view sts" "length ps = length sts" "i < length sts" "sub_tick (sts ! i) (ps ! i, w) = (p, u)" "j < length sts"
  shows "fate view sts (ps[i := p], u) j = fate view sts (ps, w) j"
proof (cases "j = i")
  case True
  then show ?thesis using assms outcome_of_tick [of "sts ! i" "(ps ! i, w)"] by (simp add: fate_def)
next
  case False
  then have "leaves (view j) (sts ! i)" "acts_on (view j) (sts ! j)"
    using assms by (auto simp: separate_def)
  then show ?thesis
    using False assms(4) sub_tick_leaves [of "view j" "sts ! i" "(ps ! i, w)"] outcome_of_seen [of "view j" "sts ! j" u w]
    by (simp add: fate_def)
qed

lemma fate_run:
  assumes "separate view sts" "length (fst s) = length sts"
  shows "length (fst (run_subs sts sched s)) = length sts
    \<and> (\<forall>i < length sts. fate view sts (run_subs sts sched s) i = fate view sts s i)"
proof -
  obtain ps' w' where r: "run_subs sts sched (fst s, snd s) = (ps', w')" by fastforce
  have "length ps' = length sts \<and> (\<forall>i < length sts. fate view sts (ps', w') i = fate view sts s i)"
  proof (rule subs.run_keeps [OF _ _ r])
    show "length (ps[i := p]) = length sts \<and> (\<forall>j < length sts. fate view sts (ps[i := p], u) j = fate view sts s j)"
      if "length ps = length sts \<and> (\<forall>j < length sts. fate view sts (ps, w) j = fate view sts s j)" "i < length ps"
        "sub_tick (sts ! i) (ps ! i, w) = (p, u)" for ps w i p u
      using that fate_turn [OF assms(1), of ps i w p u] by simp
  qed (use assms(2) in simp)
  then show ?thesis using r by simp
qed

lemma sub_results_fate:
  "sub_results sts ps = Some rs \<Longrightarrow> length ps = length sts
    \<and> rs = map (\<lambda>i. (step_name (sts ! i), fst (outcome_of (sts ! i) (ps ! i, w)))) [0..<length sts]
    \<and> (\<forall>i < length sts. snd (snd (outcome_of (sts ! i) (ps ! i, w))) = w)"
proof (induction sts ps arbitrary: rs rule: sub_results.induct)
  case (1 st sts res c ps)
  then obtain rs' where rs': "sub_results sts ps = Some rs'" "rs = (step_name st, res) # rs'" by auto
  have upt: "[0..<Suc n] = 0 # map Suc [0..<n]" for n by (simp add: map_Suc_upt upt_conv_Cons del: upt_Suc)
  show ?case using 1(1) [OF rs'(1)] rs'(2) by (auto simp: upt o_def nth_Cons split: nat.split simp del: upt_Suc)
qed simp_all

lemma sub_results_enough:
  assumes "\<forall>i < length sts. attempts (sts ! i) \<le> count_list sched i"
  shows "\<exists>rs. sub_results sts (fst (run_subs sts sched (map (\<lambda>st. start_sub st c) sts, w))) = Some rs"
proof -
  have run: "length (fst (run_subs sts is s)) = length (fst s) \<and> (\<forall>i < length (fst s). awaiting (fst (run_subs sts is s) ! i)
      \<and> left_tries (fst (run_subs sts is s) ! i) \<le> left_tries (fst s ! i) - count_list is i)"
    if "\<forall>i < length (fst s). awaiting (fst s ! i)" for "is" s
    using that
  proof (induction sts "is" s rule: run_subs.induct)
    case (2 sts k "is" ps w)
    show ?case
    proof (cases "k < length ps")
      case True
      obtain p u where t: "sub_tick (sts ! k) (ps ! k, w) = (p, u)" by fastforce
      have p: "awaiting p \<and> left_tries p \<le> left_tries (ps ! k) - 1"
        using sub_tick_spec [of "(ps ! k, w)" "sts ! k"] 2(3) True t by simp
      have "\<forall>i < length (ps[k := p]). awaiting (ps[k := p] ! i)"
        using 2(3) p True by (simp add: nth_list_update)
      with 2(1) [OF True t [symmetric]] show ?thesis using True t p by (fastforce simp: nth_list_update)
    next
      case False
      then show ?thesis using 2 by simp
    qed
  qed simp
  have ended: "\<exists>rs. sub_results ys ps = Some rs"
    if "length ps = length ys" "\<forall>i < length ps. \<exists>res c. ps ! i = Done res c" for ps and ys :: "'a saga_step list"
    using that
  proof (induction ps ys rule: list_induct2)
    case (Cons p ps y ys)
    from Cons.prems have "\<exists>res c. p = Done res c" "\<forall>i < length ps. \<exists>res c. ps ! i = Done res c"
      by (metis length_greater_0_conv list.discI nth_Cons_0) (metis Suc_less_eq length_Cons nth_Cons_Suc Cons.prems)
    then show ?case using Cons.IH by auto
  qed simp
  show ?thesis
    using run [of "(map (\<lambda>st. start_sub st c) sts, w)" sched] assms by (intro ended) (auto intro!: no_tries_done)
qed

lemma parallel_any_schedule_gen:
  assumes "separate view sts" "sub_results sts (fst (run_subs sts sched (map (\<lambda>st. start_sub st c) sts, w))) = Some rs"
  shows "rs = fst (gather_steps sts c w)
    \<and> (\<forall>i < length sts. view i (snd (run_subs sts sched (map (\<lambda>st. start_sub st c) sts, w))) = view i (snd (gather_steps sts c w)))"
proof -
  let ?s = "(map (\<lambda>st. start_sub st c) sts, w)"
  obtain ps v where a: "run_subs sts sched ?s = (ps, v)" by fastforce
  obtain qs where b: "run_subs sts (sequential sts) ?s = (qs, snd (gather_steps sts c w))"
    "sub_results sts qs = Some (fst (gather_steps sts c w))"
    using run_sequential [of sts c w] by blast
  have same: "fate view sts (ps, v) i = fate view sts (qs, snd (gather_steps sts c w)) i" if "i < length sts" for i
    using fate_run [OF assms(1), of ?s sched] fate_run [OF assms(1), of ?s "sequential sts"] that a b(1) by simp
  have parts: "fst (fate view sts (ps', v') i) = fst (outcome_of (sts ! i) (ps' ! i, v'))"
      "snd (snd (fate view sts (ps', v') i)) = view i (snd (snd (outcome_of (sts ! i) (ps' ! i, v'))))" for ps' v' i
    by (cases "outcome_of (sts ! i) (ps' ! i, v')", simp add: fate_def)+
  have "sub_results sts ps = Some rs" using assms(2) a by simp
  note p = sub_results_fate [OF this, of v] and q = sub_results_fate [OF b(2), of "snd (gather_steps sts c w)"]
  have "fst (outcome_of (sts ! i) (ps ! i, v)) = fst (outcome_of (sts ! i) (qs ! i, snd (gather_steps sts c w)))
      \<and> view i v = view i (snd (gather_steps sts c w))" if "i < length sts" for i
  proof -
    have "snd (snd (outcome_of (sts ! i) (ps ! i, v))) = v"
      "snd (snd (outcome_of (sts ! i) (qs ! i, snd (gather_steps sts c w)))) = snd (gather_steps sts c w)"
      using p q that by blast+
    then show ?thesis
      using arg_cong [OF same [OF that], of fst] arg_cong [OF same [OF that], of "\<lambda>x. snd (snd x)"]
      by (simp add: parts)
  qed
  then show ?thesis using p q a by simp
qed

text \<open>C9: Sub-steps of a parallel step that act on separate parts of the world do not notice each other: whatever
  the order in which their attempts interleave, the step ends like the one that takes them one after the
  other, with the same effect on each part, unless the time limit cuts it off; and it is not cut off once
  each sub-step has had the attempts it is permitted.\<close>

theorem parallel_any_schedule:
  assumes "separate view sts" and "parallel_threads sts sched c w = (out, c', w')"
    and "parallel_action sts c w = (out0, c0, w0)"
  shows "(out = TimedOut \<or> out = out0 \<and> c' = c0 \<and> (\<forall>i < length sts. view i w' = view i w0))
    \<and> ((\<forall>i < length sts. attempts (sts ! i) \<le> count_list sched i) \<longrightarrow> out \<noteq> TimedOut)"
proof (cases "sub_results sts (fst (run_subs sts sched (map (\<lambda>st. start_sub st c) sts, w)))")
  case None
  then show ?thesis using assms(2) sub_results_enough [of sts sched c w]
    by (auto simp: parallel_threads_def split: prod.splits)
next
  case (Some rs)
  then show ?thesis using parallel_any_schedule_gen [OF assms(1) Some] assms(2,3)
    by (auto simp: parallel_threads_def parallel_action_def split: prod.splits if_splits)
qed

section \<open>The bulk workflow\<close>

text \<open>The sub-steps of the bulk workflow leave the world alone, so each schedule in which they end is the sequential one.\<close>

lemma action_of_world: "snd (snd (action_of f c w)) = w"
  by (auto simp: action_of_def split: sum.split)

lemma run_no_subs: "run_subs sts sched ([], w) = ([], w)"
  by (induction sched) auto

lemma bulk_any_schedule:
  fixes operation :: json and tids :: "json list" and w :: 'w and uid :: "nat \<Rightarrow> string"
  defines "sts \<equiv> map (\<lambda>(i, tid). process_step (uid (i + 3)) operation tid :: 'w saga_step) (enumerate 0 tids)"
  assumes "\<forall>i < length sts. attempts (sts ! i) \<le> count_list sched i"
  shows "parallel_threads sts sched c w = parallel_action sts c w"
proof -
  have "snd (snd (action (sts ! i) c w)) = w" if "i < length sts" for i c w
    using that by (auto simp: sts_def process_step_def nth_enumerate_eq action_of_world)
  then have sep: "separate (\<lambda>_ w. w) sts" by (simp add: separate_def acts_on_def leaves_def)
  let ?s = "run_subs sts sched (map (\<lambda>st. start_sub st c) sts, w)"
  obtain rs where rs: "sub_results sts (fst ?s) = Some rs" using sub_results_enough [OF assms(2), of c w] by blast
  have gen: "rs = fst (gather_steps sts c w)" "\<forall>i < length sts. snd ?s = snd (gather_steps sts c w)"
    using parallel_any_schedule_gen [OF sep rs] by simp_all
  have "snd ?s = snd (gather_steps sts c w)"
    using gen(2) by (cases "sts = []") (auto simp: run_no_subs)
  then show ?thesis using gen(1) rs by (simp add: parallel_threads_def parallel_action_def case_prod_beta)
qed

section \<open>Retries of a parallel step\<close>

text \<open>
  A parallel step that fails is retried as a whole: a sub-step that has succeeded (here one that counts its
  calls in the world) is executed again in each attempt, beside one that always fails.
\<close>

lemma retries_repeat_successes:
  assumes "action good = (\<lambda>c n. (Returned d, c, Suc n))" "action bad = (\<lambda>c n. (Raised e, c, n))"
    "0 \<le> retry_count good" "0 \<le> retry_count bad"
  shows "world (snd (step_execute (ParallelStep sid name [good, bad] kw) r)) = world r + nat (kw_retry_count kw + 1)"
proof -
  have good: "\<exists>x r'. step_execute good \<lparr>ctx = c, world = n, log = []\<rparr> = (x, r') \<and> world r' = Suc n" for c n
  proof -
    have "[0..<nat (retry_count good + 1)] = 0 # [1..<nat (retry_count good + 1)]"
      using assms(3) by (simp add: upt_conv_Cons)
    then show ?thesis by (simp add: step_execute_def attempt_step_def assms(1))
  qed
  have bad: "\<exists>ls. step_execute bad \<lparr>ctx = c, world = n, log = []\<rparr> = (Inl e, \<lparr>ctx = c, world = n, log = ls\<rparr>)" for c n
    using step_execute_raise [of bad "\<lparr>ctx = c, world = n, log = []\<rparr>" e] assms(2,4) by simp
  have gather: "\<exists>x. gather_steps [good, bad] c n = ([(step_name good, x), (step_name bad, Inl e)], Suc n)" for c n
    using good [of c n] bad [of c "Suc n"] by auto
  have act: "\<exists>E. parallel_action [good, bad] c n = (Raised E, c, Suc n)" for c n
    using gather [of c n] by (auto simp: parallel_action_def step_errors_def split: sum.split)
  let ?st = "ParallelStep sid name [good, bad] kw"
  have attempt: "\<exists>E. fst (attempt_step ?st k s) = Inl E \<and> world (snd (attempt_step ?st k s)) = Suc (world s)" for k s
    using act [of "ctx s" "world s"] by (auto simp: attempt_step_def ParallelStep_def)
  have all: "world (snd (try_attempts ?st ks l s)) = world s + length ks" for ks l s
  proof (induction ks arbitrary: l s)
    case (Cons k ks)
    obtain E s1 where "attempt_step ?st k s = (Inl E, s1)" "world s1 = Suc (world s)"
      using attempt [of k s] by (metis prod.collapse)
    then show ?case using Cons.IH by simp
  qed simp
  have "retry_count ?st = kw_retry_count kw" by (simp add: ParallelStep_def)
  then show ?thesis unfolding step_execute_def all by simp
qed

text \<open>Two sub-steps with a counter each; the second fails while its counter is 0. Their attempts interleave.\<close>

definition count_first :: "(nat \<times> nat) saga_step" where
  "count_first = new_step ''1'' ''first'' (\<lambda>c (x, y). (Returned (Some [(''first'', JInt (int x))]), c, (x + 1, y))) None default_kwargs"

definition count_second :: "(nat \<times> nat) saga_step" where
  "count_second = new_step ''2'' ''second'' (\<lambda>c (x, y). (if y = 0 then Raised (RuntimeError ''busy'')
     else Returned (Some [(''second'', JInt (int y))]), c, (x, y + 1))) None default_kwargs"

definition counter :: "nat \<Rightarrow> nat \<times> nat \<Rightarrow> nat" where
  "counter i w = (if i = 0 then fst w else snd w)"

lemma separate_counters: "separate counter [count_first, count_second]"
  by (auto simp: separate_def acts_on_def leaves_def counter_def count_first_def count_second_def nth_Cons less_Suc_eq
    split: nat.split)

lemma parallel_any_schedule_witness:
  "parallel_threads [count_first, count_second] [1, 0, 1] [] (0, 0)
     = (Returned (Some [(''first'', JInt 0), (''second'', JInt 1)]), [], (1, 2))
   \<and> parallel_action [count_first, count_second] [] (0, 0)
     = (Returned (Some [(''first'', JInt 0), (''second'', JInt 1)]), [], (1, 2))"
proof -
  have a: "parallel_threads [count_first, count_second] [1, 0, 1] [] (0, 0)
     = (Returned (Some [(''first'', JInt 0), (''second'', JInt 1)]), [], (1, 2))"
    by code_simp
  obtain out0 c0 w0 where b: "parallel_action [count_first, count_second] [] (0, 0) = (out0, c0, w0)"
    by (metis prod_cases3)
  have "i < 2 \<Longrightarrow> counter i (1, 2) = counter i w0" for i
    using parallel_any_schedule [OF separate_counters a b] by simp
  from this [of 0] this [of 1] have "w0 = (1, 2)" by (cases w0) (simp add: counter_def)
  then show ?thesis using parallel_any_schedule [OF separate_counters a b] a b by simp
qed

end
