(* ===== verification/Concurrent_Handlers.thy ===== *)
theory Concurrent_Handlers
  imports Service_Facts Concurrent_Saves
begin

text \<open>
  The handlers of \<open>TaskServiceServicer\<close> as gRPC runs them: each request is a task of the event loop, and all
  of them share the repository with its live objects, the store and its session. A handler is a program
  point, the statement it awaits; a turn lets that return and runs the code up to the next await. Loading
  awaits the query for the events, unless the task is cached; the repository's save and the commit of the
  unit of work await their statements one by one (\<open>save_tick\<close>); the commit then awaits the publications.
  Other processes may add rows to the table at any time.
\<close>

section \<open>Handlers\<close>

datatype answer = TaskAnswer "(string \<times> json) list" | BoolAnswer bool

datatype request = CreateReq ambient create_request | UpdateReq ambient update_request
  | AssignReq ambient assign_request | DeleteReq ambient delete_request | GetReq ambient string

text \<open>The call is the one of \<open>save_events\<close> that is under way.\<close>

datatype handler_point = Loading | SavingTask task_ref save_call | Committing task_ref save_call
  | Publishing task_ref | Finished "answer reply"

fun task_of :: "request \<Rightarrow> string" where
  "task_of (CreateReq a q) = fresh_task a"
| "task_of (UpdateReq a q) = uq_task_id q"
| "task_of (AssignReq a q) = aq_task_id q"
| "task_of (DeleteReq a q) = dq_task_id q"
| "task_of (GetReq a tid) = tid"

fun ambient_of :: "request \<Rightarrow> ambient" where
  "ambient_of (CreateReq a q) = a"
| "ambient_of (UpdateReq a q) = a"
| "ambient_of (AssignReq a q) = a"
| "ambient_of (DeleteReq a q) = a"
| "ambient_of (GetReq a tid) = a"

fun change_of :: "dataclass_kind \<Rightarrow> request \<Rightarrow> task \<Rightarrow> task effect" where
  "change_of kind (UpdateReq a q) = update kind (fresh_event a) (write_time a) (update_command_of a q)"
| "change_of kind (AssignReq a q) = assign kind (fresh_event a) (write_time a) (assign_command_of a q)"
| "change_of kind (DeleteReq a q) = delete kind (fresh_event a) (write_time a) (delete_command_of a q)"
| "change_of kind _ = done_eff"

fun expected_of :: "request \<Rightarrow> int option" where
  "expected_of (UpdateReq a q) = Some (uq_expected_version q)"
| "expected_of (AssignReq a q) = Some (aq_expected_version q)"
| "expected_of (DeleteReq a q) = Some (dq_expected_version q)"
| "expected_of _ = None"

fun answer_of :: "request \<Rightarrow> task \<Rightarrow> answer" where
  "answer_of (DeleteReq a q) t = BoolAnswer True"
| "answer_of _ t = TaskAnswer (to_dict t)"

text \<open>The \<open>except\<close> clauses; \<open>GetTask\<close> has none.\<close>

fun error_reply :: "request \<Rightarrow> py_error \<Rightarrow> answer reply" where
  "error_reply (CreateReq a q) e = create_errors_to_status e"
| "error_reply (UpdateReq a q) e = update_errors_to_status (uq_task_id q) e"
| "error_reply (AssignReq a q) e = assign_errors_to_status (aq_task_id q) e"
| "error_reply (DeleteReq a q) e = assign_errors_to_status (dq_task_id q) e"
| "error_reply (GetReq a tid) e = Uncaught e"

fun missing_reply :: "request \<Rightarrow> answer reply" where
  "missing_reply (GetReq a tid) = Abort NOT_FOUND (not_found_text tid)"
| "missing_reply req = error_reply req (TaskNotFoundError (task_of req))"

section \<open>Between two awaits\<close>

text \<open>The end of a commit, and the reply.\<close>

definition conclude_commit :: "request \<Rightarrow> task_ref \<Rightarrow> service \<Rightarrow> handler_point \<times> service" where
  "conclude_commit req r s = (let s = set_ref r (mark_events_committed (deref s r)) s in
     (Finished (Reply (answer_of req (deref s r))), s))"

definition begin_commit :: "request \<Rightarrow> task_ref \<Rightarrow> string \<Rightarrow> service \<Rightarrow> handler_point \<times> service" where
  "begin_commit req r tid s = (let t = deref s r; events = get_uncommitted_events t in
     if events = [] then conclude_commit req r s
     else (Committing r (call_save tid events (version t - int (length events))), s))"

definition begin_save :: "request \<Rightarrow> task_ref \<Rightarrow> service \<Rightarrow> handler_point \<times> service" where
  "begin_save req r s = (let t = deref s r; events = get_uncommitted_events t in
     if events = [] then begin_commit req r (aggregate_id t) s
     else (SavingTask r (call_save (aggregate_id t) events
       (case expected_of req of None \<Rightarrow> version t - int (length events) | Some v \<Rightarrow> v)), s))"

definition begin_change :: "dataclass_kind \<Rightarrow> request \<Rightarrow> task_ref \<Rightarrow> service \<Rightarrow> handler_point \<times> service" where
  "begin_change kind req r s = (case req of
     GetReq _ _ \<Rightarrow> (Finished (Reply (answer_of req (deref s r))), s)
   | _ \<Rightarrow> (case call_task (change_of kind req) r s of
         (Inl e, s) \<Rightarrow> (Finished (error_reply req e), s)
       | (Inr _, s) \<Rightarrow> begin_save req r s))"

definition begin_request :: "dataclass_kind \<Rightarrow> request \<Rightarrow> service \<Rightarrow> handler_point \<times> service" where
  "begin_request kind req s = (case req of
     CreateReq a q \<Rightarrow> (case create kind (fresh_task a) (fresh_event a) (write_time a) (create_command_of a q) of
         Inl e \<Rightarrow> (Finished (error_reply req e), s)
       | Inr t \<Rightarrow> (case new_ref t s of (r, s) \<Rightarrow> begin_save req r s))
   | _ \<Rightarrow> (case dict_get (cache s) (task_of req) of
         Some r \<Rightarrow> begin_change kind req r s
       | None \<Rightarrow> (Loading, s)))"

text \<open>What \<open>get_by_id\<close> does with the events, when they have been read.\<close>

definition load_from_store :: "datetime \<Rightarrow> string \<Rightarrow> service \<Rightarrow> task_ref option result \<times> service" where
  "load_from_store now tid s = bind_s (call_store (get_events EVENT_REGISTRY now tid 0) s) (\<lambda>events s.
     if events = [] then (Inr None, s)
     else (case from_events events of
         Inl e \<Rightarrow> (Inl e, s)
       | Inr t \<Rightarrow> if is_deleted t then (Inr None, s)
           else (case new_ref t s of (r, s) \<Rightarrow> (Inr (Some r), s\<lparr>cache := dict_set tid r (cache s)\<rparr>))))"

section \<open>Turns\<close>

definition turn :: "dataclass_kind \<Rightarrow> request \<Rightarrow> handler_point \<Rightarrow> service \<Rightarrow> handler_point \<times> service" where
  "turn kind req p s = (case p of
     Loading \<Rightarrow> (case load_from_store (read_time (ambient_of req)) (task_of req) s of
         (Inl e, s) \<Rightarrow> (Finished (error_reply req e), s)
       | (Inr None, s) \<Rightarrow> (Finished (missing_reply req), s)
       | (Inr (Some r), s) \<Rightarrow> begin_change kind req r s)
   | SavingTask r c \<Rightarrow> (case save_tick c (store s) of (c, d) \<Rightarrow> let s = s\<lparr>store := d\<rparr> in
       (case at_point c of
          Saved (Inl e) \<Rightarrow> (Finished (error_reply req (conflict_of (for_aggregate c) (expected_ver c) e)), s)
        | Saved (Inr _) \<Rightarrow> begin_commit req r (for_aggregate c)
            (s\<lparr>cache := dict_set (for_aggregate c) r (cache s)\<rparr>)
        | _ \<Rightarrow> (SavingTask r c, s)))
   | Committing r c \<Rightarrow> (case save_tick c (store s) of (c, d) \<Rightarrow> let s = s\<lparr>store := d\<rparr> in
       (case at_point c of
          Saved (Inl e) \<Rightarrow> (Finished (error_reply req e), s)
        | Saved (Inr _) \<Rightarrow> (Publishing r,
            s\<lparr>outbox := outbox s @ map (\<lambda>e. (get_topic_for_event e, e)) (to_save c)\<rparr>)
        | _ \<Rightarrow> (Committing r c, s)))
   | Publishing r \<Rightarrow> conclude_commit req r s
   | Finished _ \<Rightarrow> (p, s))"

datatype server_event = Arrive request | Turn nat | Others "row list"

type_synonym server = "(request \<times> handler_point) list \<times> service"

fun server_step :: "dataclass_kind \<Rightarrow> server_event \<Rightarrow> server \<Rightarrow> server" where
  "server_step kind (Arrive req) (hs, s) = (case begin_request kind req s of (p, s) \<Rightarrow> (hs @ [(req, p)], s))"
| "server_step kind (Turn i) (hs, s) = (if i < length hs
     then (case hs ! i of (req, p) \<Rightarrow> case turn kind req p s of (p, s) \<Rightarrow> (hs[i := (req, p)], s))
     else (hs, s))"
| "server_step kind (Others rs) (hs, s) = (hs, s\<lparr>store := (store s)\<lparr>rows := rows (store s) @ rs\<rparr>\<rparr>)"

fun server_run :: "dataclass_kind \<Rightarrow> server_event list \<Rightarrow> server \<Rightarrow> server" where
  "server_run kind [] sv = sv"
| "server_run kind (e # es) sv = server_run kind es (server_step kind e sv)"

definition new_server :: "db \<Rightarrow> server" where
  "new_server d = ([], \<lparr>store = d, heap = [], cache = [], outbox = []\<rparr>)"

section \<open>How objects change\<close>

text \<open>The version before the uncommitted events; a commit expects it.\<close>

definition base_version :: "task \<Rightarrow> int" where
  "base_version t = version t - int (length (uncommitted_events t))"

definition grows :: "task \<Rightarrow> task \<Rightarrow> bool" where
  "grows t t' = (aggregate_id t' = aggregate_id t \<and> base_version t' \<le> base_version t
     \<and> prefix (uncommitted_events t) (uncommitted_events t'))"

lemma grows_refl [simp]: "grows t t"
  by (simp add: grows_def)

lemma grows_trans: "grows t u \<Longrightarrow> grows u v \<Longrightarrow> grows t v"
  unfolding grows_def by (metis order_trans prefix_order.trans)

lemma grows_raise: "grows t (fst (raise_event kind apply_event t e))"
proof (cases kind)
  case Mutable
  obtain a x where a: "apply_event t (stamp t e) = (a, x)" by fastforce
  have "version a = version t" "aggregate_id a = aggregate_id t"
    using a task.app_keeps_version task.app_id [of t "stamp t e"] by auto
  then show ?thesis using a Mutable
    by (cases x) (auto simp: grows_def base_version_def raise_event_Mutable task.app_uncommitted done_eff_def)
qed simp

lemma grows_command: "grows t (fst (execute_command kind eid now cmd t))"
proof -
  obtain t' x where r: "execute_command kind eid now cmd t = (t', x)" by fastforce
  then show ?thesis
  proof (cases rule: command_cases)
    case (event p)
    then show ?thesis using grows_raise [of t kind "new_event eid now (aggregate_id t) p"] r by simp
  qed (use r in simp)
qed

lemma change_of_grows: "grows t (fst (change_of kind req t))"
proof (cases req)
  case (UpdateReq a q)
  then show ?thesis using grows_command [of t kind _ _ "Update (update_command_of a q)"] by simp
next
  case (AssignReq a q)
  then show ?thesis using grows_command [of t kind _ _ "Assign (assign_command_of a q)"] by simp
next
  case (DeleteReq a q)
  then show ?thesis using grows_command [of t kind _ _ "Delete (delete_command_of a q)"] by simp
qed (simp_all add: done_eff_def)

lemma change_of_stamped: "tail_stamped t \<Longrightarrow> tail_stamped (fst (change_of kind req t))"
  by (cases req) (simp_all add: tail_stamped_methods done_eff_def)

text \<open>What a state keeps of an earlier one while the handlers run.\<close>

definition later :: "service \<Rightarrow> service \<Rightarrow> bool" where
  "later s s' = (length (heap s) \<le> length (heap s') \<and> (\<forall>r < length (heap s). grows (deref s r) (deref s' r))
     \<and> uuid_in (store s') = uuid_in (store s) \<and> set (rows (store s)) \<subseteq> set (rows (store s')))"

lemma later_refl [simp]: "later s s"
  by (simp add: later_def)

lemma later_trans: "later s s' \<Longrightarrow> later s' s'' \<Longrightarrow> later s s''"
  unfolding later_def by (auto intro: grows_trans)

lemma later_fields [simp]:
  "later s (s'\<lparr>cache := c\<rparr>) = later s s'" "later s (s'\<lparr>outbox := b\<rparr>) = later s s'"
  by (simp_all add: later_def deref_def)

lemma later_new_ref: "new_ref t s = (r, s') \<Longrightarrow> later s s'"
  by (auto simp: new_ref_def later_def deref_def nth_append)

lemma later_set_ref: "grows (deref s r) t \<Longrightarrow> later s (set_ref r t s)"
proof -
  assume "grows (deref s r) t"
  then have "grows (deref s i) (deref (set_ref r t s) i)" if "i < length (heap s)" for i
    using that by (cases "i = r") (simp_all add: set_ref_def deref_def)
  then show ?thesis by (simp add: later_def) (simp add: set_ref_def)
qed

lemma later_store:
  "uuid_in d = uuid_in (store s) \<Longrightarrow> set (rows (store s)) \<subseteq> set (rows d) \<Longrightarrow> later s (s\<lparr>store := d\<rparr>)"
  by (simp add: later_def deref_def)

lemma save_tick_adds:
  assumes "save_tick c d = (c', d')" "call_ok c"
  shows "set (rows d) \<subseteq> set (rows d') \<and> uuid_in d' = uuid_in d \<and> request_of c' = request_of c \<and> call_ok c'"
  using assms by (cases rule: save_tick_cases) auto

section \<open>Where a handler can stand\<close>

text \<open>
  A handler that saves holds an object with uncommitted events, of which its call has the last at its time;
  the version before them is lower than that event. A handler that commits holds events whose versions are
  taken. None gets as far as publishing.
\<close>

definition point_ok :: "service \<Rightarrow> handler_point \<Rightarrow> bool" where
  "point_ok s p = (case p of
     SavingTask r c \<Rightarrow> r < length (heap s) \<and> uncommitted_events (deref s r) \<noteq> [] \<and> call_ok c \<and> to_save c \<noteq> []
       \<and> for_aggregate c = aggregate_id (deref s r) \<and> base_version (deref s r) < ev_version (last (to_save c))
       \<and> (\<forall>k < inserted_of c. has_row (store s) c k)
   | Committing r c \<Rightarrow> at_point c = Querying \<and> to_save c \<noteq> []
       \<and> (\<exists>x \<in> set (rows (store s)). Some (row_aggregate_id x) = uuid_in (store s) (for_aggregate c)
            \<and> expected_ver c < row_version x)
   | Publishing r \<Rightarrow> False
   | _ \<Rightarrow> True)"

lemma point_ok_later: "point_ok s p \<Longrightarrow> later s s' \<Longrightarrow> point_ok s' p"
proof (cases p)
  case (SavingTask r c)
  assume p: "point_ok s p" and l: "later s s'"
  have r: "r < length (heap s)" "\<forall>k < inserted_of c. has_row (store s) c k" using p SavingTask by (simp_all add: point_ok_def)
  have g: "grows (deref s r) (deref s' r)" "r < length (heap s')" using l r(1) by (auto simp: later_def)
  have "uncommitted_events (deref s' r) \<noteq> []" "for_aggregate c = aggregate_id (deref s' r)"
    "base_version (deref s' r) < ev_version (last (to_save c))"
    using p SavingTask g(1) by (auto simp: point_ok_def grows_def)
  moreover have "\<forall>k < inserted_of c. has_row (store s') c k"
    using r(2) l has_row_mono [of "store s" c _ c "store s'"] by (simp add: later_def)
  ultimately show ?thesis using p SavingTask g(2) by (simp add: point_ok_def)
next
  case (Committing r c)
  assume "point_ok s p" "later s s'"
  then show ?thesis using Committing by (auto simp: point_ok_def later_def)
qed (simp_all add: point_ok_def)

text \<open>Everything that holds of a step: the state stays right, it keeps what was there, and the new point is right.\<close>

definition step_ok :: "service \<Rightarrow> handler_point \<times> service \<Rightarrow> bool" where
  "step_ok s q = (service_ok (snd q) \<and> later s (snd q) \<and> point_ok (snd q) (fst q))"

lemma step_ok_later: "later s s1 \<Longrightarrow> step_ok s1 q \<Longrightarrow> step_ok s q"
  unfolding step_ok_def using later_trans by blast

lemma finished_ok: "service_ok s \<Longrightarrow> step_ok s (Finished rep, s)"
  by (simp add: step_ok_def point_ok_def)

lemma conclude_nothing:
  assumes "uncommitted_events (deref s r) = []"
  shows "conclude_commit req r s = (Finished (Reply (answer_of req (deref s r))), s)"
proof -
  have "(deref s r)\<lparr>uncommitted_events := []\<rparr> = deref s r" by (simp add: assms [symmetric])
  then have "set_ref r (mark_events_committed (deref s r)) s = s"
    by (simp add: set_ref_def mark_events_committed_def) (simp add: deref_def)
  then show ?thesis by (simp add: conclude_commit_def Let_def)
qed

lemma begin_commit_nothing:
  "uncommitted_events (deref s r) = [] \<Longrightarrow> begin_commit req r tid s = (Finished (Reply (answer_of req (deref s r))), s)"
  by (simp add: begin_commit_def get_uncommitted_events_def conclude_nothing Let_def)

lemma begin_save_ok:
  assumes "service_ok s" "r < length (heap s)"
  shows "step_ok s (begin_save req r s)"
proof (cases "uncommitted_events (deref s r) = []")
  case True
  then show ?thesis using assms finished_ok
    by (simp add: begin_save_def get_uncommitted_events_def begin_commit_nothing Let_def)
next
  case False
  have "version (deref s r) \<le> ev_version (last (uncommitted_events (deref s r)))"
    using service_ok_deref [OF assms] False by (simp add: tail_stamped_def)
  moreover have "0 < length (uncommitted_events (deref s r))" using False by simp
  ultimately have "base_version (deref s r) < ev_version (last (uncommitted_events (deref s r)))"
    unfolding base_version_def by linarith
  then show ?thesis using assms False
    by (simp add: begin_save_def get_uncommitted_events_def Let_def step_ok_def point_ok_def call_save_def call_ok_def
      inserted_of_def)
qed

lemma begin_change_ok:
  assumes "service_ok s" "r < length (heap s)"
  shows "step_ok s (begin_change kind req r s)"
proof -
  obtain t err where t: "change_of kind req (deref s r) = (t, err)" by fastforce
  let ?s = "set_ref r t s"
  have "grows (deref s r) t" using change_of_grows [of "deref s r" kind req] t by simp
  then have l: "later s ?s" by (rule later_set_ref)
  have "tail_stamped t" using change_of_stamped [OF service_ok_deref [OF assms], of kind req] t by simp
  then have ok: "service_ok ?s" using service_ok_set_ref assms(1) by blast
  have "r < length (heap ?s)" using assms(2) by (simp add: set_ref_def)
  then have "step_ok s (begin_save req r ?s)" "step_ok s (Finished rep, ?s)" for rep
    using step_ok_later [OF l] begin_save_ok [OF ok] finished_ok [OF ok] by blast+
  then show ?thesis using t finished_ok [OF assms(1)]
    by (auto simp: begin_change_def call_task_def split: request.split option.split)
qed

lemma begin_request_ok:
  assumes "service_ok s"
  shows "step_ok s (begin_request kind req s)"
proof -
  have loaded: "r < length (heap s)" if "dict_get (cache s) tid = Some r" for tid r
    using assms that by (auto simp: service_ok_def)
  have other: "step_ok s (case dict_get (cache s) tid of Some r \<Rightarrow> begin_change kind req r s | None \<Rightarrow> (Loading, s))" for tid req
    using begin_change_ok [OF assms] loaded assms by (auto simp: step_ok_def point_ok_def split: option.split)
  show ?thesis
  proof (cases req)
    case (CreateReq a q)
    show ?thesis
    proof (cases "create kind (fresh_task a) (fresh_event a) (write_time a) (create_command_of a q)")
      case (Inl e)
      then show ?thesis using CreateReq finished_ok [OF assms] by (simp add: begin_request_def)
    next
      case (Inr t)
      obtain r s1 where n: "new_ref t s = (r, s1)" by fastforce
      note n_ok = service_ok_new_ref [OF assms conjunct2 [OF create_tail_stamped [OF Inr]] n]
      have "step_ok s (begin_save req r s1)"
        using step_ok_later [OF later_new_ref [OF n]] begin_save_ok n_ok by blast
      then show ?thesis using CreateReq Inr n by (simp add: begin_request_def)
    qed
  qed (use other in \<open>simp_all add: begin_request_def\<close>)
qed

lemma load_from_store_ok:
  assumes "service_ok s" "load_from_store now tid s = (res, s')"
  shows "service_ok s' \<and> later s s' \<and> (\<forall>r. res = Inr (Some r) \<longrightarrow> r < length (heap s'))"
proof -
  obtain es where es: "call_store (get_events EVENT_REGISTRY now tid 0) s = (es, s)"
    by (simp add: call_get_events)
  show ?thesis
  proof (cases "\<exists>evs t. es = Inr evs \<and> evs \<noteq> [] \<and> from_events evs = Inr t \<and> \<not> is_deleted t")
    case True
    then obtain evs t where t: "es = Inr evs" "evs \<noteq> []" "from_events evs = Inr t" "\<not> is_deleted t" by blast
    have st: "tail_stamped t" using from_events_uncommitted [OF t(3)] by (simp add: tail_stamped_def)
    obtain r s1 where n: "new_ref t s = (r, s1)" by fastforce
    have "res = Inr (Some r)" "s' = s1\<lparr>cache := dict_set tid r (cache s1)\<rparr>"
      using assms(2) es t n by (simp_all add: load_from_store_def)
    then show ?thesis using service_ok_new_ref [OF assms(1) st n] service_ok_cache later_new_ref [OF n] by simp
  next
    case False
    then have "s' = s \<and> (\<forall>r. res \<noteq> Inr (Some r))"
      using assms(2) es by (cases es) (auto simp: load_from_store_def split: if_splits sum.splits)
    then show ?thesis using assms(1) by simp
  qed
qed

section \<open>A save is never followed by a reply\<close>

text \<open>The commit repeats the save of the repository, and finds the versions taken.\<close>

lemma saving_turn_ok:
  assumes ok: "service_ok s" and p: "point_ok s (SavingTask r c)" "turn kind req (SavingTask r c) s = (p', s')"
  shows "step_ok s (p', s') \<and> (case p' of Finished rep \<Rightarrow> \<exists>e. rep = error_reply req e | Loading \<Rightarrow> False | _ \<Rightarrow> True)"
proof -
  obtain c1 d where t: "save_tick c (store s) = (c1, d)" by fastforce
  have c: "call_ok c" "to_save c \<noteq> []" "r < length (heap s)" "uncommitted_events (deref s r) \<noteq> []"
    "for_aggregate c = aggregate_id (deref s r)" "base_version (deref s r) < ev_version (last (to_save c))"
    "\<forall>k < inserted_of c. has_row (store s) c k"
    using p(1) by (simp_all add: point_ok_def)
  note adds = save_tick_adds [OF t c(1)]
  let ?s = "s\<lparr>store := d\<rparr>"
  have ok1: "service_ok ?s" and l: "later s ?s" using ok adds later_store by simp_all
  have same: "for_aggregate c1 = for_aggregate c" "to_save c1 = to_save c" "expected_ver c1 = expected_ver c"
    using adds by (simp_all add: request_of_def)
  have row: "\<forall>k < inserted_of c1. has_row d c1 k" using t c(1)
  proof (cases rule: save_tick_cases)
    case still
    then show ?thesis using c(7) has_row_mono [of "store s" c _ c1 d] adds by (metis order_less_le_trans)
  next
    case (insert u eid)
    let ?x = "row_of_event (next_id (store s)) eid u (to_save c ! inserted_of c)"
    have "has_row d c1 (inserted_of c)"
      using insert same by (auto simp: has_row_def version_key_def row_of_event_def)
    moreover have "has_row d c1 k" if "k < inserted_of c" for k
      using c(7) that has_row_mono [of "store s" c k c1 d] adds by blast
    ultimately show ?thesis using insert(5) less_Suc_eq by simp
  qed
  show ?thesis
  proof (cases "at_point c1")
    case Querying
    then have "p' = SavingTask r c1" "s' = ?s" using p(2) t by (simp_all add: turn_def)
    then show ?thesis using ok1 l row c same adds by (simp add: step_ok_def point_ok_def deref_def)
  next
    case (Inserting k)
    then have "p' = SavingTask r c1" "s' = ?s" using p(2) t by (simp_all add: turn_def)
    then show ?thesis using ok1 l row c same adds by (simp add: step_ok_def point_ok_def deref_def)
  next
    case (Saved res)
    show ?thesis
    proof (cases res)
      case (Inl e)
      then have "p' = Finished (error_reply req (conflict_of (for_aggregate c1) (expected_ver c1) e))" "s' = ?s"
        using p(2) t Saved by (simp_all add: turn_def)
      then show ?thesis using ok1 l by (auto simp: step_ok_def point_ok_def)
    next
      case (Inr u)
      let ?s2 = "?s\<lparr>cache := dict_set (for_aggregate c1) r (cache s)\<rparr>"
      have d: "deref ?s2 r = deref s r" by (simp add: deref_def)
      let ?es = "uncommitted_events (deref s r)"
      let ?c2 = "call_save (for_aggregate c1) ?es (version (deref s r) - int (length ?es))"
      have p': "p' = Committing r ?c2" "s' = ?s2"
        using p(2) t Saved Inr c(4) d by (simp_all add: turn_def begin_commit_def get_uncommitted_events_def Let_def)
      have ok2: "service_ok ?s2" using service_ok_cache [OF ok1] c(3) by simp
      have "inserted_of c1 = length (to_save c)" using Saved Inr same by (simp add: inserted_of_def)
      then have "has_row d c1 (length (to_save c) - 1)" using row c(2) by simp
      then obtain x where "x \<in> set (rows d)" "Some (row_aggregate_id x) = uuid_in d (for_aggregate c1)"
        "row_version x = ev_version (last (to_save c))"
        using same c(2) by (auto simp: has_row_def version_key_def last_conv_nth)
      then have "point_ok ?s2 (Committing r ?c2)"
        using c(4,6) by (auto simp: point_ok_def call_save_def base_version_def)
      then show ?thesis using p' ok2 l by (simp add: step_ok_def)
    qed
  qed
qed

lemma committing_turn:
  assumes "point_ok s (Committing r c)"
  shows "\<exists>e. turn kind req (Committing r c) s = (Finished (error_reply req e), s)"
proof -
  obtain x where x: "at_point c = Querying" "x \<in> set (rows (store s))"
    "Some (row_aggregate_id x) = uuid_in (store s) (for_aggregate c)" "expected_ver c < row_version x"
    using assms by (auto simp: point_ok_def)
  then have "max_version (row_aggregate_id x) (rows (store s)) \<noteq> expected_ver c"
    using max_version_ge [OF x(2), of "row_aggregate_id x"] by simp
  then show ?thesis using x(1) x(3) [symmetric]
    by (auto simp: turn_def save_tick_def get_current_version_def with_uuid_def db_error_def Let_def)
qed

text \<open>A handler that has begun to save and has not replied.\<close>

fun unacknowledged :: "request \<Rightarrow> handler_point \<Rightarrow> bool" where
  "unacknowledged req Loading = False"
| "unacknowledged req (Finished rep) = (\<forall>x. rep \<noteq> Reply x)"
| "unacknowledged req p = True"

lemma error_reply_not_Reply [simp]: "error_reply req e \<noteq> Reply x"
  by (cases req) simp_all

lemma missing_reply_not_Reply [simp]: "missing_reply req \<noteq> Reply x"
  by (cases req) simp_all

lemma turn_ok:
  assumes "service_ok s" "point_ok s p"
  shows "step_ok s (turn kind req p s) \<and> (unacknowledged req p \<longrightarrow> unacknowledged req (fst (turn kind req p s)))"
proof (cases p)
  case Loading
  obtain res s1 where l: "load_from_store (read_time (ambient_of req)) (task_of req) s = (res, s1)" by fastforce
  note l_ok = load_from_store_ok [OF assms(1) l]
  have "step_ok s (begin_change kind req r s1)" if "res = Inr (Some r)" for r
    using step_ok_later begin_change_ok l_ok that by blast
  moreover have "step_ok s (Finished rep, s1)" for rep using step_ok_later finished_ok l_ok by blast
  ultimately show ?thesis using Loading l by (auto simp: turn_def split: sum.split option.split)
next
  case (SavingTask r c)
  obtain p' s' where "turn kind req (SavingTask r c) s = (p', s')" by fastforce
  from saving_turn_ok [OF assms(1) _ this] this show ?thesis
    using assms(2) SavingTask by (cases p') auto
next
  case (Committing r c)
  then show ?thesis using committing_turn [of s r c kind req] assms finished_ok by auto
next
  case (Publishing r)
  then show ?thesis using assms(2) by (simp add: point_ok_def)
next
  case (Finished rep)
  then show ?thesis using assms(1) finished_ok by (simp add: turn_def)
qed

text \<open>A creation or deletion always records an event, so it always has something to save.\<close>

fun must_save :: "request \<Rightarrow> bool" where
  "must_save (CreateReq a q) = True"
| "must_save (DeleteReq a q) = True"
| "must_save _ = False"

fun acknowledged :: "handler_point \<Rightarrow> bool" where
  "acknowledged (Finished (Reply x)) = True"
| "acknowledged _ = False"

lemma unacknowledged_not: "unacknowledged req p \<Longrightarrow> \<not> acknowledged p"
  by (cases p rule: acknowledged.cases) auto

lemma not_acknowledged_abort [simp]: "(\<And>x. rep \<noteq> Reply x) \<Longrightarrow> \<not> acknowledged (Finished rep)"
  by (cases rep) auto

lemma begin_save_something:
  "uncommitted_events (deref s r) \<noteq> [] \<Longrightarrow> \<not> acknowledged (fst (begin_save req r s))"
  by (simp add: begin_save_def get_uncommitted_events_def Let_def)

lemma begin_change_delete:
  assumes "r < length (heap s)"
  shows "\<not> acknowledged (fst (begin_change kind (DeleteReq a q) r s))"
proof -
  obtain t err where t: "delete kind (fresh_event a) (write_time a) (delete_command_of a q) (deref s r) = (t, err)" by fastforce
  show ?thesis
  proof (cases err)
    case None
    then have "uncommitted_events t \<noteq> []" using delete_records t by simp
    moreover have "deref (set_ref r t s) r = t" using assms by (simp add: set_ref_def deref_def)
    ultimately show ?thesis using t None begin_save_something by (simp add: begin_change_def call_task_def)
  next
    case (Some e)
    then show ?thesis using t by (simp add: begin_change_def call_task_def)
  qed
qed

lemma begin_request_unacknowledged:
  assumes "service_ok s" "must_save req"
  shows "\<not> acknowledged (fst (begin_request kind req s))"
proof (cases req)
  case (CreateReq a q)
  show ?thesis
  proof (cases "create kind (fresh_task a) (fresh_event a) (write_time a) (create_command_of a q)")
    case (Inl e)
    then show ?thesis using CreateReq by (simp add: begin_request_def)
  next
    case (Inr t)
    obtain r s1 where n: "new_ref t s = (r, s1)" by fastforce
    note c = create_tail_stamped [OF Inr]
    have "uncommitted_events (deref s1 r) \<noteq> []" using service_ok_new_ref [OF assms(1) conjunct2 [OF c] n] c by simp
    then show ?thesis using CreateReq Inr n begin_save_something by (simp add: begin_request_def)
  qed
next
  case (DeleteReq a q)
  have "r < length (heap s)" if "dict_get (cache s) (dq_task_id q) = Some r" for r
    using assms(1) that by (auto simp: service_ok_def)
  then show ?thesis using DeleteReq begin_change_delete by (auto simp: begin_request_def split: option.split)
qed (use assms(2) in simp_all)

lemma turn_must_save:
  assumes "service_ok s" "point_ok s p" "must_save req" "\<not> acknowledged p" "\<not> (\<exists>a q. req = CreateReq a q \<and> p = Loading)"
  shows "\<not> acknowledged (fst (turn kind req p s))"
proof (cases "p = Loading")
  case True
  then obtain a q where q: "req = DeleteReq a q" using assms(3,5) by (cases req) auto
  obtain res s1 where l: "load_from_store (read_time a) (dq_task_id q) s = (res, s1)" by fastforce
  note l_ok = load_from_store_ok [OF assms(1) l]
  show ?thesis using True q l l_ok begin_change_delete
    by (auto simp: turn_def split: sum.split option.split)
next
  case False
  then have "unacknowledged req p" using assms(4) by (cases p rule: acknowledged.cases) auto
  then show ?thesis using turn_ok [OF assms(1,2)] unacknowledged_not by blast
qed

section \<open>All runs\<close>

definition server_ok :: "server \<Rightarrow> bool" where
  "server_ok sv = (service_ok (snd sv) \<and> (\<forall>(req, p) \<in> set (fst sv). point_ok (snd sv) p
     \<and> (must_save req \<longrightarrow> \<not> acknowledged p) \<and> \<not> (\<exists>a q. req = CreateReq a q \<and> p = Loading)))"

lemma server_ok_new: "server_ok (new_server d)"
  by (simp add: server_ok_def new_server_def service_ok_def)

lemma create_never_loads: "fst (begin_request kind (CreateReq a q) s) \<noteq> Loading"
  by (auto simp: begin_request_def begin_save_def begin_commit_def conclude_commit_def Let_def new_ref_def split: sum.split)

lemma turn_never_loads: "p \<noteq> Loading \<Longrightarrow> fst (turn kind req p s) \<noteq> Loading"
  by (cases p) (auto simp: turn_def begin_commit_def conclude_commit_def Let_def
    split: prod.split save_point.split sum.split)

lemma server_ok_step: "server_ok sv \<Longrightarrow> server_ok (server_step kind e sv)"
proof -
  assume ok: "server_ok sv"
  obtain hs s where sv: "sv = (hs, s)" by fastforce
  have s: "service_ok s" and hs: "\<And>req p. (req, p) \<in> set hs \<Longrightarrow> point_ok s p \<and> (must_save req \<longrightarrow> \<not> acknowledged p)
      \<and> \<not> (\<exists>a q. req = CreateReq a q \<and> p = Loading)"
    using ok sv by (auto simp: server_ok_def)
  show ?thesis
  proof (cases e)
    case (Arrive req)
    obtain p s1 where b: "begin_request kind req s = (p, s1)" by fastforce
    have "step_ok s (p, s1)" "must_save req \<longrightarrow> \<not> acknowledged p"
      using begin_request_ok [OF s, of kind req] begin_request_unacknowledged [OF s, of req kind] b by auto
    moreover have "\<not> (\<exists>a q. req = CreateReq a q \<and> p = Loading)"
      using b create_never_loads by (metis fst_conv)
    ultimately show ?thesis using Arrive sv b hs point_ok_later by (fastforce simp: server_ok_def step_ok_def)
  next
    case (Turn i)
    show ?thesis
    proof (cases "i < length hs")
      case True
      obtain req p where h: "hs ! i = (req, p)" by fastforce
      then have p: "point_ok s p" "must_save req \<longrightarrow> \<not> acknowledged p" "\<not> (\<exists>a q. req = CreateReq a q \<and> p = Loading)"
        using hs True nth_mem by metis+
      obtain p1 s1 where t: "turn kind req p s = (p1, s1)" by fastforce
      have "step_ok s (p1, s1)" "must_save req \<longrightarrow> \<not> acknowledged p1"
        using turn_ok [OF s p(1), of kind req] turn_must_save [OF s p(1), of req kind] p(2,3) t by auto
      moreover have "\<not> (\<exists>a q. req = CreateReq a q \<and> p1 = Loading)"
        using turn_never_loads [of p kind req s] p(3) t by auto
      ultimately show ?thesis using Turn sv True h t hs point_ok_later
        by (fastforce simp: server_ok_def step_ok_def dest!: set_update_subset_insert [THEN subsetD])
    qed (use Turn sv ok in simp)
  next
    case (Others rs)
    let ?s = "s\<lparr>store := (store s)\<lparr>rows := rows (store s) @ rs\<rparr>\<rparr>"
    have "later s ?s" by (rule later_store) auto
    then show ?thesis using Others sv s hs point_ok_later by (fastforce simp: server_ok_def)
  qed
qed

lemma server_ok_run: "server_ok sv \<Longrightarrow> server_ok (server_run kind es sv)"
  by (induction es arbitrary: sv) (simp_all add: server_ok_step)

lemma unacknowledged_step:
  assumes "server_ok sv" "i < length (fst sv)" "unacknowledged (fst (fst sv ! i)) (snd (fst sv ! i))"
  shows "i < length (fst (server_step kind e sv)) \<and> unacknowledged (fst (fst (server_step kind e sv) ! i)) (snd (fst (server_step kind e sv) ! i))"
proof -
  obtain hs s where sv: "sv = (hs, s)" by fastforce
  show ?thesis
  proof (cases e)
    case (Arrive req)
    then show ?thesis using assms sv by (auto simp: nth_append split: prod.split)
  next
    case (Turn j)
    obtain req p where h: "hs ! j = (req, p)" by fastforce
    show ?thesis
    proof (cases "j = i")
      case True
      have "(req, p) \<in> set hs" using h assms(2) sv True by (metis fst_conv nth_mem)
      then have "service_ok s" "point_ok s p" using assms(1) sv by (auto simp: server_ok_def)
      from turn_ok [OF this, of kind req] show ?thesis using assms(2,3) sv True Turn h by (auto split: prod.split)
    next
      case False
      then show ?thesis using assms(2,3) sv Turn h by (auto split: prod.split)
    qed
  qed (use assms sv in simp)
qed

lemma unacknowledged_run:
  assumes "server_ok sv" "i < length (fst sv)" "unacknowledged (fst (fst sv ! i)) (snd (fst sv ! i))"
  shows "i < length (fst (server_run kind es sv)) \<and> unacknowledged (fst (fst (server_run kind es sv) ! i)) (snd (fst (server_run kind es sv) ! i))"
  using assms
proof (induction es arbitrary: sv)
  case (Cons e es)
  then show ?case using unacknowledged_step [OF Cons.prems] server_ok_step by simp
qed simp

text \<open>C7: No write is acknowledged, however the handlers interleave. In every run of a service, whatever requests
  arrive, in whatever order their statements alternate and whatever rows other processes add: a handler
  that has begun to save never replies, no \<open>CreateTask\<close> or \<open>DeleteTask\<close> ever replies, and nothing is published.\<close>

theorem concurrent_writes_unacknowledged:
  assumes "server_run kind es (new_server d) = (hs, s)" and "server_run kind fs (hs, s) = (hs', s')"
    and "i < length hs" "snd (hs ! i) = SavingTask r c"
  shows "outbox s' = [] \<and> (\<forall>x. snd (hs' ! i) \<noteq> Finished (Reply x))
    \<and> (\<forall>j < length hs'. \<forall>x. must_save (fst (hs' ! j)) \<longrightarrow> snd (hs' ! j) \<noteq> Finished (Reply x))"
proof -
  have ok: "server_ok (hs, s)" using server_ok_run [OF server_ok_new, of kind es d] assms(1) by simp
  then have ok': "server_ok (hs', s')" using server_ok_run [of "(hs, s)" kind fs] assms(2) by simp
  have "unacknowledged (fst (hs' ! i)) (snd (hs' ! i))"
    using unacknowledged_run [OF ok, of i kind fs] assms by simp
  then have "\<forall>x. snd (hs' ! i) \<noteq> Finished (Reply x)" by (cases "snd (hs' ! i)") auto
  moreover have "snd (hs' ! j) \<noteq> Finished (Reply x)" if "j < length hs'" "must_save (fst (hs' ! j))" for j x
  proof -
    have "hs' ! j \<in> set hs'" using that by simp
    then have "\<not> acknowledged (snd (hs' ! j))" using ok' that(2) by (auto simp: server_ok_def)
    then show ?thesis by auto
  qed
  ultimately show ?thesis using ok' by (simp add: server_ok_def service_ok_def)
qed

end
