(* ===== verification/Handler_Turns.thy ===== *)
theory Handler_Turns
  imports Concurrent_Handlers Service_Scenario
begin

text \<open>
  A handler of \<open>Concurrent_Handlers\<close> that nothing interrupts is the handler of \<open>Grpc_Server\<close>: it ends with the
  same reply in the same state. And the theorem on concurrent handlers at work.
\<close>

section \<open>Running alone\<close>

fun serve_request :: "dataclass_kind \<Rightarrow> request \<Rightarrow> service \<Rightarrow> answer reply \<times> service" where
  "serve_request kind (CreateReq a q) s = map_prod (map_reply TaskAnswer) id (CreateTask kind a q s)"
| "serve_request kind (UpdateReq a q) s = map_prod (map_reply TaskAnswer) id (UpdateTask kind a q s)"
| "serve_request kind (AssignReq a q) s = map_prod (map_reply TaskAnswer) id (AssignTask kind a q s)"
| "serve_request kind (DeleteReq a q) s = map_prod (map_reply BoolAnswer) id (DeleteTask kind a q s)"
| "serve_request kind (GetReq a tid) s = map_prod (map_reply TaskAnswer) id (GetTask a tid s)"

fun turns :: "dataclass_kind \<Rightarrow> request \<Rightarrow> nat \<Rightarrow> handler_point \<times> service \<Rightarrow> handler_point \<times> service" where
  "turns kind req 0 q = q"
| "turns kind req (Suc n) (p, s) = turns kind req n (turn kind req p s)"

definition ends_in :: "dataclass_kind \<Rightarrow> request \<Rightarrow> handler_point \<times> service \<Rightarrow> answer reply \<times> service \<Rightarrow> bool" where
  "ends_in kind req q e = (\<exists>n. turns kind req n q = (Finished (fst e), snd e))"

lemma ends_finished [simp]: "ends_in kind req (Finished rep, s) (rep, s)"
  unfolding ends_in_def by (rule exI [of _ 0]) simp

lemma ends_turn: "ends_in kind req (turn kind req p s) e \<Longrightarrow> ends_in kind req (p, s) e"
  unfolding ends_in_def by (metis turns.simps(2))

text \<open>The statements of one call of \<open>save_events\<close>, up to the turn in which it returns or raises.\<close>

lemma ends_call:
  assumes stand: "p = SavingTask r \<or> p = Committing r"
    and fin: "finish_call n c d = (c', d')" "at_point c' = Saved res" "\<And>x. at_point c \<noteq> Saved x"
    and last: "\<And>c0 d0. save_tick c0 d0 = (c', d') \<Longrightarrow> (\<And>x. at_point c0 \<noteq> Saved x)
      \<Longrightarrow> ends_in kind req (turn kind req (p c0) (s\<lparr>store := d0\<rparr>)) e"
  shows "ends_in kind req (p c, s\<lparr>store := d\<rparr>) e"
  using fin
proof (induction n arbitrary: c d)
  case (Suc n)
  obtain c1 d1 where t: "save_tick c d = (c1, d1)" by fastforce
  show ?case
  proof (cases "\<exists>x. at_point c1 = Saved x")
    case True
    then have "c1 = c'" "d1 = d'" using Suc.prems(1) t finish_saved by auto
    then show ?thesis using last [OF _ Suc.prems(3)] t ends_turn by blast
  next
    case False
    then have "turn kind req (p c) (s\<lparr>store := d\<rparr>) = (p c1, s\<lparr>store := d1\<rparr>)"
      using t stand by (cases "at_point c1") (auto simp: turn_def)
    moreover have "ends_in kind req (p c1, s\<lparr>store := d1\<rparr>) e" using Suc.IH [of c1 d1] Suc.prems(1,2) t False by simp
    ultimately show ?thesis using ends_turn by simp
  qed
qed (metis finish_call.simps(1) prod.inject)

text \<open>The two calls of \<open>save_events\<close>, from their begin.\<close>

lemma ends_saving:
  assumes "es \<noteq> []" "save_events tid es v (store s) = (res, d)"
    and "case res of Inl x \<Rightarrow> e = (error_reply req (conflict_of tid v x), s\<lparr>store := d\<rparr>)
      | Inr _ \<Rightarrow> ends_in kind req (begin_commit req r tid (s\<lparr>store := d, cache := dict_set tid r (cache s)\<rparr>)) e"
  shows "ends_in kind req (SavingTask r (call_save tid es v), s) e"
proof -
  let ?c = "call_save tid es v"
  have f: "finish_call (Suc (length es)) ?c (store s) = (?c\<lparr>at_point := Saved res\<rparr>, d)"
    using uninterrupted_call [of es tid v "store s"] assms(2) by simp
  have "ends_in kind req (SavingTask r ?c, s\<lparr>store := store s\<rparr>) e"
  proof (rule ends_call [where r = r, OF _ f])
    show "ends_in kind req (turn kind req (SavingTask r c0) (s\<lparr>store := d0\<rparr>)) e"
      if "save_tick c0 d0 = (?c\<lparr>at_point := Saved res\<rparr>, d)" for c0 d0
      using that assms(3) by (cases res) (auto simp: turn_def call_save_def)
  qed (use assms(1) in \<open>simp_all add: call_save_def\<close>)
  then show ?thesis by simp
qed

lemma ends_committing:
  assumes "es \<noteq> []" "save_events tid es v (store s) = (res, d)"
    and "case res of Inl x \<Rightarrow> e = (error_reply req x, s\<lparr>store := d\<rparr>)
      | Inr _ \<Rightarrow> ends_in kind req (conclude_commit req r
          (s\<lparr>store := d, outbox := outbox s @ map (\<lambda>e. (get_topic_for_event e, e)) es\<rparr>)) e"
  shows "ends_in kind req (Committing r (call_save tid es v), s) e"
proof -
  let ?c = "call_save tid es v"
  have f: "finish_call (Suc (length es)) ?c (store s) = (?c\<lparr>at_point := Saved res\<rparr>, d)"
    using uninterrupted_call [of es tid v "store s"] assms(2) by simp
  have "ends_in kind req (Committing r ?c, s\<lparr>store := store s\<rparr>) e"
  proof (rule ends_call [where r = r, OF _ f])
    show "ends_in kind req (turn kind req (Committing r c0) (s\<lparr>store := d0\<rparr>)) e"
      if "save_tick c0 d0 = (?c\<lparr>at_point := Saved res\<rparr>, d)" for c0 d0
      using that assms(3) ends_turn [of kind req "Publishing r"]
      by (cases res) (auto simp: turn_def call_save_def)
  qed (use assms(1) in \<open>simp_all add: call_save_def\<close>)
  then show ?thesis by simp
qed

lemma conclude_ends:
  "ends_in kind req (conclude_commit req r s)
    (Reply (answer_of req (mark_events_committed (deref s r))), set_ref r (mark_events_committed (deref s r)) s)"
  if "r < length (heap s)"
  using that by (simp add: conclude_commit_def Let_def) (simp add: set_ref_def deref_def)

text \<open>The body of the \<open>async with\<close> and its exit.\<close>

lemma begin_save_ends:
  assumes "r < length (heap s)" "save_in_uow r (expected_of req) s = (res, s')"
  shows "ends_in kind req (begin_save req r s)
    ((case res of Inl x \<Rightarrow> error_reply req x | Inr _ \<Rightarrow> Reply (answer_of req (deref s' r))), s')"
proof -
  let ?t = "deref s r"
  let ?es = "uncommitted_events ?t"
  show ?thesis
  proof (cases "?es = []")
    case True
    then have "res = Inr ()" "s' = s" using assms(2) save_in_uow_nothing by auto
    then show ?thesis using True by (simp add: begin_save_def get_uncommitted_events_def begin_commit_nothing Let_def)
  next
    case False
    let ?v = "case expected_of req of None \<Rightarrow> version ?t - int (length ?es) | Some v \<Rightarrow> v"
    let ?w = "version ?t - int (length ?es)"
    obtain x d where x: "save_events (aggregate_id ?t) ?es ?v (store s) = (x, d)" by fastforce
    have starts: "begin_save req r s = (SavingTask r (call_save (aggregate_id ?t) ?es ?v), s)"
      using False by (simp add: begin_save_def get_uncommitted_events_def Let_def)
    show ?thesis
    proof (cases x)
      case (Inl e)
      then have "res = Inl (conflict_of (aggregate_id ?t) ?v e)" "s' = s\<lparr>store := d\<rparr>"
        using assms(2) x False
        by (auto simp: save_in_uow_def repo_save_def get_uncommitted_events_def call_store_def exit_uow_def Let_def)
      then show ?thesis unfolding starts by (intro ends_saving [OF False x]) (simp add: Inl)
    next
      case (Inr u)
      let ?s1 = "s\<lparr>store := d, cache := dict_set (aggregate_id ?t) r (cache s)\<rparr>"
      have t1: "deref ?s1 r = ?t" by (simp add: deref_def)
      obtain y d2 where y: "save_events (aggregate_id ?t) ?es ?w d = (y, d2)" by fastforce
      have saved: "repo_save r (expected_of req) s = (Inr (), ?s1)"
        using x Inr False by (simp add: repo_save_def get_uncommitted_events_def call_store_def Let_def)
      have commit: "begin_commit req r (aggregate_id ?t) ?s1 = (Committing r (call_save (aggregate_id ?t) ?es ?w), ?s1)"
        using False t1 by (simp add: begin_commit_def get_uncommitted_events_def Let_def)
      have "ends_in kind req (Committing r (call_save (aggregate_id ?t) ?es ?w), ?s1)
        ((case res of Inl x \<Rightarrow> error_reply req x | Inr _ \<Rightarrow> Reply (answer_of req (deref s' r))), s')"
      proof (rule ends_committing [OF False, of _ _ _ y d2])
        show "save_events (aggregate_id ?t) ?es ?w (store ?s1) = (y, d2)" using y by simp
        show "case y of Inl x \<Rightarrow> ((case res of Inl x \<Rightarrow> error_reply req x | Inr _ \<Rightarrow> Reply (answer_of req (deref s' r))), s')
              = (error_reply req x, ?s1\<lparr>store := d2\<rparr>)
            | Inr _ \<Rightarrow> ends_in kind req (conclude_commit req r
                (?s1\<lparr>store := d2, outbox := outbox ?s1 @ map (\<lambda>e. (get_topic_for_event e, e)) ?es\<rparr>))
                ((case res of Inl x \<Rightarrow> error_reply req x | Inr _ \<Rightarrow> Reply (answer_of req (deref s' r))), s')"
        proof (cases y)
          case (Inl e)
          then have "res = Inl e" "s' = ?s1\<lparr>store := d2\<rparr>"
            using assms(2) saved y t1 False
            by (auto simp: save_in_uow_def exit_uow_def commit_def track_aggregate_def new_uow_def
              get_uncommitted_events_def call_store_def Let_def)
          then show ?thesis using Inl by simp
        next
          case (Inr u')
          let ?s2 = "?s1\<lparr>store := d2, outbox := outbox ?s1 @ map (\<lambda>e. (get_topic_for_event e, e)) ?es\<rparr>"
          have "deref ?s2 r = ?t" by (simp add: deref_def)
          then have "res = Inr ()" "s' = set_ref r (mark_events_committed (deref ?s2 r)) ?s2"
            using assms(2) saved y t1 False Inr
            by (auto simp: save_in_uow_def exit_uow_def commit_def track_aggregate_def new_uow_def
              get_uncommitted_events_def call_store_def Let_def)
          moreover have "deref (set_ref r (mark_events_committed (deref ?s2 r)) ?s2) r = mark_events_committed (deref ?s2 r)"
            using assms(1) by (simp add: set_ref_def) (simp add: deref_def)
          ultimately show ?thesis using conclude_ends [of r ?s2 kind req] assms(1) Inr by simp
        qed
      qed
      then show ?thesis unfolding starts by (intro ends_saving [OF False x]) (simp add: Inr commit)
    qed
  qed
qed

section \<open>Whole requests\<close>

lemma set_ref_valid: "r < length (heap s) \<Longrightarrow> r < length (heap (set_ref r t s))"
  by (simp add: set_ref_def)

text \<open>The rest of a handler that changes a task, once it has it.\<close>

lemma begin_change_ends:
  assumes "r < length (heap s)" "case req of CreateReq _ _ \<Rightarrow> False | GetReq _ _ \<Rightarrow> False | _ \<Rightarrow> True"
    and "bind_s (call_task (change_of kind req) r s) (\<lambda>_ s. bind_s (save_in_uow r (expected_of req) s)
      (\<lambda>_ s. (Inr (answer_of req (deref s r)), s))) = (res, s')"
  shows "ends_in kind req (begin_change kind req r s)
    ((case res of Inl x \<Rightarrow> error_reply req x | Inr v \<Rightarrow> Reply v), s')"
proof -
  obtain x s1 where c: "call_task (change_of kind req) r s = (x, s1)" by fastforce
  have b: "begin_change kind req r s = (case x of Inl e \<Rightarrow> (Finished (error_reply req e), s1) | Inr _ \<Rightarrow> begin_save req r s1)"
    using assms(2) c by (cases req) (auto simp: begin_change_def split: sum.split)
  show ?thesis
  proof (cases x)
    case (Inl e)
    then show ?thesis using assms(3) b c by auto
  next
    case (Inr u)
    have "r < length (heap s1)" using assms(1) c by (auto simp: call_task_def set_ref_def split: prod.splits)
    moreover obtain y s2 where y: "save_in_uow r (expected_of req) s1 = (y, s2)" by fastforce
    ultimately have "ends_in kind req (begin_save req r s1)
        ((case y of Inl x \<Rightarrow> error_reply req x | Inr _ \<Rightarrow> Reply (answer_of req (deref s2 r))), s2)"
      by (rule begin_save_ends)
    then show ?thesis using assms(3) b c Inr y by (cases y) auto
  qed
qed

lemma get_by_id_from_store:
  "get_by_id now tid s = (case dict_get (cache s) tid of Some r \<Rightarrow> (Inr (Some r), s) | None \<Rightarrow> load_from_store now tid s)"
  by (simp add: get_by_id_def load_from_store_def split: option.split)

text \<open>Loading, whether the task is cached or not.\<close>

lemma request_ends:
  assumes "service_ok s" "case req of CreateReq _ _ \<Rightarrow> False | _ \<Rightarrow> True"
    and "get_by_id (read_time (ambient_of req)) (task_of req) s = (res, s1)"
    and "case res of Inl x \<Rightarrow> e = (error_reply req x, s1) | Inr None \<Rightarrow> e = (missing_reply req, s1)
      | Inr (Some r) \<Rightarrow> r < length (heap s1) \<longrightarrow> ends_in kind req (begin_change kind req r s1) e"
  shows "ends_in kind req (begin_request kind req s) e"
proof -
  have b: "begin_request kind req s = (case dict_get (cache s) (task_of req) of
      Some r \<Rightarrow> begin_change kind req r s | None \<Rightarrow> (Loading, s))"
    using assms(2) by (cases req) (simp_all add: begin_request_def split: option.split)
  show ?thesis
  proof (cases "dict_get (cache s) (task_of req)")
    case (Some r)
    then have "r < length (heap s)" using assms(1) by (auto simp: service_ok_def)
    then show ?thesis using Some assms(3,4) b by (auto simp: get_by_id_from_store)
  next
    case None
    then have l: "load_from_store (read_time (ambient_of req)) (task_of req) s = (res, s1)"
      using assms(3) by (simp add: get_by_id_from_store)
    note ok = load_from_store_ok [OF assms(1) l]
    have "ends_in kind req (turn kind req Loading s) e"
      using l ok assms(4) by (cases res) (auto simp: turn_def split: option.splits)
    then show ?thesis using None b ends_turn by simp
  qed
qed

lemma serve_change:
  assumes "case req of CreateReq _ _ \<Rightarrow> False | GetReq _ _ \<Rightarrow> False | _ \<Rightarrow> True"
  shows "serve_request kind req s = reply_of (error_reply req)
    (bind_s (load_task (ambient_of req) (task_of req) s) (\<lambda>r s. bind_s (call_task (change_of kind req) r s) (\<lambda>_ s.
     bind_s (save_in_uow r (expected_of req) s) (\<lambda>_ s. (Inr (answer_of req (deref s r)), s)))))"
proof (cases req)
  case (UpdateReq a q)
  then show ?thesis
    by (auto simp: UpdateTask_def reply_of_def bind_s_def update_errors_to_status_def split: prod.split sum.split)
next
  case (AssignReq a q)
  then show ?thesis
    by (auto simp: AssignTask_def reply_of_def bind_s_def assign_errors_to_status_def split: prod.split sum.split)
next
  case (DeleteReq a q)
  then show ?thesis
    by (auto simp: DeleteTask_def reply_of_def bind_s_def assign_errors_to_status_def split: prod.split sum.split)
qed (use assms in simp_all)

lemma change_request_ends:
  assumes "service_ok s" "case req of CreateReq _ _ \<Rightarrow> False | GetReq _ _ \<Rightarrow> False | _ \<Rightarrow> True"
  shows "ends_in kind req (begin_request kind req s) (serve_request kind req s)"
proof -
  obtain res s1 where g: "get_by_id (read_time (ambient_of req)) (task_of req) s = (res, s1)" by fastforce
  have m: "missing_reply req = error_reply req (TaskNotFoundError (task_of req))" using assms(2) by (cases req) simp_all
  show ?thesis unfolding serve_change [OF assms(2)]
  proof (rule request_ends [OF assms(1) _ g])
    show "case req of CreateReq _ _ \<Rightarrow> False | _ \<Rightarrow> True" using assms(2) by (cases req) simp_all
    let ?e = "reply_of (error_reply req)
      (bind_s (load_task (ambient_of req) (task_of req) s) (\<lambda>r s. bind_s (call_task (change_of kind req) r s) (\<lambda>_ s.
       bind_s (save_in_uow r (expected_of req) s) (\<lambda>_ s. (Inr (answer_of req (deref s r)), s)))))"
    have "ends_in kind req (begin_change kind req r s1) ?e" if "res = Inr (Some r)" "r < length (heap s1)" for r
    proof -
      obtain x s2 where x: "bind_s (call_task (change_of kind req) r s1) (\<lambda>_ s. bind_s (save_in_uow r (expected_of req) s)
          (\<lambda>_ s. (Inr (answer_of req (deref s r)), s))) = (x, s2)" by fastforce
      have "?e = ((case x of Inl x \<Rightarrow> error_reply req x | Inr v \<Rightarrow> Reply v), s2)"
        using x g that by (cases x) (simp_all add: load_task_def reply_of_def)
      then show ?thesis using begin_change_ends [OF that(2) assms(2) x] by simp
    qed
    then show "case res of Inl x \<Rightarrow> ?e = (error_reply req x, s1) | Inr None \<Rightarrow> ?e = (missing_reply req, s1)
      | Inr (Some r) \<Rightarrow> r < length (heap s1) \<longrightarrow> ends_in kind req (begin_change kind req r s1) ?e"
      using g m by (auto simp: load_task_def reply_of_def split: sum.split option.split)
  qed
qed

lemma create_request_ends: "ends_in kind (CreateReq a q) (begin_request kind (CreateReq a q) s) (serve_request kind (CreateReq a q) s)"
proof (cases "create kind (fresh_task a) (fresh_event a) (write_time a) (create_command_of a q)")
  case (Inl e)
  then show ?thesis by (simp add: begin_request_def CreateTask_def reply_of_def create_errors_to_status_def)
next
  case (Inr t)
  obtain r s1 where n: "new_ref t s = (r, s1)" by fastforce
  obtain x s2 where x: "save_in_uow r (expected_of (CreateReq a q)) s1 = (x, s2)" by fastforce
  have "r < length (heap s1)" using n by (auto simp: new_ref_def)
  note ends = begin_save_ends [OF this x, of kind]
  have "map_reply TaskAnswer (create_errors_to_status e) = create_errors_to_status e" for e
    by (simp add: create_errors_to_status_def)
  then show ?thesis using ends Inr n x
    by (cases x) (simp_all add: begin_request_def CreateTask_def reply_of_def)
qed

lemma get_request_ends:
  assumes "service_ok s"
  shows "ends_in kind (GetReq a tid) (begin_request kind (GetReq a tid) s) (serve_request kind (GetReq a tid) s)"
proof -
  obtain res s1 where g: "get_by_id (read_time (ambient_of (GetReq a tid))) (task_of (GetReq a tid)) s = (res, s1)" by fastforce
  show ?thesis
    by (rule request_ends [OF assms _ g]) (use g in \<open>auto simp: GetTask_def begin_change_def split: sum.split option.split\<close>)
qed

text \<open>C15: A handler that nothing interrupts refines the handler of the sequential model: taken turn by turn it ends, with
  the reply and the state of \<open>CreateTask\<close>, \<open>UpdateTask\<close>, \<open>AssignTask\<close>, \<open>DeleteTask\<close> or \<open>GetTask\<close>.\<close>

theorem uninterrupted_handler_refines:
  assumes "reachable kind s"
  shows "\<exists>n. turns kind req n (begin_request kind req s)
    = (Finished (fst (serve_request kind req s)), snd (serve_request kind req s))"
proof -
  have "ends_in kind req (begin_request kind req s) (serve_request kind req s)"
    using change_request_ends [OF service_ok_reachable [OF assms], of req kind] create_request_ends
      get_request_ends [OF service_ok_reachable [OF assms]] by (cases req) auto
  then show ?thesis by (simp add: ends_in_def)
qed

section \<open>At work\<close>

lemma uninterrupted_handler_refines_witness:
  "\<exists>n. turns Mutable (CreateReq call_one create_q) n (begin_request Mutable (CreateReq call_one create_q) idle_service)
    = (Finished (fst (serve_request Mutable (CreateReq call_one create_q) idle_service)),
       snd (serve_request Mutable (CreateReq call_one create_q) idle_service))"
  by (rule uninterrupted_handler_refines) (rule idle_reachable)

text \<open>A creation that has begun to save, while a deletion arrives and another process adds no row.\<close>

lemma concurrent_writes_unacknowledged_witness:
  "let (hs, s) = server_run Mutable [Turn 0, Arrive (DeleteReq call_one delete_q), Turn 0, Others [], Turn 1, Turn 0]
      (server_run Mutable [Arrive (CreateReq call_one create_q)] (new_server empty_db))
   in outbox s = [] \<and> snd (hs ! 0) \<noteq> Finished (Reply (BoolAnswer True))"
proof -
  let ?es = "[Arrive (CreateReq call_one create_q)]"
  let ?fs = "[Turn 0, Arrive (DeleteReq call_one delete_q), Turn 0, Others [], Turn 1, Turn 0]"
  obtain hs s where a: "server_run Mutable ?es (new_server empty_db) = (hs, s)" by fastforce
  obtain hs' s' where b: "server_run Mutable ?fs (hs, s) = (hs', s')" by fastforce
  have "create Mutable ''t1'' ''e1'' noon (create_command_of call_one create_q) = Inr login_task"
    by (simp only: create_command login_create_ok)
  moreover have "uncommitted_events login_task \<noteq> []"
    by (simp add: login_task_def created_task_def)
  ultimately have "0 < length hs \<and> (\<exists>r c. snd (hs ! 0) = SavingTask r c)"
    using a by (auto simp: new_server_def begin_request_def call_one_def new_ref_def begin_save_def
      get_uncommitted_events_def deref_def Let_def)
  then obtain r c where "0 < length hs" "snd (hs ! 0) = SavingTask r c" by blast
  from concurrent_writes_unacknowledged [OF a b this] show ?thesis using a b
    by (simp add: Let_def del: server_run.simps)
qed

end
