(* ===== verification/Spec2Isabelle.thy ===== *)
theory Spec2Isabelle
  imports Service_Scenario Workflow_Scenario Orchestrator_Scenario Event_Bus_Scenario
    Workflow_Demo Observability Task_Errors Race_Scenario Shutdown_Race Workflow_Shutdown Parallel_Threads Settings
    Handler_Turns
begin

text \<open>
  Verification of the TaskForge platform: an event-sourced task service, a workflow service that runs
  sagas, the event bus between them, and a self-contained demonstration program. Paths below are relative
  to \<open>src/\<close> of the repository.

  \<^bold>\<open>The parts and how they interact.\<close> A request reaches a handler of \<open>TaskServiceServicer\<close>
  (\<open>services/task_service/infrastructure/grpc_server.py\<close>), which builds a command, loads a task through
  \<open>TaskRepository\<close> (\<open>repository.py\<close>), calls a method of \<open>TaskAggregate\<close> (\<open>domain/aggregates.py\<close>) and saves
  the task through the repository and, once more, through a \<open>UnitOfWork\<close> (\<open>libs/common/unit_of_work.py\<close>).
  Both save to \<open>PostgresEventStore\<close> (\<open>event_store.py\<close>) under an expected version; the unit of work hands the
  events to \<open>EventPublisher\<close> (\<open>libs/common/event_bus.py\<close>). \<open>WorkflowServiceApp\<close>
  (\<open>services/workflow_service/main.py\<close>) turns a request into a saga definition (\<open>saga/workflows.py\<close>, from the
  steps of \<open>libs/saga_framework/step.py\<close>) and gives it to \<open>SagaOrchestrator\<close> (\<open>libs/saga_framework/saga.py\<close>),
  which executes it in a task of its own.

  \<^bold>\<open>The theories.\<close>
  \<^item> \<open>Prelude\<close>: exceptions as values, the two result shapes (\<open>result\<close>: a value or an exception; \<open>effect\<close>: a
    state and perhaps an exception, for methods that mutate before they raise), dictionaries as association
    lists with Python's insertion order, the locale \<open>string_enum\<close>. \<open>Py_Time\<close>: \<open>datetime\<close> with \<open>isoformat\<close> and
    \<open>fromisoformat\<close>. \<open>Json\<close>: dynamic values. \<open>Py_Text\<close>: \<open>str\<close> and \<open>repr\<close>. \<open>Retry\<close>: the locale \<open>bounded_retry\<close>.
    \<open>Interleaving\<close>: the locale \<open>interleaving\<close> of tasks that share a world, interpreted for saves and for sub-steps.
  \<^item> \<open>Value_Objects\<close>, \<open>Commands\<close>, \<open>Events\<close>: the modules of these names in \<open>services/task_service/domain\<close>, the
    events with \<open>to_dict\<close>, \<open>from_dict\<close> and the registry of \<open>task_service/main.py\<close>. \<open>Event_Typing\<close>: the type
    of the wire format.
  \<^item> \<open>Aggregate_Root\<close>: \<open>AggregateRoot\<close> with the locale \<open>event_sourced\<close> of its contract. \<open>Task_Aggregate\<close>: every
    method of \<open>TaskAggregate\<close>. \<open>Task_Lifecycle\<close>, \<open>Task_Commands\<close>: its theorems. \<open>Task_Scenario\<close>: witnesses.
  \<^item> \<open>Event_Store\<close>: the store over the rows of its table, with the constraints of \<open>EVENT_STORE_SCHEMA\<close> and a
    transaction that is aborted after an error. \<open>Optimistic_Store\<close>: the locale of stores with optimistic
    concurrency control, interpreted by \<open>Event_Store_Facts\<close> and by \<open>Demo\<close> (\<open>main.py\<close>). \<open>Store_Scenario\<close>.
    \<open>Concurrent_Saves\<close>: calls of \<open>save_events\<close> one statement at a time, in any interleaving (\<open>interleave\<close>).
    \<open>Race_Scenario\<close>.
  \<^item> \<open>Repository\<close>, \<open>Unit_Of_Work\<close>, \<open>Grpc_Server\<close>: the write path; the record \<open>service\<close> holds the store, a
    heap of live tasks, since the cache of the repository and the handlers share them, and the events handed
    to the publisher. \<open>Commit_Facts\<close>, \<open>Service_Facts\<close>, \<open>Reload\<close>: their theorems. \<open>Service_Scenario\<close>.
    \<open>Concurrent_Handlers\<close>: the handlers from await to await (\<open>turn\<close>), any number of them interleaved
    (\<open>server_run\<close>). \<open>Handler_Turns\<close>: one alone is the handler of \<open>Grpc_Server\<close>.
  \<^item> \<open>Saga\<close>: steps, definitions, instances, and the execution of an instance as one function \<open>saga_execute\<close>
    whose argument \<open>cancel\<close> says at which awaits \<open>cancel_saga\<close> intervenes. \<open>Saga_Machine\<close>: the same
    execution one await at a time (\<open>tick\<close>). \<open>Orchestrator\<close>: the registry and its tasks, with the step relation
    \<open>orch_run\<close> of all interleavings. \<open>Saga_Facts\<close>, \<open>Saga_Execution\<close>, \<open>Saga_Machine_Facts\<close>,
    \<open>Saga_Machine_Run\<close>, \<open>Orchestrator_Facts\<close>: their theorems. \<open>Saga_Scenario\<close>, \<open>Orchestrator_Scenario\<close>.
  \<^item> \<open>Saga_Steps\<close>, \<open>Workflows\<close>, \<open>Workflow_Service\<close>: the ready-made steps, the three workflows and the service
    that starts them. \<open>Workflow_Facts\<close>, \<open>Workflow_Service_Facts\<close>, \<open>Workflow_Scenario\<close>. \<open>Saga_Timing\<close>: how long
    sagas pause. \<open>Workflow_Demo\<close>: the script \<open>demo_workflows\<close>, whose pauses are an argument. \<open>Parallel_Threads\<close>:
    the sub-steps of \<open>ParallelStep\<close> and the inner step of \<open>ConditionalStep\<close> as tasks, driven by a schedule.
  \<^item> \<open>Event_Bus\<close>: publisher and subscriber. \<open>Event_Bus_Facts\<close>, \<open>Event_Bus_Scenario\<close>. \<open>Lifecycle\<close>: starting and
    stopping the services, as traces of calls. \<open>Lifecycle_Facts\<close>. \<open>Shutdown_Race\<close>: the end of the task service with
    its main task, the server task and the task of a signal interleaved. \<open>Workflow_Shutdown\<close>: the end of the
    workflow service by the timers of its event loop. \<open>Settings\<close>: \<open>TaskServiceApp.__init__\<close> with the environment,
    \<open>serve\<close>, \<open>migrate\<close> and the configuration of the gRPC server. \<open>Observability\<close>: the manager of the telemetry
    (\<open>libs/common/observability.py\<close>). \<open>Task_Errors\<close>: \<open>domain/exceptions.py\<close>.
\<close>

text \<open>
  \<^bold>\<open>What the theorems show.\<close>
  \<^item> Tasks: exactly which creations and updates are accepted and what they change; the fields stay within
    what the value objects allow; the status moves along its table; a deleted task rejects every command;
    the live task is the replay of its events, in any order of the events. An update may be interrupted
    after it has recorded its event, which then makes the history impossible to replay.
  \<^item> Storage: the table constraints are invariant; a stale save is refused; of saves that run
    at the same time at most one wins, and a loser gets an error of the database instead of a conflict and
    aborts the session; what was saved is read back; a
    saved task is loaded again as the live one; \<open>to_dict\<close> and \<open>from_dict\<close> form a typed round trip that loses
    some fields.
  \<^item> The write path: what a commit does and that it is not atomic; no write that stores something is ever
    acknowledged, in any reachable state of the service and in any interleaving of its handlers, because each is
    saved twice.
  \<^item> Sagas: the bounds of the retries and pauses; which compensations run and in which order; the final
    status; a cancellation changes nothing else; the interleaved execution refines \<open>saga_execute\<close>; every
    execution terminates; the registry is right in every run and every started saga is completed; sub-steps
    of a parallel step that act on separate parts of the world give the same result in every interleaving; and
    through all of this what the three workflows end in.
  \<^item> Event bus and life cycle: the subscriber accounts for each message; one publication is sent at most nine
    times; every telemetry provider but the current ones is shut down. In every interleaving of its end
    the task service releases each resource at most once and in order; it releases all of them, unless the
    \<open>shutdown\<close> that a signal started is cancelled, which the end of the server brings about. The wait of the
    workflow service for running sagas is always cancelled. The port that \<open>serve\<close> is given survives the
    way through the environment.

  \<^bold>\<open>Bounds and fuel.\<close> No definition runs on fuel: every loop of the code is a structural recursion over the
  attempts, steps, messages, rows or events it goes through. The loop of a saga thread is driven by a list of
  events; \<open>tick_bound\<close> (one tick per permitted attempt and one more per step, and three) is enough ticks,
  proved by the measure \<open>work\<close>. \<open>serve_workflows\<close> is driven by a list of passes and gives \<open>None\<close> when it is
  used up; it ends with the first signal (\<open>serve_workflows_ends\<close>). The schedules of \<open>Concurrent_Saves\<close>,
  \<open>Parallel_Threads\<close>, \<open>Shutdown_Race\<close> and \<open>Workflow_Shutdown\<close> are lists of turns: a call of \<open>save_events\<close> ends
  after one turn more than it has events (\<open>uninterrupted_call\<close>), a sub-step after as many as it has
  attempts (\<open>sub_results_enough\<close>), the workflow service with the first timer after a signal.

  \<^bold>\<open>Arguments that stand for other code.\<close> Time, fresh identifiers and the outcome of calls into libraries are
  arguments: the actions of saga steps and callbacks are functions of the context and of a world \<open>'w\<close> that may
  return, raise or time out; the Kafka client, gRPC stubs and the HTTP client are functions of their state; the conversion
  of a string to a UUID by the database driver is a field of the store; tenacity's decorator is the
  hypothesis \<open>stops_after\<close>. The argument \<open>kind\<close> of the operations that write to events says whether the event
  class is frozen; \<open>domain_event_kind\<close> is what the code declares. With it no command works, which is a theorem
  (\<open>frozen_events_block_writes\<close>), so the other theorems hold for both kinds.

  \<^bold>\<open>Simplifications.\<close> Characters are those of Isabelle's \<open>char\<close> (Latin-1). One reading of the store uses one
  time for all missing time stamps. In \<open>Grpc_Server\<close> the handlers of the task service run one after the other;
  \<open>Concurrent_Handlers\<close> interleaves them, statement by statement, where a statement ends before the next
  begins (the driver refuses two at once on one session), and other processes only add rows. In a saga the
  code between two awaits is one step, which it is in asyncio; the pause after a failed attempt belongs to
  the tick of the attempt, and an attempt that the time limit of an outer step cuts off has no effect. In
  \<open>Saga_Steps\<close> the sub-steps of a \<open>ParallelStep\<close> run in their order and no outer time limit expires; \<open>Parallel_Threads\<close>
  has every other schedule, and shows when they agree. In \<open>Lifecycle\<close> a \<open>shutdown\<close> started by a signal runs as a whole
  while the server waits; \<open>Shutdown_Race\<close> and \<open>Workflow_Shutdown\<close> interleave it with the other tasks. The lock of the
  orchestrator and that of the publisher are never contended in what is modelled and have no state.

  \<^bold>\<open>Not modelled.\<close> All logging, printing and the registration of signal handlers with the event loop; what the libraries do (OpenTelemetry, structlog, gRPC,
  SQLAlchemy, asyncpg, aiokafka, tenacity, click); the abstract classes of \<open>unit_of_work.py\<close>, which have no
  code, and that importing this module raises \<open>NameError\<close> for the name \<open>Generic\<close>: the theorems describe the
  code with the import in place. \<open>Lifecycle\<close> keeps of the telemetry and the publisher only that they are
  called; \<open>Observability\<close> and \<open>Event_Bus\<close> say what these calls do.
\<close>

end
